(* ===== verification/Relay_Prelude.thy ===== *)
theory Relay_Prelude
  imports Main
begin

text \<open>
  Shared vocabulary of the development: the type of Go's error values, the result type of
  the functions that return a value and an error, the collections of hints the components
  add to, and the list lemmas several of them use.
\<close>

section \<open>Errors and results\<close>

text \<open>
  A Go error is a chain of wrapped errors: \<open>fmt.Errorf("ctx: %w", err)\<close> is \<open>Wrapped ctx err\<close>
  and \<open>fmt.Errorf("%w more", err)\<close> is \<open>Hinted err more\<close>. The leaves are the sentinel values
  the sources compare with \<open>errors.Is\<close>, a Windows error number, an error a library makes
  (known by a name for what went wrong, its text is the library's) and an error of the
  program's own, known by its text. A text is a list of fragments: verbatim, or printed
  with \<open>%q\<close>.
\<close>

datatype frag = Txt string | Quoted string

datatype goerr =
    ErrNotExist
  | ErrExist
  | ErrPermission
  | ErrClosed
  | ErrNoServiceSystem
  | ErrNotInstalled
  | Errno nat
  | LibErr string
  | Msg "frag list"
  | Wrapped "frag list" goerr
  | Hinted goerr "frag list"

type_synonym 'a res = "goerr + 'a"

text \<open>\<open>errors.Is err target\<close>: the target occurs somewhere down the chain.\<close>

fun errors_Is :: "goerr \<Rightarrow> goerr \<Rightarrow> bool" where
  "errors_Is (Wrapped c e) t = (Wrapped c e = t \<or> errors_Is e t)"
| "errors_Is (Hinted e c) t = (Hinted e c = t \<or> errors_Is e t)"
| "errors_Is e t = (e = t)"

lemma errors_Is_refl [simp]: "errors_Is e e"
  by (cases e) auto

lemma errors_Is_Wrapped [simp]: "errors_Is e t \<Longrightarrow> errors_Is (Wrapped c e) t"
  by simp

text \<open>Sequencing of fallible steps: stop at the first error.\<close>

definition bindR :: "'a res \<Rightarrow> ('a \<Rightarrow> 'b res) \<Rightarrow> 'b res" where
  "bindR r f = (case r of Inl e \<Rightarrow> Inl e | Inr x \<Rightarrow> f x)"

lemma bindR_simps [simp]:
  "bindR (Inl e) f = Inl e"
  "bindR (Inr x) f = f x"
  by (simp_all add: bindR_def)

lemma bindR_eq_Inr: "bindR r f = Inr y \<longleftrightarrow> (\<exists>x. r = Inr x \<and> f x = Inr y)"
  by (cases r) auto

text \<open>The error of a step gets a context, its value passes.\<close>

definition wrapR :: "frag list \<Rightarrow> 'a res \<Rightarrow> 'a res" where
  "wrapR c r = (case r of Inl e \<Rightarrow> Inl (Wrapped c e) | Inr x \<Rightarrow> Inr x)"

lemma wrapR_simps [simp]:
  "wrapR c (Inl e) = Inl (Wrapped c e)"
  "wrapR c (Inr x) = Inr x"
  by (simp_all add: wrapR_def)

lemma wrapR_eq_Inr [simp]: "wrapR c r = Inr x \<longleftrightarrow> r = Inr x"
  by (cases r) auto

section \<open>Hint collections\<close>

named_theorems go_simps \<open>evaluation rules of the modelled library functions\<close>
named_theorems frame_simps \<open>fields and map entries an operation leaves alone\<close>

section \<open>Lists\<close>

lemma takeWhile_append_stop:
  "\<not> P x \<Longrightarrow> (\<And>y. y \<in> set xs \<Longrightarrow> P y) \<Longrightarrow> takeWhile P (xs @ x # ys) = xs"
  by (induction xs) auto

lemma dropWhile_append_stop:
  "\<not> P x \<Longrightarrow> (\<And>y. y \<in> set xs \<Longrightarrow> P y) \<Longrightarrow> dropWhile P (xs @ x # ys) = x # ys"
  by (induction xs) auto

lemma takeWhile_neq_split:
  "c \<in> set s \<Longrightarrow> takeWhile (\<lambda>x. x \<noteq> c) s @ c # drop (Suc (length (takeWhile (\<lambda>x. x \<noteq> c) s))) s = s"
  by (induction s) auto

lemma length_takeWhile_neq_less:
  "c \<in> set s \<Longrightarrow> length (takeWhile (\<lambda>x. x \<noteq> c) s) < length s"
  by (induction s) auto

lemma take_Suc_length_takeWhile_neq:
  "c \<in> set s \<Longrightarrow> take (Suc (length (takeWhile (\<lambda>x. x \<noteq> c) s))) s = takeWhile (\<lambda>x. x \<noteq> c) s @ [c]"
  by (induction s) auto

lemma take_length_takeWhile [simp]: "take (length (takeWhile P s)) s = takeWhile P s"
  by (induction s) auto

lemma drop_length_takeWhile:
  "drop (length (takeWhile P s)) s = dropWhile P s"
  by (induction s) auto

lemma notin_takeWhile_neq [simp]: "c \<notin> set (takeWhile (\<lambda>x. x \<noteq> c) s)"
  by (induction s) auto

lemma split_at_unique:
  assumes "x @ c # y = z @ c # w" and "c \<notin> set x" and "c \<notin> set z"
  shows "x = z \<and> y = w"
proof -
  have "takeWhile (\<lambda>u. u \<noteq> c) (x @ c # y) = x" "takeWhile (\<lambda>u. u \<noteq> c) (z @ c # w) = z"
    using assms(2,3) by (auto intro!: takeWhile_append_stop)
  with assms(1) show ?thesis by auto
qed

lemma find_SomeD: "find P xs = Some w \<Longrightarrow> w \<in> set xs \<and> P w"
  by (induction xs) (auto split: if_splits)

lemma map_of_rev_snoc:
  "map_of (rev (xs @ [(k, v)])) = (map_of (rev xs))(k \<mapsto> v)"
  by simp

end
