(* ===== verification/Go_Strings.thy ===== *)
theory Go_Strings
  imports Relay_Prelude "HOL-Library.Sublist"
begin

text \<open>
  The part of Go's \<open>strings\<close>, \<open>unicode\<close> and \<open>unicode/utf8\<close> packages the
  program uses. A Go string is a byte sequence, and so is an Isabelle \<open>string\<close> (a
  \<open>char\<close> is eight bits), so no encoding is lost: a string may hold any bytes,
  valid UTF-8 or not. Case mapping works on decoded runes as in Go. The Unicode tables
  (everything from code point 128 up) are parameters; the ASCII part is concrete.
\<close>

section \<open>Bytes\<close>

abbreviation byte :: "char \<Rightarrow> nat" where
  "byte c \<equiv> of_char c"

definition isASCII :: "string \<Rightarrow> bool" where
  "isASCII s = list_all (\<lambda>c. byte c < 128) s"

lemma isASCII_simps [simp]:
  "isASCII []"
  "isASCII (c # s) \<longleftrightarrow> byte c < 128 \<and> isASCII s"
  "isASCII (s @ t) \<longleftrightarrow> isASCII s \<and> isASCII t"
  by (auto simp: isASCII_def)

lemma byte_less_256 [simp]: "byte c < 256"
  by (rule nat_of_char_less_256)

section \<open>Searching and cutting\<close>

text \<open>
  \<open>strings.Index\<close> and \<open>strings.LastIndex\<close> for the one-byte separators the program
  searches for; -1 when absent.
\<close>

definition Index1 :: "string \<Rightarrow> char \<Rightarrow> int" where
  "Index1 s c = (if c \<in> set s then int (length (takeWhile (\<lambda>x. x \<noteq> c) s)) else -1)"

definition LastIndex1 :: "string \<Rightarrow> char \<Rightarrow> int" where
  "LastIndex1 s c =
     (if c \<in> set s then int (length s) - 1 - int (length (takeWhile (\<lambda>x. x \<noteq> c) (rev s))) else -1)"

definition HasPrefix :: "string \<Rightarrow> string \<Rightarrow> bool" where
  "HasPrefix s p = prefix p s"

fun Contains :: "string \<Rightarrow> string \<Rightarrow> bool" where
  "Contains [] sub = (sub = [])"
| "Contains (c # s) sub = (prefix sub (c # s) \<or> Contains s sub)"

fun Split1 :: "string \<Rightarrow> char \<Rightarrow> string list" where
  "Split1 [] c = [[]]"
| "Split1 (x # s) c =
     (if x = c then [] # Split1 s c
      else (case Split1 s c of [] \<Rightarrow> [[x]] | p # ps \<Rightarrow> (x # p) # ps))"

fun Join1 :: "string list \<Rightarrow> char \<Rightarrow> string" where
  "Join1 [] c = []"
| "Join1 [p] c = p"
| "Join1 (p # q # ps) c = p @ c # Join1 (q # ps) c"

lemma Contains_iff: "Contains s sub \<longleftrightarrow> (\<exists>a b. s = a @ sub @ b)"
proof (induction s)
  case (Cons c s)
  show ?case
  proof
    assume "Contains (c # s) sub"
    then consider "prefix sub (c # s)" | "Contains s sub" by auto
    then show "\<exists>a b. c # s = a @ sub @ b"
    proof cases
      case 1
      then obtain b where "c # s = [] @ sub @ b" by (auto simp: prefix_def)
      then show ?thesis by blast
    next
      case 2
      then obtain a b where "s = a @ sub @ b" using Cons.IH by blast
      then have "c # s = (c # a) @ sub @ b" by simp
      then show ?thesis by blast
    qed
  next
    assume "\<exists>a b. c # s = a @ sub @ b"
    then obtain a b where ab: "c # s = a @ sub @ b" by blast
    show "Contains (c # s) sub"
    proof (cases a)
      case Nil
      with ab have "prefix sub (c # s)" by (metis append_Nil prefixI)
      then show ?thesis by simp
    next
      case (Cons x a')
      with ab have "s = a' @ sub @ b" by simp
      then show ?thesis using \<open>(Contains s sub) = (\<exists>a b. s = a @ sub @ b)\<close> by auto
    qed
  qed
qed simp

lemma Index1_split:
  assumes "0 \<le> Index1 s c"
  shows "s = take (nat (Index1 s c)) s @ c # drop (Suc (nat (Index1 s c))) s"
    and "c \<notin> set (take (nat (Index1 s c)) s)"
proof -
  let ?n = "length (takeWhile (\<lambda>x. x \<noteq> c) s)"
  from assms have cin: "c \<in> set s" by (simp add: Index1_def split: if_splits)
  then have n: "nat (Index1 s c) = ?n" by (simp add: Index1_def)
  have tk: "take ?n s = takeWhile (\<lambda>x. x \<noteq> c) s" by (metis takeWhile_eq_take)
  from takeWhile_neq_split[OF cin] n tk
  show "s = take (nat (Index1 s c)) s @ c # drop (Suc (nat (Index1 s c))) s" by simp
  from n tk show "c \<notin> set (take (nat (Index1 s c)) s)" by simp
qed

lemma Index1_append [simp]:
  "c \<notin> set a \<Longrightarrow> Index1 (a @ c # b) c = int (length a)"
proof -
  assume a: "c \<notin> set a"
  then have "takeWhile (\<lambda>x. x \<noteq> c) (a @ c # b) = a"
    by (intro takeWhile_append_stop) auto
  then show ?thesis by (simp add: Index1_def)
qed

lemma LastIndex1_append [simp]:
  assumes "c \<notin> set b"
  shows "LastIndex1 (a @ c # b) c = int (length a)"
proof -
  have "takeWhile (\<lambda>x. x \<noteq> c) (rev b @ c # rev a) = rev b"
    using assms by (intro takeWhile_append_stop) auto
  then show ?thesis by (simp add: LastIndex1_def)
qed

lemma LastIndex1_neg: "LastIndex1 s c < 0 \<longleftrightarrow> c \<notin> set s"
proof -
  have "length (takeWhile (\<lambda>x. x \<noteq> c) (rev s)) < length s" if "c \<in> set s"
    using that length_takeWhile_neq_less[of c "rev s"] by simp
  then show ?thesis by (auto simp: LastIndex1_def)
qed

subsection \<open>Split and Join are inverse\<close>

lemma Split1_nonempty [simp]: "Split1 s c \<noteq> []"
  by (induction s) (auto split: list.splits)

lemma Join1_Cons: "ps \<noteq> [] \<Longrightarrow> Join1 (p # ps) c = p @ c # Join1 ps c"
  by (cases ps) auto

lemma Join1_hd_Cons: "Join1 ((x # p) # ps) c = x # Join1 (p # ps) c"
  by (cases ps) auto

lemma Join1_Split1 [simp]: "Join1 (Split1 s c) c = s"
  by (induction s) (auto simp: Join1_Cons Join1_hd_Cons split: list.splits)

lemma Split1_no_sep: "p \<in> set (Split1 s c) \<Longrightarrow> c \<notin> set p"
proof (induction s arbitrary: p)
  case (Cons x s)
  then show ?case by (cases "Split1 s c") (auto split: if_splits)
qed simp

lemma Split1_id: "c \<notin> set s \<Longrightarrow> Split1 s c = [s]"
  by (induction s) auto

lemma Split1_append: "c \<notin> set p \<Longrightarrow> Split1 (p @ c # s) c = p # Split1 s c"
  by (induction p) auto

lemma Split1_Join1:
  "ps \<noteq> [] \<Longrightarrow> (\<And>p. p \<in> set ps \<Longrightarrow> c \<notin> set p) \<Longrightarrow> Split1 (Join1 ps c) c = ps"
proof (induction ps)
  case (Cons p ps)
  show ?case
  proof (cases "ps = []")
    case True
    with Cons.prems show ?thesis by (simp add: Split1_id)
  next
    case False
    with Cons have "Split1 (Join1 ps c) c = ps" by simp
    with False Cons.prems show ?thesis by (simp add: Join1_Cons Split1_append)
  qed
qed simp

section \<open>White space\<close>

text \<open>
  The UTF-8 encodings of the runes \<open>unicode.IsSpace\<close> accepts: the six ASCII ones,
  U+0085, U+00A0 and the White\_Space runes beyond Latin-1. UTF-8 is self-synchronising,
  so looking for one of these byte sequences at a position is what decoding a rune there
  and asking \<open>IsSpace\<close> does, from either end.
\<close>

definition ws_runes :: "string list" where
  "ws_runes =
     map (\<lambda>c. [c]) [CHR 0x09, CHR 0x0A, CHR 0x0B, CHR 0x0C, CHR 0x0D, CHR 0x20]
     @ [[CHR 0xC2, CHR 0x85], [CHR 0xC2, CHR 0xA0], [CHR 0xE1, CHR 0x9A, CHR 0x80]]
     @ map (\<lambda>c. [CHR 0xE2, CHR 0x80, c])
         [CHR 0x80, CHR 0x81, CHR 0x82, CHR 0x83, CHR 0x84, CHR 0x85, CHR 0x86, CHR 0x87,
          CHR 0x88, CHR 0x89, CHR 0x8A, CHR 0xA8, CHR 0xA9, CHR 0xAF]
     @ [[CHR 0xE2, CHR 0x81, CHR 0x9F], [CHR 0xE3, CHR 0x80, CHR 0x80]]"

definition ws_len :: "string \<Rightarrow> nat" where
  "ws_len s = (case find (\<lambda>w. prefix w s) ws_runes of None \<Rightarrow> 0 | Some w \<Rightarrow> length w)"

definition ws_tail :: "string \<Rightarrow> nat" where
  "ws_tail s = (case find (\<lambda>w. suffix w s) ws_runes of None \<Rightarrow> 0 | Some w \<Rightarrow> length w)"

lemma ws_runes_nonempty: "w \<in> set ws_runes \<Longrightarrow> w \<noteq> []"
  by (auto simp: ws_runes_def)

lemma ws_len_pos: "0 < ws_len s \<longleftrightarrow> (\<exists>w \<in> set ws_runes. prefix w s)"
proof (cases "find (\<lambda>w. prefix w s) ws_runes")
  case None
  then show ?thesis using find_None_iff[THEN iffD1, OF None] by (simp add: ws_len_def)
next
  case (Some w)
  then show ?thesis using find_SomeD[OF Some] by (auto simp: ws_len_def dest: ws_runes_nonempty)
qed

lemma ws_tail_pos: "0 < ws_tail s \<longleftrightarrow> (\<exists>w \<in> set ws_runes. suffix w s)"
proof (cases "find (\<lambda>w. suffix w s) ws_runes")
  case None
  then show ?thesis using find_None_iff[THEN iffD1, OF None] by (simp add: ws_tail_def)
next
  case (Some w)
  then show ?thesis using find_SomeD[OF Some] by (auto simp: ws_tail_def dest: ws_runes_nonempty)
qed

lemma ws_len_take: "0 < ws_len s \<Longrightarrow> take (ws_len s) s \<in> set ws_runes \<and> ws_len s \<le> length s"
  by (cases "find (\<lambda>w. prefix w s) ws_runes")
    (auto simp: ws_len_def prefix_def dest!: find_SomeD)

lemma ws_tail_drop:
  "0 < ws_tail s \<Longrightarrow> drop (length s - ws_tail s) s \<in> set ws_runes \<and> ws_tail s \<le> length s"
  by (cases "find (\<lambda>w. suffix w s) ws_runes")
    (auto simp: ws_tail_def suffix_def dest!: find_SomeD)

lemma ws_len_Nil [simp]: "ws_len [] = 0"
  using ws_len_pos[of "[]"] by (auto dest: ws_runes_nonempty)

lemma ws_tail_Nil [simp]: "ws_tail [] = 0"
  using ws_tail_pos[of "[]"] by (auto dest: ws_runes_nonempty)

text \<open>At an ASCII byte the test is the one on the byte.\<close>

lemma ws_len_ascii:
  assumes "byte c < (128::nat)"
  shows "ws_len (c # s) = (if byte c = (32::nat) \<or> (9 \<le> byte c \<and> byte c \<le> (13::nat)) then 1 else 0)"
proof -
  have ne: "c \<noteq> CHR 0xC2" "c \<noteq> CHR 0xE1" "c \<noteq> CHR 0xE2" "c \<noteq> CHR 0xE3"
    using assms by auto
  have cd: "(c = d) = (byte c = (byte d :: nat))" for d
    using of_char_eq_iff[of c d, where 'a = nat] by blast
  have "ws_len (c # s) = (if c \<in> {CHR 0x09, CHR 0x0A, CHR 0x0B, CHR 0x0C, CHR 0x0D, CHR 0x20} then 1 else 0)"
    using ne by (simp add: ws_len_def ws_runes_def eq_commute[of _ c])
  also have "c \<in> {CHR 0x09, CHR 0x0A, CHR 0x0B, CHR 0x0C, CHR 0x0D, CHR 0x20}
      \<longleftrightarrow> byte c = (32::nat) \<or> (9 \<le> byte c \<and> byte c \<le> (13::nat))"
    unfolding insert_iff cd by auto
  finally show ?thesis by simp
qed

lemma ws_len_prefix: "prefix p s \<Longrightarrow> ws_len s = 0 \<Longrightarrow> ws_len p = 0"
  using ws_len_pos[of p] ws_len_pos[of s] prefix_order.trans by (metis neq0_conv)

function trimLeft :: "string \<Rightarrow> string" where
  "trimLeft s = (if ws_len s = 0 then s else trimLeft (drop (ws_len s) s))"
  by pat_completeness auto
termination
proof (relation "measure length")
  fix s :: string
  assume "ws_len s \<noteq> 0"
  with ws_len_take[of s] show "(drop (ws_len s) s, s) \<in> measure length" by auto
qed simp

function trimRight :: "string \<Rightarrow> string" where
  "trimRight s = (if ws_tail s = 0 then s else trimRight (take (length s - ws_tail s) s))"
  by pat_completeness auto
termination
proof (relation "measure length")
  fix s :: string
  assume "ws_tail s \<noteq> 0"
  with ws_tail_drop[of s] show "(take (length s - ws_tail s) s, s) \<in> measure length" by auto
qed simp

declare trimLeft.simps [simp del] trimRight.simps [simp del]

definition TrimSpace :: "string \<Rightarrow> string" where
  "TrimSpace s = trimRight (trimLeft s)"

lemma trimLeft_id: "ws_len s = 0 \<Longrightarrow> trimLeft s = s"
  by (subst trimLeft.simps) simp

lemma trimRight_id: "ws_tail s = 0 \<Longrightarrow> trimRight s = s"
  by (subst trimRight.simps) simp

lemma trimLeft_ws_len [simp]: "ws_len (trimLeft s) = 0"
  by (induction s rule: trimLeft.induct) (subst trimLeft.simps, simp)

lemma trimRight_ws_tail [simp]: "ws_tail (trimRight s) = 0"
  by (induction s rule: trimRight.induct) (subst trimRight.simps, simp)

lemma trimRight_decomp: "\<exists>ws. s = trimRight s @ concat ws \<and> set ws \<subseteq> set ws_runes"
proof (induction s rule: trimRight.induct)
  case (1 s)
  show ?case
  proof (cases "ws_tail s = 0")
    case True
    then show ?thesis by (intro exI[of _ "[]"]) (simp add: trimRight_id)
  next
    case False
    let ?t = "take (length s - ws_tail s) s" and ?w = "drop (length s - ws_tail s) s"
    from 1 False obtain ws where ws: "?t = trimRight ?t @ concat ws" "set ws \<subseteq> set ws_runes"
      by blast
    from False have eq: "trimRight s = trimRight ?t" by (subst trimRight.simps) simp
    have "s = ?t @ ?w" by simp
    also have "\<dots> = trimRight s @ concat (ws @ [?w])"
      unfolding eq using ws(1) by (metis append.assoc concat_append concat.simps append_Nil2)
    finally have "s = trimRight s @ concat (ws @ [?w])" .
    moreover have "set (ws @ [?w]) \<subseteq> set ws_runes" using ws(2) ws_tail_drop[of s] False by simp
    ultimately show ?thesis by blast
  qed
qed

lemma prefix_trimRight: "prefix (trimRight s) s"
  using trimRight_decomp[of s] by (metis prefixI)

lemma suffix_trimLeft: "suffix (trimLeft s) s"
proof (induction s rule: trimLeft.induct)
  case (1 s)
  then show ?case
    by (subst trimLeft.simps) (auto intro: suffix_order.trans suffix_drop)
qed

lemma TrimSpace_ws_len [simp]: "ws_len (TrimSpace s) = 0"
  unfolding TrimSpace_def by (rule ws_len_prefix[OF prefix_trimRight]) simp

lemma TrimSpace_idem [simp]: "TrimSpace (TrimSpace s) = TrimSpace s"
  by (simp add: TrimSpace_def trimRight_id) (metis TrimSpace_def TrimSpace_ws_len trimLeft_id
      trimRight_id trimRight_ws_tail)

lemma TrimSpace_Nil [simp]: "TrimSpace [] = []"
  by (simp add: TrimSpace_def trimLeft_id trimRight_id)

lemma set_TrimSpace: "set (TrimSpace s) \<subseteq> set s"
  unfolding TrimSpace_def using set_mono_prefix[OF prefix_trimRight] set_mono_suffix[OF suffix_trimLeft]
  by blast

lemma TrimSpace_empty_iff: "TrimSpace s = [] \<longleftrightarrow> trimLeft s = []"
proof
  assume a: "TrimSpace s = []"
  then obtain ws where ws: "trimLeft s = concat ws" "set ws \<subseteq> set ws_runes"
    using trimRight_decomp[of "trimLeft s"] by (auto simp: TrimSpace_def)
  show "trimLeft s = []"
  proof (cases ws)
    case (Cons w ws')
    with ws have "w \<in> set ws_runes" "prefix w (trimLeft s)" by auto
    then have "0 < ws_len (trimLeft s)" unfolding ws_len_pos by blast
    then show ?thesis by simp
  qed (use ws in simp)
qed (simp add: TrimSpace_def trimRight_id)

text \<open>A string with white space nowhere: trimming and splitting leave it whole.\<close>

fun ws_free :: "string \<Rightarrow> bool" where
  "ws_free [] = True"
| "ws_free (c # s) = (ws_len (c # s) = 0 \<and> ws_free s)"

lemma ws_free_ws_len: "ws_free s \<Longrightarrow> ws_len s = 0"
  by (cases s) auto

lemma ws_free_drop: "ws_free s \<Longrightarrow> ws_free (drop n s)"
  by (induction s arbitrary: n) (auto simp: drop_Cons split: nat.splits)

lemma TrimSpace_ws_free [simp]:
  assumes "ws_free s"
  shows "TrimSpace s = s"
proof -
  have "ws_tail s = 0"
  proof (rule ccontr)
    assume "ws_tail s \<noteq> 0"
    then obtain w where w: "w \<in> set ws_runes" "suffix w s" using ws_tail_pos by blast
    then obtain n where "drop n s = w" by (metis append_eq_conv_conj suffix_def)
    with assms ws_free_drop have "ws_free w" by blast
    then have "ws_len w = 0" by (rule ws_free_ws_len)
    with w(1) show False using ws_len_pos[of w] by auto
  qed
  then show ?thesis using assms by (simp add: TrimSpace_def trimLeft_id trimRight_id ws_free_ws_len)
qed

subsection \<open>strings.Fields\<close>

function fields_from :: "string \<Rightarrow> string \<Rightarrow> string list" where
  "fields_from cur [] = (if cur = [] then [] else [cur])"
| "fields_from cur (c # s) =
     (if ws_len (c # s) = 0 then fields_from (cur @ [c]) s
      else (if cur = [] then [] else [cur]) @ fields_from [] (drop (ws_len (c # s)) (c # s)))"
  by pat_completeness auto
termination
  by (relation "measure (\<lambda>(cur, s). length s)") auto

definition Fields :: "string \<Rightarrow> string list" where
  "Fields s = fields_from [] s"

lemma fields_from_empty_iff: "fields_from cur s = [] \<longleftrightarrow> cur = [] \<and> trimLeft s = []"
proof (induction cur s rule: fields_from.induct)
  case (1 cur)
  then show ?case by (simp add: trimLeft_id)
next
  case (2 cur c s)
  then show ?case by (cases "ws_len (c # s) = 0") (auto simp: trimLeft.simps[of "c # s"])
qed

lemma Fields_empty_iff: "Fields s = [] \<longleftrightarrow> TrimSpace s = []"
  by (simp add: Fields_def fields_from_empty_iff TrimSpace_empty_iff)

lemma fields_from_nonempty: "f \<in> set (fields_from cur s) \<Longrightarrow> f \<noteq> []"
  by (induction cur s rule: fields_from.induct) (auto split: if_splits)

lemma fields_from_ws_free: "ws_free s \<Longrightarrow> fields_from cur s = (if cur @ s = [] then [] else [cur @ s])"
  by (induction s arbitrary: cur) auto

lemma Fields_ws_free: "ws_free s \<Longrightarrow> s \<noteq> [] \<Longrightarrow> Fields s = [s]"
  by (simp add: Fields_def fields_from_ws_free)

text \<open>A blank ends a field: no longer white-space sequence holds one.\<close>

lemma ws_rune_blank: "w \<in> set ws_runes \<Longrightarrow> CHR 0x20 \<in> set w \<Longrightarrow> w = [CHR 0x20]"
  by (auto simp: ws_runes_def)

lemma ws_free_blank:
  assumes "ws_free (c # s)"
  shows "ws_len (c # s @ CHR 0x20 # t) = 0"
proof (rule ccontr)
  assume "ws_len (c # s @ CHR 0x20 # t) \<noteq> 0"
  then obtain w where w: "w \<in> set ws_runes" "prefix w ((c # s) @ CHR 0x20 # t)" using ws_len_pos by fastforce
  show False
  proof (cases "length w \<le> length (c # s)")
    case True
    with w(2) have "prefix w (c # s)" by (metis prefix_length_prefix prefixI)
    with w(1) ws_len_pos[of "c # s"] assms show False by auto
  next
    case False
    have "prefix ((c # s) @ [CHR 0x20]) w"
      by (rule prefix_length_prefix[OF _ w(2)]) (use False in simp_all)
    then obtain u where "w = (c # s) @ CHR 0x20 # u" by (auto simp: prefix_def)
    with ws_rune_blank[OF w(1)] show False by auto
  qed
qed

lemma fields_from_blank:
  "ws_free s \<Longrightarrow> fields_from cur (s @ CHR 0x20 # t) = (if cur @ s = [] then [] else [cur @ s]) @ fields_from [] t"
proof (induction s arbitrary: cur)
  case Nil
  then show ?case by (simp add: ws_len_ascii)
next
  case (Cons c s)
  then show ?case using ws_free_blank[OF Cons.prems] by simp
qed

lemma Fields_blank: "ws_free s \<Longrightarrow> s \<noteq> [] \<Longrightarrow> Fields (s @ CHR 0x20 # t) = s # Fields t"
  by (simp add: Fields_def fields_from_blank)

subsection \<open>strings.TrimRight with a cutset of ASCII bytes\<close>

definition TrimRightSet :: "string \<Rightarrow> string \<Rightarrow> string" where
  "TrimRightSet s cs = rev (dropWhile (\<lambda>c. c \<in> set cs) (rev s))"

lemma TrimRightSet_snoc [simp]:
  "TrimRightSet (s @ [c]) cs = (if c \<in> set cs then TrimRightSet s cs else s @ [c])"
  by (simp add: TrimRightSet_def)

end
