(* ===== verification/Go_Unicode.thy ===== *)
theory Go_Unicode
  imports Go_Strings
begin

text \<open>
  Runes and case mapping: \<open>unicode/utf8\<close> decoding and encoding, \<open>strings.ToUpper\<close>,
  \<open>strings.ToLower\<close> and \<open>strings.EqualFold\<close>. A \<open>caseTable\<close> stands for the
  Unicode tables from code point 128 up; below that the mapping is concrete. The locale
  \<open>name_fold\<close> states what the environment code relies on when it compares names.
\<close>

section \<open>UTF-8\<close>

definition RuneError :: nat where
  "RuneError = 0xFFFD"

definition contByte :: "nat \<Rightarrow> bool" where
  "contByte b \<longleftrightarrow> 0x80 \<le> b \<and> b \<le> 0xBF"

text \<open>
  The rest of a multi-byte sequence after its first byte, with the ranges of
  \<open>utf8.acceptRanges\<close> for the second byte: no overlong form, no surrogate, nothing
  above U+10FFFF.
\<close>

definition acceptSecond :: "nat \<Rightarrow> nat \<Rightarrow> bool" where
  "acceptSecond b0 b1 \<longleftrightarrow>
     contByte b1
     \<and> (b0 = 0xE0 \<longrightarrow> 0xA0 \<le> b1) \<and> (b0 = 0xED \<longrightarrow> b1 \<le> 0x9F)
     \<and> (b0 = 0xF0 \<longrightarrow> 0x90 \<le> b1) \<and> (b0 = 0xF4 \<longrightarrow> b1 \<le> 0x8F)"

fun decodeMulti :: "nat \<Rightarrow> nat list \<Rightarrow> (nat \<times> nat list) option" where
  "decodeMulti b0 (b1 # r1) =
     (if \<not> acceptSecond b0 b1 then None
      else if 0xC2 \<le> b0 \<and> b0 \<le> 0xDF then Some ((b0 - 0xC0) * 64 + (b1 - 0x80), r1)
      else (case r1 of
        [] \<Rightarrow> None
      | b2 # r2 \<Rightarrow>
          if \<not> contByte b2 then None
          else if 0xE0 \<le> b0 \<and> b0 \<le> 0xEF
          then Some ((b0 - 0xE0) * 4096 + (b1 - 0x80) * 64 + (b2 - 0x80), r2)
          else (case r2 of
            [] \<Rightarrow> None
          | b3 # r3 \<Rightarrow>
              if 0xF0 \<le> b0 \<and> b0 \<le> 0xF4 \<and> contByte b3
              then Some ((b0 - 0xF0) * 262144 + (b1 - 0x80) * 4096
                         + (b2 - 0x80) * 64 + (b3 - 0x80), r3)
              else None)))"
| "decodeMulti b0 [] = None"

lemma ascii_not_cont [simp]: "x < 0x80 \<Longrightarrow> \<not> contByte x" "x < 0x80 \<Longrightarrow> \<not> acceptSecond b x"
  by (simp_all add: contByte_def acceptSecond_def)

lemma decodeMulti_shorter: "decodeMulti b bs = Some (r, rest) \<Longrightarrow> length rest < length bs"
  by (cases "(b, bs)" rule: decodeMulti.cases) (auto split: if_splits list.splits)

text \<open>
  The runes of a byte string as a \<open>range\<close> loop sees them: a byte that starts no valid
  sequence is \<open>RuneError\<close> with width one.
\<close>

function decodeRunes :: "nat list \<Rightarrow> nat list" where
  "decodeRunes [] = []"
| "decodeRunes (b # bs) =
     (if b < 0x80 then b # decodeRunes bs
      else case decodeMulti b bs of
             None \<Rightarrow> RuneError # decodeRunes bs
           | Some (r, rest) \<Rightarrow> r # decodeRunes rest)"
  by pat_completeness auto
termination
  by (relation "measure length") (auto dest!: decodeMulti_shorter sym[of "Some _"])

definition encodeRune :: "nat \<Rightarrow> nat list" where
  "encodeRune r =
     (if r < 0x80 then [r]
      else if r < 0x800 then [0xC0 + r div 64, 0x80 + r mod 64]
      else if 0x10FFFF < r \<or> (0xD800 \<le> r \<and> r \<le> 0xDFFF) then [0xEF, 0xBF, 0xBD]
      else if r < 0x10000 then [0xE0 + r div 4096, 0x80 + r div 64 mod 64, 0x80 + r mod 64]
      else [0xF0 + r div 262144, 0x80 + r div 4096 mod 64, 0x80 + r div 64 mod 64, 0x80 + r mod 64])"

text \<open>An ASCII byte never continues a sequence, so decoding splits at it.\<close>

lemma decodeMulti_ascii_stop:
  assumes "x < 0x80"
  shows "decodeMulti b (as @ x # bs) =
           map_option (\<lambda>(r, rest). (r, rest @ x # bs)) (decodeMulti b as)"
proof (cases as)
  case Nil
  then show ?thesis using assms by (simp split: list.splits)
next
  case (Cons b1 as1)
  show ?thesis
  proof (cases as1)
    case Nil
    with Cons show ?thesis using assms by (simp split: list.splits)
  next
    case (Cons b2 as2)
    with \<open>as = b1 # as1\<close> show ?thesis using assms by (cases as2) simp_all
  qed
qed

lemma decodeRunes_ascii_split:
  assumes "x < 0x80"
  shows "decodeRunes (as @ x # bs) = decodeRunes as @ x # decodeRunes bs"
proof (induction as rule: decodeRunes.induct)
  case 1
  then show ?case using assms by simp
next
  case (2 b as)
  show ?case
  proof (cases "b < 0x80")
    case True
    with 2 show ?thesis by simp
  next
    case False
    with 2 show ?thesis
      by (cases "decodeMulti b as") (auto simp: decodeMulti_ascii_stop[OF assms])
  qed
qed

lemma decodeRunes_ascii: "list_all (\<lambda>b. b < 0x80) bs \<Longrightarrow> decodeRunes bs = bs"
  by (induction bs) auto

section \<open>Case mapping\<close>

record caseTable =
  uniUpper :: "nat \<Rightarrow> nat"
  uniLower :: "nat \<Rightarrow> nat"

definition upperRune :: "caseTable \<Rightarrow> nat \<Rightarrow> nat" where
  "upperRune U r = (if r < 0x80 then (if 97 \<le> r \<and> r \<le> 122 then r - 32 else r) else uniUpper U r)"

definition lowerRune :: "caseTable \<Rightarrow> nat \<Rightarrow> nat" where
  "lowerRune U r = (if r < 0x80 then (if 65 \<le> r \<and> r \<le> 90 then r + 32 else r) else uniLower U r)"

text \<open>A table that maps no rune beyond ASCII, for concrete examples.\<close>

definition asciiTable :: caseTable where
  "asciiTable = \<lparr>uniUpper = (\<lambda>r. r), uniLower = (\<lambda>r. r)\<rparr>"

text \<open>\<open>strings.Map\<close> with a mapping that drops no rune.\<close>

definition mapRunes :: "(nat \<Rightarrow> nat) \<Rightarrow> string \<Rightarrow> string" where
  "mapRunes f s = map char_of (concat (map (encodeRune \<circ> f) (decodeRunes (map of_char s))))"

text \<open>
  Both functions have a byte-wise path for ASCII strings and fall back to
  \<open>strings.Map\<close> as soon as one byte is not ASCII.
\<close>

definition ToUpper :: "caseTable \<Rightarrow> string \<Rightarrow> string" where
  "ToUpper U s =
     (if isASCII s then map (\<lambda>c. char_of (upperRune U (of_char c))) s else mapRunes (upperRune U) s)"

definition ToLower :: "caseTable \<Rightarrow> string \<Rightarrow> string" where
  "ToLower U s =
     (if isASCII s then map (\<lambda>c. char_of (lowerRune U (of_char c))) s else mapRunes (lowerRune U) s)"

lemma mapRunes_ascii:
  assumes "isASCII s" and "\<And>r. r < 0x80 \<Longrightarrow> f r < 0x80"
  shows "mapRunes f s = map (\<lambda>c. char_of (f (of_char c))) s"
proof -
  have "list_all (\<lambda>b::nat. b < 0x80) (map of_char s)"
    using assms(1) by (simp add: isASCII_def list.pred_map comp_def)
  then have d: "decodeRunes (map of_char s) = map of_char s" by (rule decodeRunes_ascii)
  have "concat (map (encodeRune \<circ> f) (map of_char s)) = map (\<lambda>c. f (of_char c)) s"
    using assms by (induction s) (auto simp: encodeRune_def)
  then show ?thesis unfolding mapRunes_def d by simp
qed

lemma upperRune_ascii [simp]: "r < 0x80 \<Longrightarrow> upperRune U r < 0x80"
  by (auto simp: upperRune_def)

lemma lowerRune_ascii [simp]: "r < 0x80 \<Longrightarrow> lowerRune U r < 0x80"
  by (auto simp: lowerRune_def)

text \<open>The byte-wise path is an optimisation: it agrees with \<open>strings.Map\<close>.\<close>

lemma ToUpper_mapRunes: "ToUpper U s = mapRunes (upperRune U) s"
  by (simp add: ToUpper_def mapRunes_ascii)

lemma ToLower_mapRunes: "ToLower U s = mapRunes (lowerRune U) s"
  by (simp add: ToLower_def mapRunes_ascii)

lemma mapRunes_Nil [simp]: "mapRunes f [] = []"
  by (simp add: mapRunes_def)

lemma mapRunes_split:
  assumes "byte c < 0x80"
  shows "mapRunes f (a @ c # b) = mapRunes f a @ mapRunes f [c] @ mapRunes f b"
  using assms by (simp add: mapRunes_def decodeRunes_ascii_split)

lemma mapRunes_single:
  "byte c < 0x80 \<Longrightarrow> f (byte c) < 0x80 \<Longrightarrow> mapRunes f [c] = [char_of (f (byte c))]"
  by (simp add: mapRunes_def encodeRune_def)

section \<open>Case-insensitive names\<close>

text \<open>
  What the environment code needs of the function it compares names with: an entry
  \<open>NAME=value\<close> is folded piecewise around its \<open>=\<close>. The \<open>=\<close> is where names end,
  so it must stay what it is.
\<close>

locale name_fold =
  fixes fold_name :: "string \<Rightarrow> string"
  assumes fold_split: "fold_name (a @ CHR ''='' # b) = fold_name a @ CHR ''='' # fold_name b"
begin

definition same_name :: "string \<Rightarrow> string \<Rightarrow> bool" where
  "same_name a b \<longleftrightarrow> fold_name a = fold_name b"

lemma same_name_refl [simp]: "same_name a a"
  by (simp add: same_name_def)

lemma entry_prefix: "prefix (fold_name k @ ''='') (fold_name (k @ CHR ''='' # v))"
  by (simp add: fold_split)

lemma entry_prefix_iff:
  assumes "CHR ''='' \<notin> set (fold_name k)" and "CHR ''='' \<notin> set (fold_name n)"
  shows "prefix (fold_name k @ ''='') (fold_name (n @ CHR ''='' # v)) \<longleftrightarrow> same_name k n"
proof
  assume "prefix (fold_name k @ ''='') (fold_name (n @ CHR ''='' # v))"
  then obtain z where "fold_name k @ CHR ''='' # z = fold_name n @ CHR ''='' # fold_name v"
    by (auto simp: fold_split prefix_def)
  with assms have "fold_name k = fold_name n" using split_at_unique by fastforce
  then show "same_name k n" by (simp add: same_name_def)
next
  assume "same_name k n"
  then show "prefix (fold_name k @ ''='') (fold_name (n @ CHR ''='' # v))"
    by (simp add: same_name_def fold_split)
qed

end

lemma eq_char_rune [simp]: "(char_of (61::nat) :: char) = CHR ''=''"
  by code_simp

interpretation upper: name_fold "ToUpper U"
proof unfold_locales
  fix a b
  have "mapRunes (upperRune U) [CHR ''=''] = ''=''"
    by (subst mapRunes_single) (simp_all add: upperRune_def)
  then show "ToUpper U (a @ CHR ''='' # b) = ToUpper U a @ CHR ''='' # ToUpper U b"
    by (simp add: ToUpper_mapRunes mapRunes_split)
qed

interpretation lower: name_fold "ToLower U"
proof unfold_locales
  fix a b
  have "mapRunes (lowerRune U) [CHR ''=''] = ''=''"
    by (subst mapRunes_single) (simp_all add: lowerRune_def)
  then show "ToLower U (a @ CHR ''='' # b) = ToLower U a @ CHR ''='' # ToLower U b"
    by (simp add: ToLower_mapRunes mapRunes_split)
qed

lemma ToUpper_Nil [simp]: "ToUpper U [] = []"
  by (simp add: ToUpper_mapRunes)

lemma ToLower_Nil [simp]: "ToLower U [] = []"
  by (simp add: ToLower_mapRunes)

section \<open>EqualFold against an ASCII string\<close>

text \<open>
  \<open>strings.EqualFold(s, t)\<close> for the ASCII literals the program passes as \<open>t\<close>. Beside
  the two ASCII cases, Unicode folding puts U+212A (Kelvin) with \<open>k\<close> and U+017F (long s)
  with \<open>s\<close>; no other rune folds to an ASCII letter.
\<close>

definition foldEqRune :: "nat \<Rightarrow> nat \<Rightarrow> bool" where
  "foldEqRune r t \<longleftrightarrow>
     r = t
     \<or> (65 \<le> r \<and> r \<le> 90 \<and> t = r + 32) \<or> (97 \<le> r \<and> r \<le> 122 \<and> t + 32 = r)
     \<or> (r = 0x212A \<and> t \<in> {75, 107}) \<or> (r = 0x17F \<and> t \<in> {83, 115})"

definition EqualFold :: "string \<Rightarrow> string \<Rightarrow> bool" where
  "EqualFold s t = list_all2 foldEqRune (decodeRunes (map of_char s)) (map of_char t)"

lemma foldEqRune_refl [simp]: "foldEqRune r r"
  by (simp add: foldEqRune_def)

lemma EqualFold_refl: "isASCII s \<Longrightarrow> EqualFold s s"
  by (simp add: EqualFold_def isASCII_def decodeRunes_ascii list.pred_map comp_def
      list_all2_refl)

end
