(* ===== verification/Relay_Env.thy ===== *)
theory Relay_Env
  imports Go_Unicode
begin

text \<open>
  \<open>internal/sshserver/env.go\<close> with \<open>env_windows.go\<close> and \<open>env_other.go\<close>: the
  environment block a session's process starts with. The registry is a parameter (what
  \<open>OpenKey\<close>, \<open>ReadValueNames\<close> and \<open>GetStringValue\<close> return); the composition is
  modelled whole. \<open>U\<close> is the Unicode case table, \<open>sep\<close> the PATH list separator
  (\<open>envPathSeparator\<close>).
\<close>

section \<open>mergePath\<close>

text \<open>
  The loop's state is the \<open>seen\<close> set (as a list of its keys) and the output so far.
\<close>

definition mergePart :: "caseTable \<Rightarrow> string \<Rightarrow> string list \<times> string list \<Rightarrow> string list \<times> string list" where
  "mergePart U raw st =
     (let part = TrimSpace raw; (seen, out) = st in
      if part = [] then st
      else let key = ToLower U part in
        if key \<in> set seen then st else (key # seen, out @ [part]))"

definition mergePath :: "caseTable \<Rightarrow> char \<Rightarrow> string list \<Rightarrow> string" where
  "mergePath U sep fragments =
     Join1 (snd (fold (\<lambda>fragment st. fold (mergePart U) (Split1 fragment sep) st) fragments ([], []))) sep"

section \<open>replaceEnv\<close>

definition replaceEnvStep :: "caseTable \<Rightarrow> string \<Rightarrow> string \<Rightarrow> string \<Rightarrow> string list \<times> bool \<Rightarrow> string list \<times> bool" where
  "replaceEnvStep U key val kv st =
     (let (out, replaced) = st in
      if HasPrefix (ToUpper U kv) (ToUpper U key @ ''='') then
        (if \<not> replaced then (out @ [key @ ''='' @ val], True) else st)
      else (out @ [kv], replaced))"

definition replaceEnv :: "caseTable \<Rightarrow> string list \<Rightarrow> string \<Rightarrow> string \<Rightarrow> string list" where
  "replaceEnv U env key val =
     (let (out, replaced) = fold (replaceEnvStep U key val) env ([], False) in
      if \<not> replaced then out @ [key @ ''='' @ val] else out)"

section \<open>Values, entries and the lookup table\<close>

record envValue =
  evName :: string
  evValue :: string
  evExpandable :: bool

record envEntry =
  eeName :: string
  eeValue :: string

type_synonym envLookup = "string \<Rightarrow> string option"

definition envSet :: "caseTable \<Rightarrow> string \<Rightarrow> string \<Rightarrow> envLookup \<Rightarrow> envLookup" where
  "envSet U name val l = l(ToUpper U name \<mapsto> val)"

definition envGet :: "caseTable \<Rightarrow> envLookup \<Rightarrow> string \<Rightarrow> string option" where
  "envGet U l name = l (ToUpper U name)"

definition newEnvLookup :: "caseTable \<Rightarrow> string list \<Rightarrow> envLookup" where
  "newEnvLookup U base =
     fold (\<lambda>kv l. let i = Index1 kv CHR ''='' in
             if 0 < i then l(ToUpper U (take (nat i) kv) \<mapsto> drop (nat i + 1) kv) else l) base Map.empty"

section \<open>expandPercent\<close>

text \<open>The loop over \<open>s[i:]\<close>; \<open>e\<close> is \<open>strings.IndexByte(rest, '%')\<close>.\<close>

function expandLoop :: "caseTable \<Rightarrow> envLookup \<Rightarrow> string \<Rightarrow> string" where
  "expandLoop U l [] = []"
| "expandLoop U l (c # rest) =
     (if c \<noteq> CHR ''%'' then c # expandLoop U l rest
      else let e = Index1 rest CHR ''%'' in
        if e < 0 then c # rest
        else let name = take (nat e) rest in
          if name = [] then take 2 (c # rest) @ expandLoop U l (drop 1 rest)
          else (case envGet U l name of
                  Some v \<Rightarrow> v
                | None \<Rightarrow> take (2 + nat e) (c # rest)) @ expandLoop U l (drop (nat e + 1) rest))"
  by pat_completeness auto
termination
  by (relation "measure (\<lambda>(U, l, s). length s)") auto

definition expandPercent :: "caseTable \<Rightarrow> string \<Rightarrow> envLookup \<Rightarrow> string" where
  "expandPercent U s l = (if \<not> Contains s ''%'' then s else expandLoop U l s)"

section \<open>expandLayer\<close>

definition expandLayer :: "caseTable \<Rightarrow> envValue list \<Rightarrow> envLookup \<Rightarrow> envEntry list \<times> envLookup" where
  "expandLayer U vs l0 =
     (let l1 = fold (\<lambda>v l. if \<not> evExpandable v then envSet U (evName v) (evValue v) l else l) vs l0
      in fold (\<lambda>v (es, l).
            let val = (if evExpandable v then expandPercent U (evValue v) l else evValue v)
            in (es @ [\<lparr>eeName = evName v, eeValue = val\<rparr>], envSet U (evName v) val l))
          vs ([], l1))"

section \<open>composeEnv\<close>

record envTab =
  tValues :: "string \<Rightarrow> string option"
  tSpelling :: "string \<Rightarrow> string option"
  tOrder :: "string list"

definition emptyTab :: envTab where
  "emptyTab = \<lparr>tValues = Map.empty, tSpelling = Map.empty, tOrder = []\<rparr>"

text \<open>The closure \<open>add\<close>.\<close>

definition addEnv :: "caseTable \<Rightarrow> string \<Rightarrow> string \<Rightarrow> envTab \<Rightarrow> envTab" where
  "addEnv U name val t =
     (let key = ToUpper U name in
      \<lparr>tValues = (tValues t)(key \<mapsto> val),
       tSpelling = (tSpelling t)(key \<mapsto> name),
       tOrder = (if tValues t key = None then tOrder t @ [key] else tOrder t)\<rparr>)"

text \<open>Go reads a missing map key as the empty string.\<close>

definition mapGet :: "(string \<Rightarrow> string option) \<Rightarrow> string \<Rightarrow> string" where
  "mapGet m k = (case m k of None \<Rightarrow> [] | Some v \<Rightarrow> v)"

definition addBase :: "caseTable \<Rightarrow> string \<Rightarrow> envTab \<Rightarrow> envTab" where
  "addBase U kv t =
     (let i = Index1 kv CHR ''='' in
      if 0 < i then addEnv U (take (nat i) kv) (drop (nat i + 1) kv) t else t)"

definition addMachine :: "caseTable \<Rightarrow> envEntry \<Rightarrow> envTab \<Rightarrow> envTab" where
  "addMachine U e t = addEnv U (eeName e) (eeValue e) t"

definition addUser :: "caseTable \<Rightarrow> char \<Rightarrow> envEntry \<Rightarrow> envTab \<Rightarrow> envTab" where
  "addUser U sep e t =
     (let key = ToUpper U (eeName e) in
      if key = ''PATH''
      then addEnv U (eeName e) (mergePath U sep [mapGet (tValues t) key, eeValue e]) t
      else addEnv U (eeName e) (eeValue e) t)"

definition composeTab :: "caseTable \<Rightarrow> char \<Rightarrow> string list \<Rightarrow> envEntry list \<Rightarrow> envEntry list \<Rightarrow> envTab" where
  "composeTab U sep base machine user =
     fold (addUser U sep) user (fold (addMachine U) machine (fold (addBase U) base emptyTab))"

definition composeEnv :: "caseTable \<Rightarrow> char \<Rightarrow> string list \<Rightarrow> envEntry list \<Rightarrow> envEntry list \<Rightarrow> string list" where
  "composeEnv U sep base machine user =
     (let t = composeTab U sep base machine user in
      map (\<lambda>key. mapGet (tSpelling t) key @ ''='' @ mapGet (tValues t) key) (tOrder t))"

section \<open>readEnvKey and sessionEnv\<close>

text \<open>
  A registry key as its API shows it: opening may fail, listing the names may fail, and
  reading a value as a string may fail; a value that is read comes with whether its type
  is \<open>EXPAND_SZ\<close>.
\<close>

record regKey =
  rkNames :: "string list res"
  rkValue :: "string \<Rightarrow> (string \<times> bool) res"

definition readEnvValue :: "regKey \<Rightarrow> string \<Rightarrow> envValue list" where
  "readEnvValue k name =
     (if name = [] then []
      else case rkValue k name of
             Inl e \<Rightarrow> []
           | Inr (v, x) \<Rightarrow> [\<lparr>evName = name, evValue = v, evExpandable = x\<rparr>])"

text \<open>The two hives the program reads, and the keys below them.\<close>

datatype regRoot = LocalMachine | CurrentUser

type_synonym registry = "regRoot \<Rightarrow> string \<Rightarrow> regKey res"

definition machineEnvKey :: string where
  "machineEnvKey = ''SYSTEM'' @ [CHR 0x5C] @ ''CurrentControlSet'' @ [CHR 0x5C] @ ''Control'' @ [CHR 0x5C]
     @ ''Session Manager'' @ [CHR 0x5C] @ ''Environment''"

definition userEnvKey :: string where
  "userEnvKey = ''Environment''"

definition readEnvKey :: "registry \<Rightarrow> regRoot \<Rightarrow> string \<Rightarrow> envValue list" where
  "readEnvKey R root subKey =
     (case R root subKey of
        Inl e \<Rightarrow> []
      | Inr k \<Rightarrow> (case rkNames k of Inl e \<Rightarrow> [] | Inr names \<Rightarrow> concat (map (readEnvValue k) names)))"

text \<open>The Windows session block: the inherited one, machine entries over it, then the user's.\<close>

definition sessionEnvWindows :: "caseTable \<Rightarrow> char \<Rightarrow> string list \<Rightarrow> registry \<Rightarrow> string list" where
  "sessionEnvWindows U sep base R =
     (let l0 = newEnvLookup U base;
          (machine, l1) = expandLayer U (readEnvKey R LocalMachine machineEnvKey) l0;
          (user, l2) = expandLayer U (readEnvKey R CurrentUser userEnvKey) l1
      in composeEnv U sep base machine user)"

text \<open>Elsewhere it is the inherited block.\<close>

definition sessionEnvOther :: "string list \<Rightarrow> string list" where
  "sessionEnvOther base = base"

end
