(* ===== verification/Relay_Env_Facts.thy ===== *)
theory Relay_Env_Facts
  imports Relay_Env
begin

text \<open>
  Correctness of the environment code: what \<open>mergePath\<close> keeps and drops, where
  \<open>replaceEnv\<close> puts its entry, which references \<open>expandPercent\<close> expands, and the block
  \<open>composeEnv\<close> builds. How an entry splits is specified once (\<open>entryOf\<close>), and both places where
  the code splits one are proved to follow it. Tables keyed by a folded name are the locales \<open>name_store\<close> and
  \<open>name_table\<close>, interpreted on \<open>envLookup\<close> and on \<open>composeEnv\<close>'s own table.
\<close>

section \<open>Removing duplicates by a key\<close>

function dedupBy :: "('a \<Rightarrow> 'b) \<Rightarrow> 'a list \<Rightarrow> 'a list" where
  "dedupBy f [] = []"
| "dedupBy f (x # xs) = x # dedupBy f (filter (\<lambda>y. f y \<noteq> f x) xs)"
  by pat_completeness auto
termination
  by (relation "measure (\<lambda>(f, xs). length xs)") (auto simp: less_Suc_eq_le)

lemma dedupBy_keys_set: "f ` set (dedupBy f xs) = f ` set xs"
proof (induction f xs rule: dedupBy.induct)
  case (2 f x xs)
  have "f ` set (x # xs) = insert (f x) (f ` set (filter (\<lambda>y. f y \<noteq> f x) xs))" by auto
  with 2 show ?case by simp
qed simp

lemma dedupBy_subset: "set (dedupBy f xs) \<subseteq> set xs"
  by (induction f xs rule: dedupBy.induct) auto

lemma dedupBy_distinct: "distinct (map f (dedupBy f xs))"
proof (induction f xs rule: dedupBy.induct)
  case (2 f x xs)
  have "f x \<notin> f ` set (dedupBy f (filter (\<lambda>y. f y \<noteq> f x) xs))"
    using dedupBy_subset[of f "filter (\<lambda>y. f y \<noteq> f x) xs"] by auto
  with 2 show ?case by simp
qed simp

lemma dedupBy_subseq: "subseq (dedupBy f xs) xs"
proof (induction f xs rule: dedupBy.induct)
  case (2 f x xs)
  then have "subseq (dedupBy f (filter (\<lambda>y. f y \<noteq> f x) xs)) xs"
    using subseq_filter_left subseq_order.trans by blast
  then show ?case by simp
qed simp

lemma dedupBy_id: "distinct (map f xs) \<Longrightarrow> dedupBy f xs = xs"
proof (induction f xs rule: dedupBy.induct)
  case (2 f x xs)
  then have "\<forall>y \<in> set xs. f y \<noteq> f x" by (metis distinct.simps(2) imageI list.simps(9) set_map)
  then have "filter (\<lambda>y. f y \<noteq> f x) xs = xs" by (simp add: filter_id_conv)
  with 2 show ?case by simp
qed simp

lemma dedupBy_append:
  "dedupBy f (xs @ ys) = dedupBy f xs @ dedupBy f (filter (\<lambda>y. f y \<notin> f ` set xs) ys)"
proof (induction f xs arbitrary: ys rule: dedupBy.induct)
  case (2 f x xs)
  have "filter (\<lambda>y. f y \<notin> f ` set (filter (\<lambda>y. f y \<noteq> f x) xs)) (filter (\<lambda>y. f y \<noteq> f x) ys)
      = filter (\<lambda>y. f y \<notin> f ` set (x # xs)) ys"
    by (auto intro!: filter_cong)
  with 2[of "filter (\<lambda>y. f y \<noteq> f x) ys"] show ?case by simp
qed simp

section \<open>mergePath\<close>

definition pathEntries :: "char \<Rightarrow> string \<Rightarrow> string list" where
  "pathEntries sep f = filter (\<lambda>p. p \<noteq> []) (map TrimSpace (Split1 f sep))"

text \<open>The inner loop appends the parts whose key is new.\<close>

lemma mergePart_cases:
  "mergePart U p (seen, out) =
     (if TrimSpace p = [] \<or> ToLower U (TrimSpace p) \<in> set seen then (seen, out)
      else (ToLower U (TrimSpace p) # seen, out @ [TrimSpace p]))"
  by (simp add: mergePart_def Let_def)

lemma fold_mergePart:
  "snd (fold (mergePart U) parts (seen, out)) =
     out @ dedupBy (ToLower U)
       (filter (\<lambda>p. p \<noteq> [] \<and> ToLower U p \<notin> set seen) (map TrimSpace parts))"
proof (induction parts arbitrary: seen out)
  case (Cons p parts)
  let ?k = "ToLower U (TrimSpace p)"
  have mrg: "filter (\<lambda>q. ToLower U q \<noteq> ?k) (filter (\<lambda>q. q \<noteq> [] \<and> ToLower U q \<notin> set seen) qs)
      = filter (\<lambda>q. q \<noteq> [] \<and> ToLower U q \<notin> set (?k # seen)) qs" for qs
    by (auto intro!: filter_cong)
  show ?case
  proof (cases "TrimSpace p = [] \<or> ?k \<in> set seen")
    case True
    with Cons[of seen out] show ?thesis by (auto simp: mergePart_cases)
  next
    case False
    with Cons[of "?k # seen" "out @ [TrimSpace p]"] mrg[of "map TrimSpace parts"]
    show ?thesis by (simp add: mergePart_cases)
  qed
qed simp

lemma fold_mergePath_fragments:
  "fold (\<lambda>fragment st. fold (mergePart U) (Split1 fragment sep) st) fragments st =
     fold (mergePart U) (concat (map (\<lambda>f. Split1 f sep) fragments)) st"
  by (induction fragments arbitrary: st) auto

lemma mergePath_dedup:
  "mergePath U sep fragments =
     Join1 (dedupBy (ToLower U) (concat (map (pathEntries sep) fragments))) sep"
  unfolding mergePath_def fold_mergePath_fragments fold_mergePart
  by (simp add: pathEntries_def [abs_def] map_concat filter_concat comp_def)

lemma pathEntries_clean:
  "p \<in> set (pathEntries sep f) \<Longrightarrow> p \<noteq> [] \<and> sep \<notin> set p \<and> TrimSpace p = p"
  using set_TrimSpace Split1_no_sep by (fastforce simp: pathEntries_def)

lemma pathEntries_Join1:
  assumes "\<And>p. p \<in> set ps \<Longrightarrow> p \<noteq> [] \<and> sep \<notin> set p \<and> TrimSpace p = p"
  shows "pathEntries sep (Join1 ps sep) = ps"
proof (cases "ps = []")
  case True
  then show ?thesis by (simp add: pathEntries_def)
next
  case False
  then have "Split1 (Join1 ps sep) sep = ps" using assms by (intro Split1_Join1) auto
  moreover have "map TrimSpace ps = ps" using assms by (simp add: map_idI)
  ultimately show ?thesis using assms by (auto simp: pathEntries_def filter_id_conv)
qed

lemma pathEntries_mergePath:
  "pathEntries sep (mergePath U sep fragments) =
     dedupBy (ToLower U) (concat (map (pathEntries sep) fragments))"
  unfolding mergePath_dedup
  by (rule pathEntries_Join1) (use dedupBy_subset pathEntries_clean in \<open>fastforce\<close>)

section \<open>replaceEnv\<close>

definition namesKey :: "caseTable \<Rightarrow> string \<Rightarrow> string \<Rightarrow> bool" where
  "namesKey U key kv \<longleftrightarrow> HasPrefix (ToUpper U kv) (ToUpper U key @ ''='')"

lemma namesKey_own [simp]: "namesKey U key (key @ CHR ''='' # val)"
  using upper.entry_prefix[of U key val] by (simp add: namesKey_def HasPrefix_def)

lemma fold_replaceEnvStep_done:
  "fold (replaceEnvStep U key val) env (out, True) =
     (out @ filter (\<lambda>kv. \<not> namesKey U key kv) env, True)"
  by (induction env arbitrary: out) (auto simp: replaceEnvStep_def namesKey_def)

lemma fold_replaceEnvStep:
  "fold (replaceEnvStep U key val) env (out, False) =
     (if list_all (\<lambda>kv. \<not> namesKey U key kv) env then (out @ env, False)
      else (out @ takeWhile (\<lambda>kv. \<not> namesKey U key kv) env @ [key @ ''='' @ val]
              @ filter (\<lambda>kv. \<not> namesKey U key kv) (dropWhile (\<lambda>kv. \<not> namesKey U key kv) env), True))"
proof (induction env arbitrary: out)
  case (Cons kv env)
  show ?case
  proof (cases "namesKey U key kv")
    case True
    then have "replaceEnvStep U key val kv (out, False) = (out @ [key @ ''='' @ val], True)"
      by (simp add: replaceEnvStep_def namesKey_def)
    with True show ?thesis by (simp add: fold_replaceEnvStep_done)
  next
    case False
    then have "replaceEnvStep U key val kv (out, False) = (out @ [kv], False)"
      by (simp add: replaceEnvStep_def namesKey_def)
    with False Cons show ?thesis by simp
  qed
qed simp

lemma replaceEnv_spec:
  "replaceEnv U env key val =
     takeWhile (\<lambda>kv. \<not> namesKey U key kv) env @ [key @ ''='' @ val]
     @ filter (\<lambda>kv. \<not> namesKey U key kv) (dropWhile (\<lambda>kv. \<not> namesKey U key kv) env)"
proof (cases "list_all (\<lambda>kv. \<not> namesKey U key kv) env")
  case True
  then have "takeWhile (\<lambda>kv. \<not> namesKey U key kv) env = env"
    and "dropWhile (\<lambda>kv. \<not> namesKey U key kv) env = []"
    by (auto simp: list_all_iff)
  with True show ?thesis
    by (simp only: replaceEnv_def fold_replaceEnvStep if_True) simp
qed (simp add: replaceEnv_def fold_replaceEnvStep)

lemma filter_takeWhile_all: "filter P (takeWhile P xs) = takeWhile P xs"
  by (induction xs) auto

lemma filter_not_takeWhile: "filter (\<lambda>x. \<not> P x) (takeWhile P xs) = []"
  by (induction xs) auto

lemma replaceEnv_named:
  "filter (namesKey U key) (replaceEnv U env key val) = [key @ ''='' @ val]"
  unfolding replaceEnv_spec using filter_not_takeWhile[of "\<lambda>kv. \<not> namesKey U key kv" env]
  by (simp add: filter_empty_conv)

lemma replaceEnv_others:
  "filter (\<lambda>kv. \<not> namesKey U key kv) (replaceEnv U env key val) =
     filter (\<lambda>kv. \<not> namesKey U key kv) env"
proof -
  let ?m = "\<lambda>kv. \<not> namesKey U key kv"
  have "filter ?m env = filter ?m (takeWhile ?m env @ dropWhile ?m env)" by simp
  also have "\<dots> = takeWhile ?m env @ filter ?m (dropWhile ?m env)"
    by (simp only: filter_append filter_takeWhile_all)
  finally show ?thesis by (simp add: replaceEnv_spec filter_takeWhile_all)
qed

lemma replaceEnv_overwrite:
  "replaceEnv U (replaceEnv U env key v) key w = replaceEnv U env key w"
proof -
  let ?m = "\<lambda>kv. \<not> namesKey U key kv" and ?new = "key @ ''='' @ v"
  let ?t = "takeWhile ?m env" and ?d = "filter ?m (dropWhile ?m env)"
  have t: "takeWhile ?m (?t @ ?new # ?d) = ?t"
    by (rule takeWhile_append_stop) (auto dest: set_takeWhileD)
  have d: "dropWhile ?m (?t @ ?new # ?d) = ?new # ?d"
    by (rule dropWhile_append_stop) (auto dest: set_takeWhileD)
  have "replaceEnv U env key v = ?t @ ?new # ?d" by (simp add: replaceEnv_spec)
  then show ?thesis
    unfolding replaceEnv_spec[of U "replaceEnv U env key v"]
    by (simp only: t d) (simp add: replaceEnv_spec)
qed

section \<open>expandPercent\<close>

text \<open>
  The references of a string, read once from left to right: the specification of a single
  pass. \<open>sourceSeg\<close> gives a segment back as it was written.
\<close>

datatype seg = Lit string | Ref string

function segments :: "string \<Rightarrow> seg list" where
  "segments [] = []"
| "segments (c # rest) =
     (if c \<noteq> CHR ''%'' then Lit [c] # segments rest
      else if CHR ''%'' \<notin> set rest then [Lit (c # rest)]
      else let name = takeWhile (\<lambda>x. x \<noteq> CHR ''%'') rest;
               after = drop (Suc (length name)) rest
           in (if name = [] then Lit ''%%'' else Ref name) # segments after)"
  by pat_completeness auto
termination
  by (relation "measure length") auto

fun sourceSeg :: "seg \<Rightarrow> string" where
  "sourceSeg (Lit x) = x"
| "sourceSeg (Ref n) = CHR ''%'' # n @ ''%''"

fun renderSeg :: "caseTable \<Rightarrow> envLookup \<Rightarrow> seg \<Rightarrow> string" where
  "renderSeg U l (Lit x) = x"
| "renderSeg U l (Ref n) = (case envGet U l n of Some v \<Rightarrow> v | None \<Rightarrow> sourceSeg (Ref n))"

lemma percent_split:
  assumes "CHR ''%'' \<in> set rest"
  defines "name \<equiv> takeWhile (\<lambda>x. x \<noteq> CHR ''%'') rest"
  shows "rest = name @ CHR ''%'' # drop (Suc (length name)) rest"
  using takeWhile_neq_split[OF assms(1)] by (simp add: name_def)

lemma segments_source: "concat (map sourceSeg (segments s)) = s"
proof (induction s rule: segments.induct)
  case (2 c rest)
  let ?name = "takeWhile (\<lambda>x. x \<noteq> CHR ''%'') rest"
  let ?after = "drop (Suc (length ?name)) rest"
  show ?case
  proof (cases "c = CHR ''%'' \<and> CHR ''%'' \<in> set rest")
    case True
    with 2(2) have "concat (map sourceSeg (segments ?after)) = ?after" by simp
    moreover have "rest = ?name @ CHR ''%'' # ?after" using True percent_split by blast
    moreover have "concat (map sourceSeg (segments (c # rest))) =
        CHR ''%'' # ?name @ CHR ''%'' # concat (map sourceSeg (segments ?after))"
      using True by (simp add: Let_def)
    ultimately show ?thesis using True by metis
  next
    case False
    with 2(1) show ?thesis by auto
  qed
qed simp

lemma expandLoop_segments: "expandLoop U l s = concat (map (renderSeg U l) (segments s))"
proof (induction U l s rule: expandLoop.induct)
  case (2 U l c rest)
  let ?name = "takeWhile (\<lambda>x. x \<noteq> CHR ''%'') rest"
  let ?after = "drop (Suc (length ?name)) rest"
  show ?case
  proof (cases "c = CHR ''%'' \<and> CHR ''%'' \<in> set rest")
    case True
    then have e: "Index1 rest CHR ''%'' = int (length ?name)" by (simp add: Index1_def)
    have sp: "rest = ?name @ CHR ''%'' # ?after" using True percent_split by blast
    from True have tk: "take (length ?name) rest = ?name"
      and tk2: "take (Suc (length ?name)) rest = ?name @ ''%''"
      by (simp_all add: take_Suc_length_takeWhile_neq)
    show ?thesis
    proof (cases "?name = []")
      case nil: True
      from nil True e 2(2)
      have "expandLoop U l (drop 1 rest) = concat (map (renderSeg U l) (segments (drop 1 rest)))"
        by simp
      with nil True e tk2 show ?thesis by (simp add: Let_def)
    next
      case False
      with True e tk 2(3) have "expandLoop U l ?after = concat (map (renderSeg U l) (segments ?after))"
        by simp
      with False True e tk tk2 show ?thesis by (simp add: Let_def split: option.splits)
    qed
  next
    case False
    with 2(1) show ?thesis by (auto simp: Index1_def)
  qed
qed simp

lemma segments_no_percent: "CHR ''%'' \<notin> set s \<Longrightarrow> concat (map (renderSeg U l) (segments s)) = s"
  by (induction s) auto

lemma Contains_single: "Contains s [c] \<longleftrightarrow> c \<in> set s"
  by (induction s) auto

lemma expandPercent_segments:
  "expandPercent U s l = concat (map (renderSeg U l) (segments s))"
  by (simp add: expandPercent_def expandLoop_segments segments_no_percent Contains_single)

lemma expandPercent_unknown:
  assumes "\<And>n. Ref n \<in> set (segments s) \<Longrightarrow> envGet U l n = None"
  shows "expandPercent U s l = s"
proof -
  have "map (renderSeg U l) (segments s) = map sourceSeg (segments s)"
  proof (rule map_cong[OF refl])
    fix g assume g: "g \<in> set (segments s)"
    show "renderSeg U l g = sourceSeg g"
    proof (cases g)
      case (Ref n)
      with g have "envGet U l n = None" by (intro assms) simp
      with Ref show ?thesis by simp
    qed simp
  qed
  then show ?thesis by (metis expandPercent_segments segments_source)
qed

lemma expandPercent_no_refs: "CHR ''%'' \<notin> set s \<Longrightarrow> expandPercent U s l = s"
  by (simp add: expandPercent_def Contains_single)

section \<open>Tables keyed by folded names\<close>

text \<open>A store of values under folded names: what a lookup finds after a put.\<close>

locale name_store =
  fixes nkey :: "string \<Rightarrow> string"
    and put :: "string \<Rightarrow> string \<Rightarrow> 't \<Rightarrow> 't"
    and look :: "'t \<Rightarrow> string \<Rightarrow> string option"
  assumes look_put: "look (put n v t) = (look t)(nkey n \<mapsto> v)"
begin

lemma look_fold:
  "look (fold (\<lambda>(n, v). put n v) nvs t) =
     look t ++ map_of (rev (map (\<lambda>(n, v). (nkey n, v)) nvs))"
  by (induction nvs arbitrary: t) (auto simp: look_put map_add_def split: option.splits)

lemma look_fold_notin:
  "k \<notin> nkey ` fst ` set nvs \<Longrightarrow> look (fold (\<lambda>(n, v). put n v) nvs t) k = look t k"
  by (induction nvs arbitrary: t) (auto simp: look_put)

lemma look_fold_keeps:
  "look t k \<noteq> None \<Longrightarrow> look (fold (\<lambda>(n, v). put n v) nvs t) k \<noteq> None"
  by (induction nvs arbitrary: t) (auto simp: look_put)

end

text \<open>A store that also remembers the order in which its names first came.\<close>

locale name_table = name_store +
  fixes order :: "'a \<Rightarrow> string list" and tabOK :: "'a \<Rightarrow> bool"
  assumes order_put:
      "tabOK t \<Longrightarrow> order (put n v t) = (if look t (nkey n) = None then order t @ [nkey n] else order t)"
    and ok_put: "tabOK t \<Longrightarrow> tabOK (put n v t)"
    and ok_distinct: "tabOK t \<Longrightarrow> distinct (order t)"
    and ok_dom: "tabOK t \<Longrightarrow> set (order t) = dom (look t)"
begin

lemma ok_fold: "tabOK t \<Longrightarrow> tabOK (fold (\<lambda>(n, v). put n v) nvs t)"
  by (induction nvs arbitrary: t) (auto intro: ok_put)

lemma order_fold_prefix:
  "tabOK t \<Longrightarrow> prefix (order t) (order (fold (\<lambda>(n, v). put n v) nvs t))"
proof (induction nvs arbitrary: t)
  case (Cons nv nvs)
  obtain n v where nv: "nv = (n, v)" by (cases nv)
  have "prefix (order t) (order (put n v t))" using Cons.prems by (simp add: order_put)
  also have "prefix \<dots> (order (fold (\<lambda>(n, v). put n v) nvs (put n v t)))"
    using Cons by (simp add: ok_put)
  finally show ?case by (simp add: nv)
qed simp

end

interpretation elookup: name_store "ToUpper U" "envSet U" "\<lambda>l. l"
  by unfold_locales (simp add: envSet_def)

definition envTabOK :: "caseTable \<Rightarrow> envTab \<Rightarrow> bool" where
  "envTabOK U t \<longleftrightarrow>
     distinct (tOrder t) \<and> set (tOrder t) = dom (tValues t) \<and> dom (tSpelling t) = dom (tValues t)
     \<and> (\<forall>k n. tSpelling t k = Some n \<longrightarrow> ToUpper U n = k)"

interpretation etab: name_table "ToUpper U" "addEnv U" tValues tOrder "envTabOK U"
  by unfold_locales (auto simp: addEnv_def envTabOK_def Let_def domIff split: if_splits)

section \<open>Splitting and joining an entry\<close>

text \<open>
  An entry of a block: the name before the first equals sign, if it has one, and the value
  after it. Entries without a name are those with no equals sign or with one in front, such
  as \<open>=C:=C:\<close>.
\<close>

definition entryOf :: "string \<Rightarrow> (string \<times> string) option" where
  "entryOf kv =
     (if CHR ''='' \<in> set kv \<and> hd kv \<noteq> CHR ''=''
      then Some (takeWhile (\<lambda>c. c \<noteq> CHR ''='') kv, tl (dropWhile (\<lambda>c. c \<noteq> CHR ''='') kv)) else None)"

lemma entryOf_Some:
  assumes "entryOf kv = Some (n, v)"
  shows "kv = n @ CHR ''='' # v \<and> n \<noteq> [] \<and> CHR ''='' \<notin> set n"
proof -
  from assms have kv: "CHR ''='' \<in> set kv" "hd kv \<noteq> CHR ''=''" and n: "n = takeWhile (\<lambda>c. c \<noteq> CHR ''='') kv"
    and v: "v = tl (dropWhile (\<lambda>c. c \<noteq> CHR ''='') kv)" by (auto simp: entryOf_def split: if_splits)
  from kv(1) have "dropWhile (\<lambda>c. c \<noteq> CHR ''='') kv = CHR ''='' # v"
    unfolding v by (induction kv) auto
  with n have "kv = n @ CHR ''='' # v" by (metis takeWhile_dropWhile_id)
  moreover have "n \<noteq> []" unfolding n using kv by (cases kv) auto
  moreover have "CHR ''='' \<notin> set n" unfolding n by (auto dest: set_takeWhileD)
  ultimately show ?thesis by blast
qed

lemma entryOf_entry [simp]:
  "n \<noteq> [] \<Longrightarrow> CHR ''='' \<notin> set n \<Longrightarrow> entryOf (n @ CHR ''='' # v) = Some (n, v)"
  by (cases n) (auto simp: entryOf_def takeWhile_append dropWhile_append)

text \<open>The test and the slices of the code give just that.\<close>

lemma entryOf_index:
  "entryOf kv = (let i = Index1 kv CHR ''='' in
     if 0 < i then Some (take (nat i) kv, drop (nat i + 1) kv) else None)"
proof -
  let ?n = "takeWhile (\<lambda>c. c \<noteq> CHR ''='') kv"
  have pos: "0 < Index1 kv CHR ''='' \<longleftrightarrow> CHR ''='' \<in> set kv \<and> hd kv \<noteq> CHR ''=''"
    by (cases kv) (auto simp: Index1_def)
  have t: "take (length ?n) kv = ?n" by (rule takeWhile_eq_take[symmetric])
  have d: "tl (dropWhile (\<lambda>c. c \<noteq> CHR ''='') kv) = drop (length ?n + 1) kv"
    by (simp only: dropWhile_eq_drop Suc_eq_plus1[symmetric] drop_Suc tl_drop)
  show ?thesis unfolding Let_def entryOf_def pos d by (simp add: Index1_def t)
qed

lemma newEnvLookup_entries:
  "newEnvLookup U base = fold (\<lambda>kv l. case entryOf kv of None \<Rightarrow> l | Some (n, v) \<Rightarrow> envSet U n v l) base Map.empty"
  unfolding newEnvLookup_def
  by (rule fold_cong) (auto simp: entryOf_index Let_def envSet_def)

lemma addBase_entry: "addBase U kv t = (case entryOf kv of None \<Rightarrow> t | Some (n, v) \<Rightarrow> addEnv U n v t)"
  by (simp add: addBase_def entryOf_index Let_def)

definition goodName :: "string \<Rightarrow> bool" where
  "goodName n \<longleftrightarrow> n \<noteq> [] \<and> CHR ''='' \<notin> set n"

definition entryKey :: "caseTable \<Rightarrow> string \<Rightarrow> string option" where
  "entryKey U kv = map_option (\<lambda>(n, v). ToUpper U n) (entryOf kv)"

abbreviation basePairs :: "string list \<Rightarrow> (string \<times> string) list" where
  "basePairs base \<equiv> List.map_filter entryOf base"

abbreviation entryPairs :: "envEntry list \<Rightarrow> (string \<times> string) list" where
  "entryPairs es \<equiv> map (\<lambda>e. (eeName e, eeValue e)) es"

lemma newEnvLookup_fold:
  "newEnvLookup U base = fold (\<lambda>(n, v). envSet U n v) (basePairs base) Map.empty"
proof -
  have "fold (\<lambda>kv l. case entryOf kv of None \<Rightarrow> l | Some (n, v) \<Rightarrow> envSet U n v l) base l
      = fold (\<lambda>(n, v). envSet U n v) (basePairs base) l" for l
    by (induction base arbitrary: l) (auto simp: map_filter_simps split: option.splits)
  then show ?thesis by (simp add: newEnvLookup_entries)
qed

lemma newEnvLookup_map:
  "newEnvLookup U base = map_of (rev (map (\<lambda>(n, v). (ToUpper U n, v)) (basePairs base)))"
  by (simp add: newEnvLookup_fold elookup.look_fold)

lemma fold_addBase: "fold (addBase U) base t = fold (\<lambda>(n, v). addEnv U n v) (basePairs base) t"
  by (induction base arbitrary: t) (auto simp: map_filter_simps addBase_entry split: option.splits)

lemma fold_addMachine:
  "fold (addMachine U) es t = fold (\<lambda>(n, v). addEnv U n v) (entryPairs es) t"
  by (induction es arbitrary: t) (auto simp: addMachine_def)

lemma addUser_put: "\<exists>v. addUser U sep e t = addEnv U (eeName e) v t"
  by (auto simp: addUser_def Let_def)

section \<open>The table composeEnv builds\<close>

lemma envTabOK_empty [simp]: "envTabOK U emptyTab"
  by (simp add: envTabOK_def emptyTab_def)

lemma fold_addUser_ok: "envTabOK U t \<Longrightarrow> envTabOK U (fold (addUser U sep) es t)"
proof (induction es arbitrary: t)
  case (Cons e es)
  then show ?case using addUser_put[of U sep e t] etab.ok_put by fastforce
qed simp

lemma fold_addUser_prefix:
  "envTabOK U t \<Longrightarrow> prefix (tOrder t) (tOrder (fold (addUser U sep) es t))"
proof (induction es arbitrary: t)
  case (Cons e es)
  obtain v where v: "addUser U sep e t = addEnv U (eeName e) v t" using addUser_put by blast
  have "prefix (tOrder t) (tOrder (addEnv U (eeName e) v t))"
    using Cons.prems by (simp add: etab.order_put)
  also have "prefix \<dots> (tOrder (fold (addUser U sep) es (addEnv U (eeName e) v t)))"
    using Cons by (simp add: etab.ok_put)
  finally show ?case by (simp add: v)
qed simp

lemma composeTab_ok: "envTabOK U (composeTab U sep base machine user)"
  unfolding composeTab_def fold_addBase fold_addMachine
  by (intro fold_addUser_ok etab.ok_fold envTabOK_empty)

lemma composeTab_order_prefix:
  "prefix (tOrder (composeTab U sep base [] [])) (tOrder (composeTab U sep base machine user))"
proof -
  let ?b = "fold (addBase U) base emptyTab" and ?m = "fold (addMachine U) machine (fold (addBase U) base emptyTab)"
  have okb: "envTabOK U ?b" unfolding fold_addBase by (intro etab.ok_fold envTabOK_empty)
  then have okm: "envTabOK U ?m" unfolding fold_addMachine by (intro etab.ok_fold)
  have "prefix (tOrder ?b) (tOrder ?m)"
    unfolding fold_addMachine using okb by (rule etab.order_fold_prefix)
  also have "prefix \<dots> (tOrder (fold (addUser U sep) user ?m))"
    using okm by (rule fold_addUser_prefix)
  finally show ?thesis by (simp add: composeTab_def)
qed

text \<open>
  What the composed table holds: the last write wins, except that a user PATH is merged
  behind what is there.
\<close>

definition pathStep :: "caseTable \<Rightarrow> char \<Rightarrow> envEntry \<Rightarrow> string option \<Rightarrow> string option" where
  "pathStep U sep e cur =
     (if ToUpper U (eeName e) = ''PATH''
      then Some (mergePath U sep [case cur of None \<Rightarrow> [] | Some v \<Rightarrow> v, eeValue e]) else cur)"

definition lastValue :: "caseTable \<Rightarrow> (string \<times> string) list \<Rightarrow> string \<Rightarrow> string option" where
  "lastValue U nvs = map_of (rev (map (\<lambda>(n, v). (ToUpper U n, v)) nvs))"

definition composeSpec :: "caseTable \<Rightarrow> char \<Rightarrow> string list \<Rightarrow> envEntry list \<Rightarrow> envEntry list \<Rightarrow> string \<Rightarrow> string option" where
  "composeSpec U sep base machine user k =
     (let below = lastValue U (basePairs base) ++ lastValue U (entryPairs machine) in
      if k = ''PATH'' then fold (pathStep U sep) user (below k)
      else (below ++ lastValue U (entryPairs user)) k)"

lemma fold_addUser_values:
  "tValues (fold (addUser U sep) es t) k =
     (if k = ''PATH'' then fold (pathStep U sep) es (tValues t k)
      else (tValues t ++ lastValue U (entryPairs es)) k)"
proof (induction es arbitrary: t)
  case (Cons e es)
  have "tValues (addUser U sep e t) ''PATH'' = pathStep U sep e (tValues t ''PATH'')"
    by (auto simp: addUser_def pathStep_def etab.look_put mapGet_def)
  moreover have "(tValues (addUser U sep e t) ++ lastValue U (entryPairs es)) k
      = (tValues t ++ lastValue U (entryPairs (e # es))) k" if "k \<noteq> ''PATH''"
    using that
    by (auto simp: addUser_def Let_def etab.look_put lastValue_def map_add_def split: option.splits)
  ultimately show ?case using Cons by simp
qed (simp add: lastValue_def)

lemma composeTab_values: "tValues (composeTab U sep base machine user) = composeSpec U sep base machine user"
  unfolding composeTab_def fold_addBase fold_addMachine
  by (rule ext) (simp only: fold_addUser_values etab.look_fold, simp add: composeSpec_def lastValue_def emptyTab_def)

definition spellingsGood :: "envTab \<Rightarrow> bool" where
  "spellingsGood t \<longleftrightarrow> (\<forall>k n. tSpelling t k = Some n \<longrightarrow> goodName n)"

lemma addEnv_good: "goodName n \<Longrightarrow> spellingsGood t \<Longrightarrow> spellingsGood (addEnv U n v t)"
  by (auto simp: spellingsGood_def addEnv_def Let_def)

lemma addBase_good: "spellingsGood t \<Longrightarrow> spellingsGood (addBase U kv t)"
  by (auto simp: addBase_entry goodName_def dest: entryOf_Some intro!: addEnv_good split: option.splits)

lemma fold_addBase_good: "spellingsGood t \<Longrightarrow> spellingsGood (fold (addBase U) base t)"
  by (induction base arbitrary: t) (auto simp: addBase_good)

lemma fold_addMachine_good:
  "spellingsGood t \<Longrightarrow> list_all (goodName \<circ> eeName) es \<Longrightarrow> spellingsGood (fold (addMachine U) es t)"
  by (induction es arbitrary: t) (auto simp: addMachine_def addEnv_good)

lemma fold_addUser_good:
  "spellingsGood t \<Longrightarrow> list_all (goodName \<circ> eeName) es \<Longrightarrow> spellingsGood (fold (addUser U sep) es t)"
  by (induction es arbitrary: t) (auto simp: addUser_def Let_def addEnv_good)

lemma composeTab_good:
  assumes "list_all (goodName \<circ> eeName) machine" and "list_all (goodName \<circ> eeName) user"
  shows "spellingsGood (composeTab U sep base machine user)"
proof -
  have "spellingsGood emptyTab" by (simp add: spellingsGood_def emptyTab_def)
  then show ?thesis using assms unfolding composeTab_def
    by (intro fold_addUser_good fold_addMachine_good fold_addBase_good)
qed

section \<open>The block read back\<close>

lemma render_split:
  assumes "envTabOK U t" and "spellingsGood t" and "k \<in> set (tOrder t)"
  shows "entryOf (mapGet (tSpelling t) k @ CHR ''='' # mapGet (tValues t) k)
           = Some (mapGet (tSpelling t) k, mapGet (tValues t) k)"
    and "ToUpper U (mapGet (tSpelling t) k) = k" and "tValues t k = Some (mapGet (tValues t) k)"
proof -
  from assms obtain n v where "tSpelling t k = Some n" "tValues t k = Some v" "ToUpper U n = k"
    unfolding envTabOK_def by (metis domD domI)
  with assms(2) show "entryOf (mapGet (tSpelling t) k @ CHR ''='' # mapGet (tValues t) k)
           = Some (mapGet (tSpelling t) k, mapGet (tValues t) k)"
    and "ToUpper U (mapGet (tSpelling t) k) = k" and "tValues t k = Some (mapGet (tValues t) k)"
    by (auto simp: mapGet_def spellingsGood_def goodName_def)
qed

lemma map_filter_map_Some:
  "(\<And>k. k \<in> set ks \<Longrightarrow> f (g k) = Some (h k)) \<Longrightarrow> List.map_filter f (map g ks) = map h ks"
  by (induction ks) (auto simp: map_filter_simps)

lemma map_of_keys: "distinct ks \<Longrightarrow> set ks = dom m \<Longrightarrow> map_of (rev (map (\<lambda>k. (k, mapGet m k)) ks)) = m"
proof -
  assume d: "distinct ks" "set ks = dom m"
  have "map_of (map (\<lambda>k. (k, mapGet m k)) ks) k = m k" for k
    using d(2) by (auto simp: map_of_map_restrict restrict_map_def mapGet_def domIff split: option.splits)
  moreover have "map_of (rev (map (\<lambda>k. (k, mapGet m k)) ks)) = map_of (map (\<lambda>k. (k, mapGet m k)) ks)"
    using d(1) by (subst map_of_inject_set) (auto simp: comp_def rev_map[symmetric])
  ultimately show ?thesis by (auto simp: fun_eq_iff)
qed

lemma newEnvLookup_render:
  assumes ok: "envTabOK U t" and good: "spellingsGood t"
  shows "newEnvLookup U (map (\<lambda>k. mapGet (tSpelling t) k @ ''='' @ mapGet (tValues t) k) (tOrder t))
           = tValues t"
proof -
  have "basePairs (map (\<lambda>k. mapGet (tSpelling t) k @ ''='' @ mapGet (tValues t) k) (tOrder t))
      = map (\<lambda>k. (mapGet (tSpelling t) k, mapGet (tValues t) k)) (tOrder t)"
    using render_split(1)[OF ok good] by (intro map_filter_map_Some) simp
  moreover have "map (\<lambda>(n, v). (ToUpper U n, v)) (map (\<lambda>k. (mapGet (tSpelling t) k, mapGet (tValues t) k)) (tOrder t))
      = map (\<lambda>k. (k, mapGet (tValues t) k)) (tOrder t)"
    using render_split(2)[OF ok good] by simp
  moreover have "map_of (rev (map (\<lambda>k. (k, mapGet (tValues t) k)) (tOrder t))) = tValues t"
    using ok by (intro map_of_keys) (auto simp: envTabOK_def)
  ultimately show ?thesis by (simp only: newEnvLookup_map)
qed

lemma composeEnv_lookup:
  assumes "list_all (goodName \<circ> eeName) machine" and "list_all (goodName \<circ> eeName) user"
  shows "newEnvLookup U (composeEnv U sep base machine user) = composeSpec U sep base machine user"
  using newEnvLookup_render[OF composeTab_ok composeTab_good[OF assms]]
  by (simp add: composeEnv_def Let_def composeTab_values)

lemma composeEnv_keys:
  assumes "list_all (goodName \<circ> eeName) machine" and "list_all (goodName \<circ> eeName) user"
  shows "map (entryKey U) (composeEnv U sep base machine user)
           = map Some (tOrder (composeTab U sep base machine user))"
  using render_split[OF composeTab_ok composeTab_good[OF assms]]
  by (simp add: composeEnv_def Let_def entryKey_def)

section \<open>expandLayer\<close>

definition layerSeed :: "caseTable \<Rightarrow> envValue list \<Rightarrow> envLookup \<Rightarrow> envLookup" where
  "layerSeed U vs l = fold (\<lambda>v l. if \<not> evExpandable v then envSet U (evName v) (evValue v) l else l) vs l"

definition layerStep :: "caseTable \<Rightarrow> envValue \<Rightarrow> envEntry list \<times> envLookup \<Rightarrow> envEntry list \<times> envLookup" where
  "layerStep U v st =
     (let val = (if evExpandable v then expandPercent U (evValue v) (snd st) else evValue v)
      in (fst st @ [\<lparr>eeName = evName v, eeValue = val\<rparr>], envSet U (evName v) val (snd st)))"

lemma expandLayer_steps: "expandLayer U vs l = fold (layerStep U) vs ([], layerSeed U vs l)"
  by (simp add: expandLayer_def layerSeed_def layerStep_def [abs_def] case_prod_unfold)

lemma fold_layerStep_names: "map eeName (fst (fold (layerStep U) vs st)) = map eeName (fst st) @ map evName vs"
  by (induction vs arbitrary: st) (auto simp: layerStep_def Let_def)

lemma expandLayer_names: "map eeName (fst (expandLayer U vs l)) = map evName vs"
  by (simp add: expandLayer_steps fold_layerStep_names)

lemma fold_layerStep_prefix: "prefix (fst st) (fst (fold (layerStep U) vs st))"
proof (induction vs arbitrary: st)
  case (Cons v vs)
  have "prefix (fst st) (fst (layerStep U v st))" by (simp add: layerStep_def Let_def)
  also have "prefix \<dots> (fst (fold (layerStep U) vs (layerStep U v st)))" by (rule Cons.IH)
  finally show ?case by simp
qed simp

text \<open>The lookup holds every plain value of the key, before the expansion and during it.\<close>

definition plainSeen :: "caseTable \<Rightarrow> envValue list \<Rightarrow> envLookup \<Rightarrow> bool" where
  "plainSeen U vs l \<longleftrightarrow> (\<forall>w \<in> set vs. \<not> evExpandable w \<longrightarrow> envGet U l (evName w) = Some (evValue w))"

lemma distinct_names_eq:
  "distinct (map (\<lambda>v. ToUpper U (evName v)) vs) \<Longrightarrow> v \<in> set vs \<Longrightarrow> w \<in> set vs
     \<Longrightarrow> ToUpper U (evName v) = ToUpper U (evName w) \<Longrightarrow> v = w"
  by (auto simp: distinct_map inj_on_def)

lemma layerSeed_plain:
  assumes "distinct (map (\<lambda>v. ToUpper U (evName v)) vs)"
  shows "plainSeen U vs (layerSeed U vs l)"
  using assms
proof (induction vs arbitrary: l rule: rev_induct)
  case (snoc v vs)
  have "layerSeed U (vs @ [v]) l
      = (if \<not> evExpandable v then envSet U (evName v) (evValue v) (layerSeed U vs l) else layerSeed U vs l)"
    by (simp add: layerSeed_def)
  with snoc show ?case by (auto simp: plainSeen_def envGet_def envSet_def rev_image_eqI)
qed (simp add: plainSeen_def)

lemma layerStep_plain:
  assumes "distinct (map (\<lambda>v. ToUpper U (evName v)) vs)" and "v \<in> set vs" and "plainSeen U vs (snd st)"
  shows "plainSeen U vs (snd (layerStep U v st))"
  unfolding plainSeen_def
proof (intro ballI impI)
  fix w assume w: "w \<in> set vs" "\<not> evExpandable w"
  show "envGet U (snd (layerStep U v st)) (evName w) = Some (evValue w)"
  proof (cases "ToUpper U (evName v) = ToUpper U (evName w)")
    case True
    with assms w distinct_names_eq have "v = w" by blast
    with w show ?thesis by (simp add: layerStep_def Let_def envGet_def envSet_def)
  next
    case False
    with assms(3) w show ?thesis by (simp add: layerStep_def Let_def envGet_def envSet_def plainSeen_def)
  qed
qed

lemma fold_layerStep_plain:
  assumes "distinct (map (\<lambda>v. ToUpper U (evName v)) vs)" and "set us \<subseteq> set vs" and "plainSeen U vs (snd st)"
  shows "plainSeen U vs (snd (fold (layerStep U) us st))"
  using assms(2,3)
proof (induction us arbitrary: st)
  case (Cons u us)
  then have "plainSeen U vs (snd (layerStep U u st))" by (intro layerStep_plain[OF assms(1)]) auto
  with Cons show ?case by simp
qed simp

lemma expandLayer_at:
  assumes "distinct (map (\<lambda>v. ToUpper U (evName v)) (xs @ v # ys))"
  shows "\<exists>l'. plainSeen U (xs @ v # ys) l'
    \<and> fst (expandLayer U (xs @ v # ys) l) ! length xs
      = \<lparr>eeName = evName v, eeValue = (if evExpandable v then expandPercent U (evValue v) l' else evValue v)\<rparr>"
proof -
  let ?vs = "xs @ v # ys"
  let ?st = "fold (layerStep U) xs ([], layerSeed U ?vs l)"
  have "plainSeen U ?vs (snd ?st)"
    using layerSeed_plain[OF assms] by (intro fold_layerStep_plain[OF assms]) auto
  moreover have "length (fst ?st) = length xs"
    using arg_cong[OF fold_layerStep_names[of U xs "([], layerSeed U ?vs l)"], of length] by simp
  moreover obtain zs where "fst (expandLayer U ?vs l) = fst (layerStep U v ?st) @ zs"
    using fold_layerStep_prefix[of "layerStep U v ?st" U ys] by (auto simp: expandLayer_steps prefix_def)
  ultimately show ?thesis
    by (intro exI[of _ "snd ?st"]) (simp add: layerStep_def Let_def nth_append)
qed

section \<open>The session block on Windows\<close>

lemma lastValue_Some: "ToUpper U n = k \<Longrightarrow> n \<in> fst ` set nvs \<Longrightarrow> lastValue U nvs k \<noteq> None"
proof -
  assume k: "ToUpper U n = k" "n \<in> fst ` set nvs"
  then have "k \<in> fst ` set (rev (map (\<lambda>(n, v). (ToUpper U n, v)) nvs))" by force
  then show "lastValue U nvs k \<noteq> None"
    unfolding lastValue_def by (simp add: map_of_eq_None_iff)
qed

lemma lastValue_None: "lastValue U nvs k = None \<longleftrightarrow> k \<notin> ToUpper U ` fst ` set nvs"
  by (simp add: lastValue_def map_of_eq_None_iff image_image case_prod_unfold)

lemma fold_pathStep_keeps: "m \<noteq> None \<Longrightarrow> fold (pathStep U sep) es m \<noteq> None"
  by (induction es arbitrary: m) (auto simp: pathStep_def)

lemma composeSpec_keeps:
  assumes "(lastValue U (basePairs base) ++ lastValue U (entryPairs machine)) k \<noteq> None"
  shows "composeSpec U sep base machine user k \<noteq> None"
proof (cases "k = ''PATH''")
  case True
  then show ?thesis
    using fold_pathStep_keeps[OF assms, of U sep user] by (simp add: composeSpec_def)
next
  case False
  then show ?thesis using assms
    by (auto simp: composeSpec_def Let_def map_add_def split: option.splits)
qed

text \<open>What the two keys hold.\<close>

abbreviation machineValues :: "registry \<Rightarrow> envValue list" where
  "machineValues R \<equiv> readEnvKey R LocalMachine machineEnvKey"

abbreviation userValues :: "registry \<Rightarrow> envValue list" where
  "userValues R \<equiv> readEnvKey R CurrentUser userEnvKey"

lemma readEnvKey_names: "v \<in> set (readEnvKey R root subKey) \<Longrightarrow> evName v \<noteq> []"
  by (auto simp: readEnvKey_def readEnvValue_def split: sum.splits if_splits)

definition regNamesGood :: "registry \<Rightarrow> bool" where
  "regNamesGood R \<longleftrightarrow> list_all (\<lambda>v. goodName (evName v)) (machineValues R @ userValues R)"

lemma expandLayer_good:
  assumes "list_all (\<lambda>v. goodName (evName v)) vs"
  shows "list_all (goodName \<circ> eeName) (fst (expandLayer U vs l))"
proof -
  have "list_all goodName (map eeName (fst (expandLayer U vs l)))"
    using assms by (simp add: expandLayer_names list.pred_map comp_def)
  then show ?thesis by (simp add: list.pred_map comp_def)
qed

lemma sessionEnvWindows_lookup:
  assumes "regNamesGood R"
    and m: "m = expandLayer U (machineValues R) (newEnvLookup U base)"
  shows "newEnvLookup U (sessionEnvWindows U sep base R)
           = composeSpec U sep base (fst m) (fst (expandLayer U (userValues R) (snd m)))"
  using assms unfolding sessionEnvWindows_def regNamesGood_def
  by (simp add: case_prod_unfold Let_def composeEnv_lookup expandLayer_good)

text \<open>What a lookup finds is an entry of the block.\<close>

lemma newEnvLookup_named: "newEnvLookup U es (ToUpper U n) \<noteq> None \<Longrightarrow> \<exists>kv \<in> set es. namesKey U n kv"
proof -
  assume "newEnvLookup U es (ToUpper U n) \<noteq> None"
  then have "ToUpper U n \<in> fst ` set (map (\<lambda>(n, v). (ToUpper U n, v)) (basePairs es))"
    by (simp add: newEnvLookup_map map_of_eq_None_iff)
  then obtain n' v where p: "(n', v) \<in> set (basePairs es)" "ToUpper U n = ToUpper U n'" by auto
  then obtain kv where kv: "kv \<in> set es" "entryOf kv = Some (n', v)" by (auto simp: map_filter_def)
  have "namesKey U n (n' @ CHR ''='' # v)" using namesKey_own[of U n' v] p(2) by (simp add: namesKey_def)
  with kv(1) entryOf_Some[OF kv(2)] show ?thesis by auto
qed

lemma newEnvLookup_inherited:
  assumes "n @ CHR ''='' # x \<in> set base" and "n \<noteq> []" and "CHR ''='' \<notin> set n"
  shows "newEnvLookup U base (ToUpper U n) \<noteq> None"
proof -
  have "entryOf (n @ CHR ''='' # x) = Some (n, x)" using assms(2,3) by simp
  then have "(n, x) \<in> set (basePairs base)" using assms(1) by (force simp: map_filter_def)
  then have "ToUpper U n \<in> fst ` set (map (\<lambda>(n, v). (ToUpper U n, v)) (basePairs base))" by force
  then show ?thesis by (simp add: newEnvLookup_map map_of_eq_None_iff)
qed

lemma fold_pathStep_named: "''PATH'' \<in> ToUpper U ` eeName ` set es \<Longrightarrow> fold (pathStep U sep) es m \<noteq> None"
proof (induction es arbitrary: m)
  case (Cons e es)
  show ?case
  proof (cases "ToUpper U (eeName e) = ''PATH''")
    case True
    then have "pathStep U sep e m \<noteq> None" by (simp add: pathStep_def)
    from fold_pathStep_keeps[OF this] show ?thesis by simp
  next
    case False
    with Cons show ?thesis by auto
  qed
qed simp

lemma composeSpec_user: "n \<in> eeName ` set user \<Longrightarrow> composeSpec U sep base machine user (ToUpper U n) \<noteq> None"
proof -
  assume n: "n \<in> eeName ` set user"
  show ?thesis
  proof (cases "ToUpper U n = ''PATH''")
    case True
    with n have "''PATH'' \<in> ToUpper U ` eeName ` set user" by force
    from fold_pathStep_named[OF this] True show ?thesis by (simp add: composeSpec_def)
  next
    case False
    have "lastValue U (entryPairs user) (ToUpper U n) \<noteq> None"
      unfolding lastValue_None using n by (auto simp: image_image)
    with False show ?thesis by (auto simp: composeSpec_def Let_def map_add_def split: option.splits)
  qed
qed

lemma composeEnv_entries:
  assumes "list_all (goodName \<circ> eeName) machine" and "list_all (goodName \<circ> eeName) user"
  shows "list_all (\<lambda>kv. CHR ''='' \<in> set kv \<and> hd kv \<noteq> CHR ''='') (composeEnv U sep base machine user)"
proof -
  have "entryOf kv \<noteq> None" if "kv \<in> set (composeEnv U sep base machine user)" for kv
    using that render_split(1)[OF composeTab_ok composeTab_good[OF assms]]
    by (auto simp: composeEnv_def Let_def)
  then show ?thesis by (fastforce simp: list_all_iff entryOf_def split: if_splits)
qed

lemma sessionEnvWindows_entries:
  "regNamesGood R \<Longrightarrow> list_all (\<lambda>kv. CHR ''='' \<in> set kv \<and> hd kv \<noteq> CHR ''='') (sessionEnvWindows U sep base R)"
  unfolding sessionEnvWindows_def regNamesGood_def
  by (simp add: case_prod_unfold Let_def composeEnv_entries expandLayer_good)

section \<open>Properties\<close>

text \<open>C35: \<open>mergePath(machine, user)\<close> is, entry by entry, the machine entries first and in order, then
  the user entries whose lower-cased name the machine half does not have. Every entry is
  trimmed, none is empty (an empty one would mean the current directory), and no two agree
  up to case; of those that would, the first stays.\<close>
theorem mergePath_machine_then_user:
  "let ms = dedupBy (ToLower U) (pathEntries sep m);
       us = dedupBy (ToLower U)
         (filter (\<lambda>p. ToLower U p \<notin> ToLower U ` set (pathEntries sep m)) (pathEntries sep u))
   in mergePath U sep [m, u] = Join1 (ms @ us) sep
      \<and> Split1 (mergePath U sep [m, u]) sep = (if ms @ us = [] then [[]] else ms @ us)
      \<and> list_all (\<lambda>p. p \<noteq> [] \<and> sep \<notin> set p \<and> TrimSpace p = p) (ms @ us)
      \<and> distinct (map (ToLower U) (ms @ us))"
proof -
  let ?es = "dedupBy (ToLower U) (concat (map (pathEntries sep) [m, u]))"
  have e: "dedupBy (ToLower U) (pathEntries sep m) @ dedupBy (ToLower U)
      (filter (\<lambda>p. ToLower U p \<notin> ToLower U ` set (pathEntries sep m)) (pathEntries sep u)) = ?es"
    by (simp add: dedupBy_append)
  have clean: "p \<noteq> [] \<and> sep \<notin> set p \<and> TrimSpace p = p" if "p \<in> set ?es" for p
    using subsetD[OF dedupBy_subset that] pathEntries_clean by fastforce
  have "Split1 (Join1 ?es sep) sep = (if ?es = [] then [[]] else ?es)"
    using clean by (cases "?es = []") (auto intro: Split1_Join1)
  then show ?thesis
    unfolding Let_def e mergePath_dedup list_all_iff using clean dedupBy_distinct by blast
qed

text \<open>Merging is stable: merging a merged PATH again changes nothing, and no two entries of
  a merged PATH agree up to case.\<close>
theorem mergePath_stable:
  "mergePath U sep [mergePath U sep fs] = mergePath U sep fs
   \<and> distinct (map (ToLower U) (pathEntries sep (mergePath U sep fs)))"
proof
  let ?es = "dedupBy (ToLower U) (concat (map (pathEntries sep) fs))"
  have "dedupBy (ToLower U) ?es = ?es" by (intro dedupBy_id dedupBy_distinct)
  then show "mergePath U sep [mergePath U sep fs] = mergePath U sep fs"
    by (simp add: mergePath_dedup[of U sep "[mergePath U sep fs]"] pathEntries_mergePath)
      (simp add: mergePath_dedup)
qed (simp add: pathEntries_mergePath dedupBy_distinct)

text \<open>C36: \<open>replaceEnv\<close> leaves exactly one entry of the given name, with the new value, at the
  place of the first entry of that name (or last when there was none), and keeps every
  other entry in its order.\<close>
theorem replaceEnv_correct:
  "filter (namesKey U key) (replaceEnv U env key val) = [key @ ''='' @ val]
   \<and> filter (\<lambda>kv. \<not> namesKey U key kv) (replaceEnv U env key val)
       = filter (\<lambda>kv. \<not> namesKey U key kv) env
   \<and> takeWhile (\<lambda>kv. \<not> namesKey U key kv) (replaceEnv U env key val)
       = takeWhile (\<lambda>kv. \<not> namesKey U key kv) env"
proof (intro conjI replaceEnv_named replaceEnv_others)
  show "takeWhile (\<lambda>kv. \<not> namesKey U key kv) (replaceEnv U env key val)
      = takeWhile (\<lambda>kv. \<not> namesKey U key kv) env"
    unfolding replaceEnv_spec by (subst takeWhile_append2) (auto dest: set_takeWhileD)
qed

text \<open>C33: \<open>expandPercent\<close> is one pass over the references of the string: each resolvable
  reference is replaced by its value, which is not scanned again, and everything else,
  unknown and unterminated references included, stays as written.\<close>
theorem expandPercent_single_pass:
  "concat (map sourceSeg (segments s)) = s
   \<and> expandPercent U s l = concat (map (renderSeg U l) (segments s))"
  by (simp add: segments_source expandPercent_segments)

text \<open>A string none of whose references resolves is left alone.\<close>
lemma expandPercent_leaves_unknown:
  assumes "\<And>n. Ref n \<in> set (segments s) \<Longrightarrow> envGet U l n = None"
  shows "expandPercent U s l = s"
  using assms by (rule expandPercent_unknown)

text \<open>C34: While a registry key is expanded, every plain value of the key is already known,
  wherever it is stored: the entry for an expandable value is its expansion under a table
  that holds them all, and a plain value is taken as it is.\<close>
theorem expandLayer_plain_first:
  assumes "distinct (map (\<lambda>v. ToUpper U (evName v)) (xs @ v # ys))"
  shows "\<exists>l'. (\<forall>w \<in> set (xs @ v # ys). \<not> evExpandable w \<longrightarrow> envGet U l' (evName w) = Some (evValue w))
    \<and> fst (expandLayer U (xs @ v # ys) l) ! length xs
      = \<lparr>eeName = evName v, eeValue = (if evExpandable v then expandPercent U (evValue v) l' else evValue v)\<rparr>"
  using expandLayer_at[OF assms, of l] by (simp only: plainSeen_def)

theorem expandLayer_plain_first_witness:
  "\<exists>l'. envGet asciiTable l' ''R'' = Some ''C''
    \<and> fst (expandLayer asciiTable
        [\<lparr>evName = ''P'', evValue = ''%R%/b'', evExpandable = True\<rparr>,
         \<lparr>evName = ''R'', evValue = ''C'', evExpandable = False\<rparr>] Map.empty) ! 0
      = \<lparr>eeName = ''P'', eeValue = expandPercent asciiTable ''%R%/b'' l'\<rparr>"
proof -
  have d: "distinct (map (\<lambda>v. ToUpper asciiTable (evName v))
      ([] @ \<lparr>evName = ''P'', evValue = ''%R%/b'', evExpandable = True\<rparr>
         # [\<lparr>evName = ''R'', evValue = ''C'', evExpandable = False\<rparr>]))"
    by code_simp
  show ?thesis using expandLayer_plain_first[OF d, of Map.empty] by auto
qed

text \<open>C8: For registry names that are not empty and have no equals sign: read back as a block, the
  composed environment is the inherited one overridden by the
  machine's entries and then by the user's, the last write of a name winning, except that
  a user PATH is appended to the PATH below it.\<close>
theorem composeEnv_last_write_wins:
  assumes "list_all (goodName \<circ> eeName) machine" and "list_all (goodName \<circ> eeName) user"
  shows "newEnvLookup U (composeEnv U sep base machine user) = composeSpec U sep base machine user"
  using assms by (rule composeEnv_lookup)

theorem composeEnv_last_write_wins_witness:
  "newEnvLookup asciiTable (composeEnv asciiTable CHR '';'' [''A=1'', ''bad'']
      [\<lparr>eeName = ''a'', eeValue = ''2''\<rparr>] [\<lparr>eeName = ''B'', eeValue = ''3''\<rparr>]) ''A''
     = composeSpec asciiTable CHR '';'' [''A=1'', ''bad'']
      [\<lparr>eeName = ''a'', eeValue = ''2''\<rparr>] [\<lparr>eeName = ''B'', eeValue = ''3''\<rparr>] ''A''"
  by (subst composeEnv_last_write_wins) (simp_all add: goodName_def)

text \<open>The composed block names each variable once, whatever the casing of its sources, and
  lists the inherited names first, in their order.\<close>
lemma composeEnv_names_once_in_order:
  assumes "list_all (goodName \<circ> eeName) machine" and "list_all (goodName \<circ> eeName) user"
  shows "distinct (map (entryKey U) (composeEnv U sep base machine user))
    \<and> prefix (map (entryKey U) (composeEnv U sep base [] []))
             (map (entryKey U) (composeEnv U sep base machine user))"
proof
  have "distinct (tOrder (composeTab U sep base machine user))"
    by (rule etab.ok_distinct[OF composeTab_ok])
  then show "distinct (map (entryKey U) (composeEnv U sep base machine user))"
    by (simp add: composeEnv_keys[OF assms] distinct_map)
  show "prefix (map (entryKey U) (composeEnv U sep base [] []))
      (map (entryKey U) (composeEnv U sep base machine user))"
    using composeTab_order_prefix[of U sep base machine user]
    by (simp add: composeEnv_keys[OF assms] composeEnv_keys map_mono_prefix)
qed

text \<open>C37: A session on Windows has an entry for every variable of the two registry keys and for every
  named variable of the inherited block, and an inherited variable neither key names keeps
  its value: that much for registry names without an equals sign. Inherited entries without
  a name (\<open>=C:=C:\<close>, or no equals sign at all) are not passed on: every entry of the block has
  a name.\<close>
theorem sessionEnv_covers_machine_and_base:
  assumes "regNamesGood R" and "out = sessionEnvWindows U sep base R"
  shows "(v \<in> set (machineValues R) \<union> set (userValues R) \<longrightarrow>
            newEnvLookup U out (ToUpper U (evName v)) \<noteq> None \<and> (\<exists>kv \<in> set out. namesKey U (evName v) kv))
    \<and> (newEnvLookup U base k \<noteq> None \<longrightarrow> newEnvLookup U out k \<noteq> None)
    \<and> (n @ ''='' @ x \<in> set base \<and> n \<noteq> [] \<and> CHR ''='' \<notin> set n \<longrightarrow> (\<exists>kv \<in> set out. namesKey U n kv))
    \<and> (k \<notin> (\<lambda>v. ToUpper U (evName v)) ` (set (machineValues R) \<union> set (userValues R)) \<longrightarrow>
            newEnvLookup U out k = newEnvLookup U base k)
    \<and> list_all (\<lambda>kv. CHR ''='' \<in> set kv \<and> hd kv \<noteq> CHR ''='') out"
proof -
  define m where "m = expandLayer U (machineValues R) (newEnvLookup U base)"
  define u where "u = expandLayer U (userValues R) (snd m)"
  have env: "newEnvLookup U out = composeSpec U sep base (fst m) (fst u)"
    unfolding u_def assms(2) by (rule sessionEnvWindows_lookup[OF assms(1) m_def])
  have bl: "newEnvLookup U base = lastValue U (basePairs base)"
    by (simp add: newEnvLookup_map lastValue_def)
  have nm: "fst ` set (entryPairs (fst m)) = evName ` set (machineValues R)"
    using arg_cong[OF expandLayer_names, of set U "machineValues R" "newEnvLookup U base"]
    by (simp add: m_def image_image)
  have nu: "fst ` set (entryPairs (fst u)) = evName ` set (userValues R)"
    using arg_cong[OF expandLayer_names, of set U "userValues R" "snd m"]
    by (simp add: u_def image_image)
  have path: "fold (pathStep U sep) es c = c" if "''PATH'' \<notin> ToUpper U ` eeName ` set es" for es c
    using that by (induction es arbitrary: c) (auto simp: pathStep_def)
  have reg: "newEnvLookup U out (ToUpper U (evName v)) \<noteq> None" if "v \<in> set (machineValues R) \<union> set (userValues R)"
  proof (cases "v \<in> set (machineValues R)")
    case True
    then have "lastValue U (entryPairs (fst m)) (ToUpper U (evName v)) \<noteq> None"
      unfolding lastValue_None nm by auto
    then show ?thesis
      unfolding env by (intro composeSpec_keeps) (auto simp: map_add_def split: option.splits)
  next
    case False
    with that have "evName v \<in> eeName ` set (fst u)" using nu by (auto simp: image_image)
    then show ?thesis unfolding env by (rule composeSpec_user)
  qed
  have inh: "newEnvLookup U out k \<noteq> None" if "newEnvLookup U base k \<noteq> None" for k
    using that unfolding env bl by (intro composeSpec_keeps) (auto simp: map_add_def split: option.splits)
  have same: "newEnvLookup U out k = newEnvLookup U base k"
    if k: "k \<notin> (\<lambda>v. ToUpper U (evName v)) ` (set (machineValues R) \<union> set (userValues R))"
  proof -
    have "lastValue U (entryPairs (fst m)) k = None" "lastValue U (entryPairs (fst u)) k = None"
      using k unfolding lastValue_None nm nu by auto
    moreover have "k \<notin> ToUpper U ` eeName ` set (fst u)"
      using k nu by (auto simp: image_image)
    ultimately show ?thesis
      unfolding env bl using path by (auto simp: composeSpec_def Let_def map_add_def)
  qed
  have named: "\<exists>kv \<in> set out. namesKey U n kv" if "n @ ''='' @ x \<in> set base \<and> n \<noteq> [] \<and> CHR ''='' \<notin> set n"
    using that inh[OF newEnvLookup_inherited[of n x base U]] newEnvLookup_named by auto
  have "list_all (\<lambda>kv. CHR ''='' \<in> set kv \<and> hd kv \<noteq> CHR ''='') out"
    unfolding assms(2) by (rule sessionEnvWindows_entries[OF assms(1)])
  with reg inh same named newEnvLookup_named[of U out] show ?thesis by blast
qed

definition demoRegistry :: registry where
  "demoRegistry root subKey =
     (if root = LocalMachine \<and> subKey = machineEnvKey
      then Inr \<lparr>rkNames = Inr [''X''], rkValue = (\<lambda>n. Inr (''1'', False))\<rparr> else Inl ErrNotExist)"

theorem sessionEnv_covers_machine_and_base_witness:
  "newEnvLookup asciiTable (sessionEnvWindows asciiTable CHR '';'' [''USERPROFILE=u'', ''=C:=x''] demoRegistry) ''USERPROFILE''
    = newEnvLookup asciiTable [''USERPROFILE=u'', ''=C:=x''] ''USERPROFILE''
   \<and> ''=C:=x'' \<notin> set (sessionEnvWindows asciiTable CHR '';'' [''USERPROFILE=u'', ''=C:=x''] demoRegistry)"
proof -
  have k: "machineValues demoRegistry = [\<lparr>evName = ''X'', evValue = ''1'', evExpandable = False\<rparr>]"
    and n: "userValues demoRegistry = []"
    by (simp_all add: readEnvKey_def readEnvValue_def demoRegistry_def)
  then have g: "regNamesGood demoRegistry"
    by (simp add: regNamesGood_def goodName_def)
  have x: "ToUpper asciiTable ''X'' = ''X''" by code_simp
  note c = sessionEnv_covers_machine_and_base[OF g refl, of undefined asciiTable "CHR '';''" "[''USERPROFILE=u'', ''=C:=x'']" "''USERPROFILE''"]
  have "list_all (\<lambda>kv. CHR ''='' \<in> set kv \<and> hd kv \<noteq> CHR ''='') (sessionEnvWindows asciiTable CHR '';''
      [''USERPROFILE=u'', ''=C:=x''] demoRegistry)" using c by blast
  then have "''=C:=x'' \<notin> set (sessionEnvWindows asciiTable CHR '';'' [''USERPROFILE=u'', ''=C:=x''] demoRegistry)"
    by (auto simp: list_all_iff)
  moreover have "newEnvLookup asciiTable (sessionEnvWindows asciiTable CHR '';'' [''USERPROFILE=u'', ''=C:=x''] demoRegistry) ''USERPROFILE''
    = newEnvLookup asciiTable [''USERPROFILE=u'', ''=C:=x''] ''USERPROFILE''" using c by (simp add: k n x)
  ultimately show ?thesis by blast
qed

end
