(* ===== verification/Go_Path.thy ===== *)
theory Go_Path
  imports Go_Strings
begin

text \<open>
  The functions of \<open>path/filepath\<close> the program calls. They differ by platform, so the
  model takes them as a record \<open>pathOps\<close>; \<open>unixPaths\<close> is the Unix implementation.
  What callers rely on is the locale \<open>path_laws\<close>, interpreted on \<open>unixPaths\<close>.
\<close>

record pathOps =
  fpIsAbs :: "string \<Rightarrow> bool"
  fpAbs :: "string \<Rightarrow> string res"
  fpJoin :: "string list \<Rightarrow> string"
  fpDir :: "string \<Rightarrow> string"
  fpToSlash :: "string \<Rightarrow> string"

section \<open>What callers rely on\<close>

locale path_laws =
  fixes P :: pathOps
  assumes abs_isAbs: "fpAbs P p = Inr q \<Longrightarrow> fpIsAbs P q"
    and abs_idem: "fpAbs P p = Inr q \<Longrightarrow> fpAbs P q = Inr q"
    and join_isAbs: "fpIsAbs P d \<Longrightarrow> fpIsAbs P (fpJoin P [d, p])"
    and dir_isAbs: "fpIsAbs P p \<Longrightarrow> fpIsAbs P (fpDir P p)"
    and isAbs_nonblank: "fpIsAbs P p \<Longrightarrow> TrimSpace p \<noteq> []"
begin

lemma isAbs_nonempty: "fpIsAbs P p \<Longrightarrow> p \<noteq> []"
  using isAbs_nonblank by fastforce

lemma abs_nonblank: "fpAbs P p = Inr q \<Longrightarrow> TrimSpace q \<noteq> []"
  by (rule isAbs_nonblank, rule abs_isAbs)

end

section \<open>The Unix implementation\<close>

text \<open>
  \<open>filepath.Clean\<close>, one path element at a time: the stack holds the elements kept so
  far, innermost first.
\<close>

definition cleanStep :: "bool \<Rightarrow> string \<Rightarrow> string list \<Rightarrow> string list" where
  "cleanStep rooted e st =
     (if e = [] \<or> e = ''.'' then st
      else if e = ''..'' then
        (case st of
           [] \<Rightarrow> if rooted then [] else [''..'']
         | x # xs \<Rightarrow> if x = ''..'' then ''..'' # st else xs)
      else e # st)"

definition unixIsAbs :: "string \<Rightarrow> bool" where
  "unixIsAbs p = HasPrefix p ''/''"

definition unixClean :: "string \<Rightarrow> string" where
  "unixClean p =
     (let es = rev (fold (cleanStep (unixIsAbs p)) (Split1 p CHR ''/'') [])
      in if unixIsAbs p then CHR ''/'' # Join1 es CHR ''/''
         else if es = [] then ''.'' else Join1 es CHR ''/'')"

definition unixJoin :: "string list \<Rightarrow> string" where
  "unixJoin es =
     (case dropWhile (\<lambda>e. e = []) es of [] \<Rightarrow> [] | es' \<Rightarrow> unixClean (Join1 es' CHR ''/''))"

definition unixDir :: "string \<Rightarrow> string" where
  "unixDir p = unixClean (rev (dropWhile (\<lambda>c. c \<noteq> CHR ''/'') (rev p)))"

text \<open>The working directory is a list of path elements; \<open>None\<close> when \<open>os.Getwd\<close> fails.\<close>

definition unixAbs :: "string list option \<Rightarrow> string \<Rightarrow> string res" where
  "unixAbs cwd p =
     (if unixIsAbs p then Inr (unixClean p)
      else case cwd of
             None \<Rightarrow> Inl (LibErr ''getwd'')
           | Some es \<Rightarrow> Inr (unixJoin [CHR ''/'' # Join1 es CHR ''/'', p]))"

definition unixPaths :: "string list option \<Rightarrow> pathOps" where
  "unixPaths cwd =
     \<lparr>fpIsAbs = unixIsAbs, fpAbs = unixAbs cwd, fpJoin = unixJoin, fpDir = unixDir,
      fpToSlash = (\<lambda>p. p)\<rparr>"

lemma unixPaths_simps [simp]:
  "fpIsAbs (unixPaths cwd) = unixIsAbs" "fpAbs (unixPaths cwd) = unixAbs cwd"
  "fpJoin (unixPaths cwd) = unixJoin" "fpDir (unixPaths cwd) = unixDir"
  "fpToSlash (unixPaths cwd) p = p"
  by (simp_all add: unixPaths_def)

subsection \<open>Clean is idempotent\<close>

text \<open>The stacks Clean leaves: no empty element, no dot, and dot-dot only outermost.\<close>

fun okStack :: "bool \<Rightarrow> string list \<Rightarrow> bool" where
  "okStack r [] = True"
| "okStack r (e # st) =
     (e \<noteq> [] \<and> e \<noteq> ''.'' \<and> CHR ''/'' \<notin> set e
      \<and> (e = ''..'' \<longrightarrow> \<not> r \<and> set st \<subseteq> {''..''}) \<and> okStack r st)"

lemma cleanStep_ok: "okStack r st \<Longrightarrow> CHR ''/'' \<notin> set e \<Longrightarrow> okStack r (cleanStep r e st)"
  by (cases st) (auto simp: cleanStep_def)

lemma fold_cleanStep_ok:
  "okStack r st \<Longrightarrow> (\<And>e. e \<in> set es \<Longrightarrow> CHR ''/'' \<notin> set e)
     \<Longrightarrow> okStack r (fold (cleanStep r) es st)"
  by (induction es arbitrary: st) (auto intro: cleanStep_ok)

lemma cleanStep_push: "okStack r (e # st) \<Longrightarrow> cleanStep r e st = e # st"
  by (cases st) (auto simp: cleanStep_def)

lemma fold_cleanStep_id: "okStack r (rev es) \<Longrightarrow> fold (cleanStep r) es [] = rev es"
proof (induction es rule: rev_induct)
  case (snoc e es)
  then have "okStack r (rev es)" by simp
  with snoc show ?case by (simp add: cleanStep_push del: okStack.simps)
qed simp

lemma okStack_no_slash: "okStack r st \<Longrightarrow> e \<in> set st \<Longrightarrow> CHR ''/'' \<notin> set e \<and> e \<noteq> []"
  by (induction st) auto

lemma okStack_clean: "okStack (unixIsAbs p) (fold (cleanStep (unixIsAbs p)) (Split1 p CHR ''/'') [])"
  by (rule fold_cleanStep_ok) (auto dest: Split1_no_sep)

lemma unixClean_rooted:
  assumes "okStack True (rev es)"
  shows "unixClean (CHR ''/'' # Join1 es CHR ''/'') = CHR ''/'' # Join1 es CHR ''/''"
proof -
  have "fold (cleanStep True) (Split1 (Join1 es CHR ''/'') CHR ''/'') [] = rev es"
  proof (cases "es = []")
    case True
    then show ?thesis by (simp add: cleanStep_def)
  next
    case False
    moreover have "\<And>e. e \<in> set es \<Longrightarrow> CHR ''/'' \<notin> set e"
      using okStack_no_slash[OF assms] by simp
    ultimately show ?thesis using assms by (simp add: Split1_Join1 fold_cleanStep_id)
  qed
  moreover have "cleanStep True [] [] = []" by (simp add: cleanStep_def)
  ultimately show ?thesis by (simp add: unixClean_def unixIsAbs_def HasPrefix_def)
qed

lemma unixIsAbs_Cons [simp]: "unixIsAbs (c # p) \<longleftrightarrow> c = CHR ''/''"
  by (auto simp: unixIsAbs_def HasPrefix_def)

lemma unixIsAbs_Nil [simp]: "\<not> unixIsAbs []"
  by (simp add: unixIsAbs_def HasPrefix_def)

lemma not_unixIsAbs_Join1:
  assumes "\<And>e. e \<in> set es \<Longrightarrow> CHR ''/'' \<notin> set e \<and> e \<noteq> []"
  shows "\<not> unixIsAbs (Join1 es CHR ''/'')"
proof (cases es)
  case (Cons e es')
  with assms[of e] obtain c e' where "e = c # e'" "c \<noteq> CHR ''/''"
    by (cases e) auto
  with Cons show ?thesis by (simp add: Join1_hd_Cons)
qed simp

lemma unixClean_relative:
  assumes "okStack False (rev es)" and "es \<noteq> []"
  shows "unixClean (Join1 es CHR ''/'') = Join1 es CHR ''/''"
proof -
  have ns: "\<And>e. e \<in> set es \<Longrightarrow> CHR ''/'' \<notin> set e \<and> e \<noteq> []"
    using okStack_no_slash[OF assms(1)] by simp
  then have "fold (cleanStep False) (Split1 (Join1 es CHR ''/'') CHR ''/'') [] = rev es"
    using assms by (simp add: Split1_Join1 fold_cleanStep_id)
  then show ?thesis using assms(2) not_unixIsAbs_Join1[OF ns] by (simp add: unixClean_def)
qed

lemma unixClean_isAbs [simp]: "unixIsAbs (unixClean p) \<longleftrightarrow> unixIsAbs p"
proof (cases "unixIsAbs p")
  case True
  then show ?thesis by (simp add: unixClean_def)
next
  case False
  let ?st = "fold (cleanStep False) (Split1 p CHR ''/'') []"
  from False have "okStack False ?st" using okStack_clean[of p] by simp
  then have "\<not> unixIsAbs (Join1 (rev ?st) CHR ''/'')"
    by (intro not_unixIsAbs_Join1) (auto dest: okStack_no_slash)
  with False show ?thesis by (simp add: unixClean_def)
qed

lemma unixClean_idem [simp]: "unixClean (unixClean p) = unixClean p"
proof (cases "unixIsAbs p")
  case True
  let ?st = "fold (cleanStep True) (Split1 p CHR ''/'') []"
  from True have "okStack True ?st" using okStack_clean[of p] by simp
  then have "unixClean (CHR ''/'' # Join1 (rev ?st) CHR ''/'') = CHR ''/'' # Join1 (rev ?st) CHR ''/''"
    by (intro unixClean_rooted) simp
  then show ?thesis using True by (simp add: unixClean_def[of p])
next
  case False
  let ?st = "fold (cleanStep False) (Split1 p CHR ''/'') []"
  show ?thesis
  proof (cases "?st = []")
    case True
    have "unixClean ''.'' = ''.''" by code_simp
    with False True show ?thesis by (simp add: unixClean_def[of p])
  next
    case ne: False
    from False have "okStack False ?st" using okStack_clean[of p] by simp
    with ne have "unixClean (Join1 (rev ?st) CHR ''/'') = Join1 (rev ?st) CHR ''/''"
      by (intro unixClean_relative) simp_all
    with False ne show ?thesis by (simp add: unixClean_def[of p])
  qed
qed

section \<open>The laws hold\<close>

lemma unixJoin_abs [simp]: "unixIsAbs d \<Longrightarrow> unixJoin [d, p] = unixClean (d @ CHR ''/'' # p)"
  by (cases d) (simp_all add: unixJoin_def)

lemma ws_len_slash: "ws_len (CHR ''/'' # p) = 0"
  by (simp add: ws_len_def ws_runes_def)

lemma unixIsAbs_append: "unixIsAbs d \<Longrightarrow> unixIsAbs (d @ p)"
  by (cases d) auto

lemma unixAbs_clean: "unixAbs cwd p = Inr q \<Longrightarrow> unixIsAbs q \<and> unixClean q = q"
  by (auto simp: unixAbs_def unixIsAbs_append split: if_splits option.splits)

lemma unixDir_isAbs:
  assumes "unixIsAbs p"
  shows "unixIsAbs (unixDir p)"
proof -
  from assms obtain p' where p: "p = CHR ''/'' # p'" by (cases p) auto
  let ?d = "rev (dropWhile (\<lambda>c. c \<noteq> CHR ''/'') (rev p' @ [CHR ''/'']))"
  have "?d = CHR ''/'' # rev (dropWhile (\<lambda>c. c \<noteq> CHR ''/'') (rev p'))
        \<or> ?d = ''/''"
    by (auto simp: dropWhile_append)
  with p show ?thesis by (auto simp: unixDir_def)
qed

interpretation unix: path_laws "unixPaths cwd"
proof unfold_locales
  fix p q d
  show "fpIsAbs (unixPaths cwd) q" if "fpAbs (unixPaths cwd) p = Inr q"
    using that unixAbs_clean by simp
  show "fpAbs (unixPaths cwd) q = Inr q" if "fpAbs (unixPaths cwd) p = Inr q"
    using that unixAbs_clean[of cwd p q] by (simp add: unixAbs_def[of cwd q])
  show "fpIsAbs (unixPaths cwd) (fpJoin (unixPaths cwd) [d, p])" if "fpIsAbs (unixPaths cwd) d"
    using that by (simp add: unixIsAbs_append)
  show "fpIsAbs (unixPaths cwd) (fpDir (unixPaths cwd) p)" if "fpIsAbs (unixPaths cwd) p"
    using that by (simp add: unixDir_isAbs)
  show "TrimSpace p \<noteq> []" if "fpIsAbs (unixPaths cwd) p"
    using that by (cases p) (auto simp: TrimSpace_empty_iff trimLeft_id ws_len_slash)
qed

end
