(* ===== verification/Go_OS.thy ===== *)
theory Go_OS
  imports Go_Path
begin

text \<open>
  The part of the \<open>os\<close> package the program uses, over an explicit file system: a map from
  paths to nodes and an oracle of the faults (permissions, I/O errors) the operations meet,
  and of how much a write that fails has written by then.
  A file is identified with the path it is opened by; links and aliases of a path are not
  modelled. Operations that may leave a partial effect behind return the new file system
  beside the error.
\<close>

datatype goos = Windows | Linux | Darwin | OtherOS

text \<open>A directory with its mode, or a file with its content and mode.\<close>

datatype node = DirNode nat | FileNode string nat

fun isDir :: "node \<Rightarrow> bool" where
  "isDir (DirNode m) = True"
| "isDir (FileNode c m) = False"

datatype fsOp = OpRead | OpStat | OpWrite | OpWriteFD | OpMkdir | OpRemove | OpChmod

record fsys =
  nodes :: "string \<Rightarrow> node option"
  faults :: "fsOp \<Rightarrow> string \<Rightarrow> goerr option"
  shortWrite :: "string \<Rightarrow> nat"

definition perm0600 :: nat where "perm0600 = 6 * 64"
definition perm0700 :: nat where "perm0700 = 7 * 64"

definition osReadFile :: "fsys \<Rightarrow> string \<Rightarrow> string res" where
  "osReadFile fs p =
     (case faults fs OpRead p of
        Some e \<Rightarrow> Inl e
      | None \<Rightarrow> (case nodes fs p of
            None \<Rightarrow> Inl ErrNotExist
          | Some (DirNode dm) \<Rightarrow> Inl (LibErr ''is a directory'')
          | Some (FileNode c m) \<Rightarrow> Inr c))"

definition osStat :: "fsys \<Rightarrow> string \<Rightarrow> node res" where
  "osStat fs p =
     (case faults fs OpStat p of
        Some e \<Rightarrow> Inl e
      | None \<Rightarrow> (case nodes fs p of None \<Rightarrow> Inl ErrNotExist | Some n \<Rightarrow> Inr n))"

definition setNode :: "fsys \<Rightarrow> string \<Rightarrow> node \<Rightarrow> fsys" where
  "setNode fs p n = fs\<lparr>nodes := (nodes fs)(p := Some n)\<rparr>"

lemma setNode_simps [simp]:
  "nodes (setNode fs p n) = (nodes fs)(p := Some n)"
  "faults (setNode fs p n) = faults fs" "shortWrite (setNode fs p n) = shortWrite fs"
  by (simp_all add: setNode_def)

text \<open>Creating an entry needs its directory.\<close>

definition dirExists :: "fsys \<Rightarrow> string \<Rightarrow> bool" where
  "dirExists fs p = (case nodes fs p of None \<Rightarrow> False | Some n \<Rightarrow> isDir n)"

definition parentOK :: "pathOps \<Rightarrow> fsys \<Rightarrow> string \<Rightarrow> bool" where
  "parentOK P fs p \<longleftrightarrow> fpDir P p = ''.'' \<or> dirExists fs (fpDir P p)"

text \<open>
  \<open>os.OpenFile\<close> with \<open>O_CREATE|O_TRUNC|O_WRONLY\<close>: create with the given mode, or truncate a
  file that is there and keep its mode.
\<close>

definition osOpenTrunc :: "pathOps \<Rightarrow> fsys \<Rightarrow> string \<Rightarrow> nat \<Rightarrow> goerr option \<times> fsys" where
  "osOpenTrunc P fs p m =
     (case faults fs OpWrite p of
        Some e \<Rightarrow> (Some e, fs)
      | None \<Rightarrow> (case nodes fs p of
            Some (DirNode dm) \<Rightarrow> (Some (LibErr ''is a directory''), fs)
          | Some (FileNode c0 m0) \<Rightarrow> (None, setNode fs p (FileNode [] m0))
          | None \<Rightarrow> if parentOK P fs p then (None, setNode fs p (FileNode [] m))
                    else (Some ErrNotExist, fs)))"

text \<open>
  \<open>WriteString\<close> at the end of a file opened for writing; a write that fails has written a
  part, as much as the oracle says.
\<close>

definition osWriteString :: "fsys \<Rightarrow> string \<Rightarrow> string \<Rightarrow> goerr option \<times> fsys" where
  "osWriteString fs p c =
     (case nodes fs p of
        Some (FileNode c0 m) \<Rightarrow>
          (case faults fs OpWriteFD p of
             Some e \<Rightarrow> (Some e, setNode fs p (FileNode (c0 @ take (shortWrite fs p) c) m))
           | None \<Rightarrow> (None, setNode fs p (FileNode (c0 @ c) m)))
      | _ \<Rightarrow> (Some ErrClosed, fs))"

text \<open>\<open>os.WriteFile\<close> opens and then writes, if there is anything to write.\<close>

definition osWriteFile :: "pathOps \<Rightarrow> fsys \<Rightarrow> string \<Rightarrow> string \<Rightarrow> nat \<Rightarrow> goerr option \<times> fsys" where
  "osWriteFile P fs p c m =
     (case osOpenTrunc P fs p m of
        (Some e, fs1) \<Rightarrow> (Some e, fs1)
      | (None, fs1) \<Rightarrow> if c = [] then (None, fs1) else osWriteString fs1 p c)"

lemma osWriteFile_empty [simp]: "osWriteFile P fs p [] m = osOpenTrunc P fs p m"
  by (simp add: osWriteFile_def split: prod.split option.split)

text \<open>\<open>os.OpenFile\<close> with \<open>O_CREATE|O_EXCL|O_WRONLY\<close>: the file must not be there.\<close>

definition osOpenExcl :: "pathOps \<Rightarrow> fsys \<Rightarrow> string \<Rightarrow> nat \<Rightarrow> goerr option \<times> fsys" where
  "osOpenExcl P fs p m =
     (case nodes fs p of
        Some n \<Rightarrow> (Some ErrExist, fs)
      | None \<Rightarrow> (case faults fs OpWrite p of
            Some e \<Rightarrow> (Some e, fs)
          | None \<Rightarrow> if parentOK P fs p then (None, setNode fs p (FileNode [] m))
                    else (Some ErrNotExist, fs)))"

text \<open>\<open>os.OpenFile\<close> with \<open>O_CREATE|O_APPEND|O_WRONLY\<close>: what is there stays.\<close>

definition osOpenAppend :: "pathOps \<Rightarrow> fsys \<Rightarrow> string \<Rightarrow> nat \<Rightarrow> goerr option \<times> fsys" where
  "osOpenAppend P fs p m =
     (case faults fs OpWrite p of
        Some e \<Rightarrow> (Some e, fs)
      | None \<Rightarrow> (case nodes fs p of
            Some (DirNode dm) \<Rightarrow> (Some (LibErr ''is a directory''), fs)
          | Some (FileNode c0 m0) \<Rightarrow> (None, fs)
          | None \<Rightarrow> if parentOK P fs p then (None, setNode fs p (FileNode [] m))
                    else (Some ErrNotExist, fs)))"

definition osMkdir :: "fsys \<Rightarrow> string \<Rightarrow> nat \<Rightarrow> goerr option \<times> fsys" where
  "osMkdir fs p m =
     (case faults fs OpMkdir p of
        Some e \<Rightarrow> (Some e, fs)
      | None \<Rightarrow> (None, setNode fs p (DirNode m)))"

text \<open>
  \<open>os.MkdirAll\<close>: nothing to do for a directory, an error for a file, otherwise the parent
  first. The guard on the length is what stops Go's recursion at the root.
\<close>

function osMkdirAll :: "pathOps \<Rightarrow> fsys \<Rightarrow> string \<Rightarrow> nat \<Rightarrow> goerr option \<times> fsys" where
  "osMkdirAll P fs p m =
     (case nodes fs p of
        Some (DirNode dm) \<Rightarrow> (None, fs)
      | Some (FileNode c fm) \<Rightarrow> (Some (LibErr ''not a directory''), fs)
      | None \<Rightarrow>
          if length (fpDir P p) < length p \<and> fpDir P p \<noteq> ''.'' then
            (case osMkdirAll P fs (fpDir P p) m of
               (Some e, fs') \<Rightarrow> (Some e, fs')
             | (None, fs') \<Rightarrow> osMkdir fs' p m)
          else osMkdir fs p m)"
  by pat_completeness auto
termination
  by (relation "measure (\<lambda>(P, fs, p, m). length p)") auto

declare osMkdirAll.simps [simp del]

definition osRemove :: "fsys \<Rightarrow> string \<Rightarrow> goerr option \<times> fsys" where
  "osRemove fs p =
     (case faults fs OpRemove p of
        Some e \<Rightarrow> (Some e, fs)
      | None \<Rightarrow> (case nodes fs p of
            None \<Rightarrow> (Some ErrNotExist, fs)
          | Some n \<Rightarrow> (None, fs\<lparr>nodes := (nodes fs)(p := None)\<rparr>)))"

text \<open>
  \<open>os.Remove\<close> on Windows of a file this process has open: Go opens files without
  \<open>FILE_SHARE_DELETE\<close>, so the removal is refused with a sharing violation (32) and the file
  stays.
\<close>

definition osRemoveOpen :: "fsys \<Rightarrow> string \<Rightarrow> goerr option \<times> fsys" where
  "osRemoveOpen fs p =
     (case faults fs OpRemove p of
        Some e \<Rightarrow> (Some e, fs)
      | None \<Rightarrow> (case nodes fs p of
            None \<Rightarrow> (Some ErrNotExist, fs)
          | Some n \<Rightarrow> (Some (Errno 32), fs)))"

lemma osRemoveOpen_stays [simp]: "snd (osRemoveOpen fs p) = fs"
  by (simp add: osRemoveOpen_def split: option.split)

definition osChmod :: "fsys \<Rightarrow> string \<Rightarrow> nat \<Rightarrow> goerr option \<times> fsys" where
  "osChmod fs p m =
     (case faults fs OpChmod p of
        Some e \<Rightarrow> (Some e, fs)
      | None \<Rightarrow> (case nodes fs p of
            None \<Rightarrow> (Some ErrNotExist, fs)
          | Some (DirNode dm) \<Rightarrow> (None, fs)
          | Some (FileNode c m0) \<Rightarrow> (None, setNode fs p (FileNode c m))))"

text \<open>
  \<open>os.IsPermission\<close> looks at the error itself, not down its chain; Windows' access-denied
  error number counts.
\<close>

definition osIsPermission :: "goerr \<Rightarrow> bool" where
  "osIsPermission e = (e = ErrPermission \<or> e = Errno 5)"

text \<open>Faults are permissions and I/O errors: none says that a file that exists does not.\<close>

definition faultsSane :: "fsys \<Rightarrow> bool" where
  "faultsSane fs \<longleftrightarrow> (\<forall>op p e. faults fs op p = Some e \<longrightarrow> \<not> errors_Is e ErrNotExist \<and> \<not> errors_Is e ErrExist)"

section \<open>Frames\<close>

lemma osOpenTrunc_frame [frame_simps]:
  "q \<noteq> p \<Longrightarrow> nodes (snd (osOpenTrunc P fs p m)) q = nodes fs q"
  "faults (snd (osOpenTrunc P fs p m)) = faults fs"
  by (auto simp: osOpenTrunc_def split: option.splits node.splits)

lemma osWriteString_frame [frame_simps]:
  "q \<noteq> p \<Longrightarrow> nodes (snd (osWriteString fs p c)) q = nodes fs q"
  "faults (snd (osWriteString fs p c)) = faults fs"
  by (auto simp: osWriteString_def split: option.splits node.splits)

lemma osWriteFile_frame [frame_simps]:
  "q \<noteq> p \<Longrightarrow> nodes (snd (osWriteFile P fs p c m)) q = nodes fs q"
  "faults (snd (osWriteFile P fs p c m)) = faults fs"
proof -
  obtain e fs1 where o': "osOpenTrunc P fs p m = (e, fs1)" by fastforce
  show "nodes (snd (osWriteFile P fs p c m)) q = nodes fs q" if "q \<noteq> p"
    using osOpenTrunc_frame(1)[OF that, of P fs m] o' that
    by (simp add: osWriteFile_def frame_simps split: option.split)
  show "faults (snd (osWriteFile P fs p c m)) = faults fs"
    using osOpenTrunc_frame(2)[of P fs p m] o' by (simp add: osWriteFile_def frame_simps split: option.split)
qed

lemma osMkdir_frame [frame_simps]:
  "q \<noteq> p \<Longrightarrow> nodes (snd (osMkdir fs p m)) q = nodes fs q"
  "faults (snd (osMkdir fs p m)) = faults fs"
  by (auto simp: osMkdir_def split: option.splits)

lemma osMkdirAll_faults [frame_simps]: "faults (snd (osMkdirAll P fs p m)) = faults fs"
proof (induction P fs p m rule: osMkdirAll.induct)
  case (1 P fs p m)
  then show ?case
    by (subst osMkdirAll.simps)
      (auto simp: frame_simps split: option.splits node.splits prod.splits)
qed

text \<open>Existing nodes survive, and the nodes that appear are directories.\<close>

lemma osMkdirAll_keeps:
  "nodes fs q = Some n \<Longrightarrow> nodes (snd (osMkdirAll P fs p m)) q = Some n"
proof (induction P fs p m rule: osMkdirAll.induct)
  case (1 P fs p m)
  show ?case
  proof (cases "q = p")
    case True
    with 1(2) show ?thesis by (subst osMkdirAll.simps) (auto split: node.splits)
  next
    case False
    with 1 osMkdir_frame(1)[OF False] show ?thesis
      by (subst osMkdirAll.simps) (auto split: option.splits node.splits prod.splits)
  qed
qed

lemma osMkdirAll_new:
  "nodes (snd (osMkdirAll P fs p m)) q = nodes fs q \<or> nodes (snd (osMkdirAll P fs p m)) q = Some (DirNode m)"
proof (induction P fs p m rule: osMkdirAll.induct)
  case (1 P fs p m)
  have mk: "nodes (snd (osMkdir fs' p m)) q = nodes fs' q \<or> nodes (snd (osMkdir fs' p m)) q = Some (DirNode m)" for fs'
    by (auto simp: osMkdir_def split: option.splits)
  show ?case
  proof (cases "nodes fs p = None \<and> length (fpDir P p) < length p \<and> fpDir P p \<noteq> ''.''")
    case True
    then show ?thesis
      using 1 mk[of "snd (osMkdirAll P fs (fpDir P p) m)"]
      by (subst (1 2) osMkdirAll.simps) (auto split: option.splits prod.splits)
  next
    case False
    then show ?thesis
      using mk[of fs] by (subst (1 2) osMkdirAll.simps) (auto split: option.splits node.splits)
  qed
qed

text \<open>Only the directory asked for and those above it, all no longer, can appear.\<close>

lemma osMkdirAll_short:
  "length p < length q \<Longrightarrow> nodes (snd (osMkdirAll P fs p m)) q = nodes fs q"
proof (induction P fs p m rule: osMkdirAll.induct)
  case (1 P fs p m)
  then have "q \<noteq> p" by auto
  from 1 osMkdir_frame(1)[OF this] show ?case
    by (subst osMkdirAll.simps) (auto split: option.splits node.splits prod.splits)
qed

lemma osMkdirAll_ok: "fst (osMkdirAll P fs p m) = None \<Longrightarrow> dirExists (snd (osMkdirAll P fs p m)) p"
  by (subst osMkdirAll.simps, subst (asm) osMkdirAll.simps)
    (auto simp: osMkdir_def dirExists_def split: option.splits node.splits prod.splits if_splits)

end
