(* ===== verification/Relay_Config.thy ===== *)
theory Relay_Config
  imports Go_OS
begin

text \<open>
  \<open>internal/config/config.go\<close>: the configuration record, its defaults, \<open>Load\<close> with
  normalisation and validation, and \<open>WriteTemplate\<close>. Decoding TOML is the third-party
  package \<open>BurntSushi/toml\<close>: a parameter that maps the file system, the path and the
  sections filled with defaults to the decoded sections or an error.
\<close>

section \<open>Records and defaults\<close>

record serverConfig =
  scAddr :: string
  scHostKey :: string
  scShell :: string
  scWorkDir :: string
  scBanner :: string
  scLogLevel :: string
  scAllowLocalFwd :: bool
  scAllowRemoteFwd :: bool

record authConfig =
  acNoAuth :: bool
  acUsername :: string
  acPassword :: string
  acAuthorizedKeys :: string

record config =
  cServer :: serverConfig
  cAuth :: authConfig
  cConfigDir :: string

type_synonym tomlDecoder = "fsys \<Rightarrow> string \<Rightarrow> serverConfig \<times> authConfig \<Rightarrow> (serverConfig \<times> authConfig) res"

definition Defaults :: config where
  "Defaults =
     \<lparr>cServer = \<lparr>scAddr = ''0.0.0.0:2222'', scHostKey = ''host_key.pem'', scShell = [],
        scWorkDir = [], scBanner = [], scLogLevel = ''info'',
        scAllowLocalFwd = True, scAllowRemoteFwd = True\<rparr>,
      cAuth = \<lparr>acNoAuth = False, acUsername = [], acPassword = [], acAuthorizedKeys = []\<rparr>,
      cConfigDir = []\<rparr>"

section \<open>Addresses\<close>

definition splitHostPort :: "string \<Rightarrow> string \<times> string" where
  "splitHostPort addr =
     (let i = LastIndex1 addr CHR '':'' in
      if i < 0 then (addr, []) else (take (nat i) addr, drop (nat i + 1) addr))"

definition isLoopback :: "string \<Rightarrow> bool" where
  "isLoopback host = (TrimSpace host \<in> {[], ''127.0.0.1'', ''localhost'', ''::1'', ''[::1]''})"

section \<open>normalize and resolve\<close>

definition resolve :: "pathOps \<Rightarrow> config \<Rightarrow> string \<Rightarrow> string" where
  "resolve P c p =
     (if fpIsAbs P p then p
      else if cConfigDir c = [] then p
      else fpJoin P [cConfigDir c, p])"

definition blank :: "string \<Rightarrow> bool" where
  "blank s \<longleftrightarrow> TrimSpace s = []"

definition normalize :: "pathOps \<Rightarrow> config \<Rightarrow> config" where
  "normalize P c =
     (let s = cServer c; a = cAuth c;
          s = (if blank (scAddr s) then s\<lparr>scAddr := ''0.0.0.0:2222''\<rparr> else s);
          s = (if blank (scHostKey s) then s\<lparr>scHostKey := ''host_key.pem''\<rparr> else s);
          s = (if blank (scLogLevel s) then s\<lparr>scLogLevel := ''info''\<rparr> else s);
          s = s\<lparr>scHostKey := resolve P c (scHostKey s)\<rparr>;
          s = (if \<not> blank (scWorkDir s) then s\<lparr>scWorkDir := resolve P c (scWorkDir s)\<rparr> else s);
          a = (if \<not> blank (acAuthorizedKeys a)
               then a\<lparr>acAuthorizedKeys := resolve P c (acAuthorizedKeys a)\<rparr> else a)
      in c\<lparr>cServer := s, cAuth := a\<rparr>)"

section \<open>Validate\<close>

definition logLevels :: "string list" where
  "logLevels = [''debug'', ''info'', ''warn'', ''error'']"

definition statErr :: "fsys \<Rightarrow> string \<Rightarrow> goerr option" where
  "statErr fs p = (case osStat fs p of Inl e \<Rightarrow> Some e | Inr n \<Rightarrow> None)"

definition Validate :: "fsys \<Rightarrow> config \<Rightarrow> goerr option" where
  "Validate fs c =
     (let s = cServer c; a = cAuth c in
      if blank (scAddr s) then Some (Msg [Txt ''server.addr must not be empty''])
      else if acNoAuth a \<and> (acPassword a \<noteq> [] \<or> acAuthorizedKeys a \<noteq> [])
      then Some (Msg [Txt ''auth.no_auth is mutually exclusive with auth.password / auth.authorized_keys''])
      else if \<not> acNoAuth a \<and> acPassword a = [] \<and> acAuthorizedKeys a = []
              \<and> \<not> isLoopback (fst (splitHostPort (scAddr s)))
      then Some (Msg [Txt ''refusing to run without authentication on a non-loopback address; set auth.no_auth=true or configure auth.password / auth.authorized_keys''])
      else case (if acAuthorizedKeys a \<noteq> [] then statErr fs (acAuthorizedKeys a) else None) of
             Some e \<Rightarrow> Some (Wrapped [Txt ''auth.authorized_keys file '', Quoted (acAuthorizedKeys a)] e)
           | None \<Rightarrow>
               if scLogLevel s \<in> set logLevels then None
               else Some (Msg [Txt ''server.log_level '', Quoted (scLogLevel s), Txt '' must be debug|info|warn|error'']))"

section \<open>Load\<close>

definition Load :: "pathOps \<Rightarrow> tomlDecoder \<Rightarrow> fsys \<Rightarrow> string \<Rightarrow> config res" where
  "Load P decodeFile fs path =
     bindR (wrapR [Txt ''resolve config path''] (fpAbs P (if blank path then ''config.toml'' else path)))
       (\<lambda>abs.
          let cfg = Defaults\<lparr>cConfigDir := fpDir P abs\<rparr> in
          bindR (wrapR [Txt (''decode '' @ abs)] (decodeFile fs abs (cServer cfg, cAuth cfg)))
            (\<lambda>(s, a).
               let cfg = normalize P (cfg\<lparr>cServer := s, cAuth := a\<rparr>) in
               case Validate fs cfg of Some e \<Rightarrow> Inl e | None \<Rightarrow> Inr cfg))"

section \<open>WriteTemplate\<close>

definition unlines :: "string list \<Rightarrow> string" where
  "unlines ls = concat (map (\<lambda>l. l @ [CHR 0x0A]) ls)"

definition configTemplate :: string where
  \<open>configTemplate = unlines
     [''# termcp-relay configuration file.'',
      ''#'',
      ''# Paths for host_key and authorized_keys are resolved relative to this file's'',
      ''# own directory, so co-locate the key files here. After editing, start with:'',
      ''#'',
      ''#   termcp-relay --config config.toml'',
      [],
      ''[server]'',
      ''# Address to listen on. "0.0.0.0:2222" accepts from the network;'',
      ''# "127.0.0.1:2222" is local-only.'',
      ''addr = "0.0.0.0:2222"'',
      [],
      ''# RSA host key. Auto-generated (RSA-2048, 0600 perms) on first run if the file'',
      ''# is missing, then reused for a stable server fingerprint. No external tools'',
      ''# (ssh-keygen) required.'',
      ''host_key = "host_key.pem"'',
      [],
      ''# Override the interactive shell, whitespace-split into argv, e.g. "pwsh -NoLogo".'',
      ''# Leave empty to auto-detect: pwsh -> powershell -> cmd on Windows; $SHELL on Unix.'',
      ''shell = ""'',
      [],
      ''# Working directory for SSH sessions. If empty, falls back to the user's home'',
      ''# directory (like nssm / normal SSH logins). Relative paths resolve relative to'',
      ''# this config file.'',
      ''work_dir = ""'',
      [],
      ''# Banner shown to the client before authentication.'',
      ''banner = "termcp-relay"'',
      [],
      ''# Log level: debug | info | warn | error'',
      ''log_level = "info"'',
      [],
      ''# Permit ssh -L (direct-tcpip) local port forwarding.'',
      ''allow_local_forward = true'',
      [],
      ''# Permit ssh -R (tcpip-forward) reverse port forwarding.'',
      ''allow_remote_forward = true'',
      [],
      [],
      ''# Authentication. Configure at least one method, or set no_auth = true. Running'',
      ''# without auth on a non-loopback addr is refused.'',
      ''[auth]'',
      ''# Accept every client without challenge. Refused on non-loopback binds.'',
      ''no_auth = false'',
      [],
      ''# Password auth (constant-time compared). When username is empty, any username'',
      ''# is accepted as long as the password matches.'',
      ''username = ""'',
      ''password = ""'',
      [],
      ''# Public-key auth: path to an OpenSSH authorized_keys file (one key per line).'',
      ''# Uncomment and point at a file to enable.'',
      ''# authorized_keys = "authorized_keys"'']\<close>

definition WriteTemplate :: "pathOps \<Rightarrow> fsys \<Rightarrow> string \<Rightarrow> goerr option \<times> fsys" where
  "WriteTemplate P fs path =
     (let dir = fpDir P path;
          (e, fs) = (if dir \<noteq> [] \<and> dir \<noteq> ''.'' then osMkdirAll P fs dir perm0700 else (None, fs))
      in case e of Some e \<Rightarrow> (Some e, fs)
         | None \<Rightarrow> (case osOpenExcl P fs path perm0600 of
               (Some e, fs) \<Rightarrow> (Some e, fs)
             | (None, fs) \<Rightarrow> osWriteString fs path configTemplate))"

end
