(* ===== verification/Relay_Config_Facts.thy ===== *)
theory Relay_Config_Facts
  imports Relay_Config
begin

text \<open>
  What a loaded configuration guarantees: when \<open>Validate\<close> accepts, that \<open>Load\<close> leaves
  absolute paths and a normal form behind, and that \<open>WriteTemplate\<close> never touches a file
  that exists. Path facts are proved in \<open>path_laws\<close> and instantiated on Unix.
\<close>

section \<open>Validate and Load\<close>

lemma Validate_None_iff:
  "Validate fs c = None \<longleftrightarrow>
     \<not> blank (scAddr (cServer c))
     \<and> \<not> (acNoAuth (cAuth c) \<and> (acPassword (cAuth c) \<noteq> [] \<or> acAuthorizedKeys (cAuth c) \<noteq> []))
     \<and> (acNoAuth (cAuth c) \<or> acPassword (cAuth c) \<noteq> [] \<or> acAuthorizedKeys (cAuth c) \<noteq> []
        \<or> isLoopback (fst (splitHostPort (scAddr (cServer c)))))
     \<and> (acAuthorizedKeys (cAuth c) = [] \<or> statErr fs (acAuthorizedKeys (cAuth c)) = None)
     \<and> scLogLevel (cServer c) \<in> set logLevels"
  by (simp add: Validate_def Let_def split: option.split)

lemma Load_eq_Inr:
  "Load P dec fs path = Inr c \<longleftrightarrow>
     (\<exists>abs s a. fpAbs P (if blank path then ''config.toml'' else path) = Inr abs
        \<and> dec fs abs (cServer Defaults, cAuth Defaults) = Inr (s, a)
        \<and> c = normalize P (Defaults\<lparr>cConfigDir := fpDir P abs, cServer := s, cAuth := a\<rparr>)
        \<and> Validate fs c = None)"
  by (auto simp: Load_def Let_def bindR_eq_Inr split: option.splits)

lemma Load_decoded:
  assumes "fpAbs P (if blank path then ''config.toml'' else path) = Inr cfgFile"
    and "dec fs cfgFile (cServer Defaults, cAuth Defaults) = Inr (srv, ac)"
  shows "Load P dec fs path =
     (let c = normalize P (Defaults\<lparr>cConfigDir := fpDir P cfgFile, cServer := srv, cAuth := ac\<rparr>)
      in case Validate fs c of Some err \<Rightarrow> Inl err | None \<Rightarrow> Inr c)"
  using assms by (simp add: Load_def Let_def)

lemma normalize_fields [simp]:
  "cConfigDir (normalize P c) = cConfigDir c"
  "acNoAuth (cAuth (normalize P c)) = acNoAuth (cAuth c)"
  "acUsername (cAuth (normalize P c)) = acUsername (cAuth c)"
  "acPassword (cAuth (normalize P c)) = acPassword (cAuth c)"
  "acAuthorizedKeys (cAuth (normalize P c)) =
     (if blank (acAuthorizedKeys (cAuth c)) then acAuthorizedKeys (cAuth c)
      else resolve P c (acAuthorizedKeys (cAuth c)))"
  "scAddr (cServer (normalize P c)) =
     (if blank (scAddr (cServer c)) then ''0.0.0.0:2222'' else scAddr (cServer c))"
  "scHostKey (cServer (normalize P c)) =
     resolve P c (if blank (scHostKey (cServer c)) then ''host_key.pem'' else scHostKey (cServer c))"
  "scWorkDir (cServer (normalize P c)) =
     (if blank (scWorkDir (cServer c)) then scWorkDir (cServer c) else resolve P c (scWorkDir (cServer c)))"
  "scLogLevel (cServer (normalize P c)) =
     (if blank (scLogLevel (cServer c)) then ''info'' else scLogLevel (cServer c))"
  "scShell (cServer (normalize P c)) = scShell (cServer c)"
  "scBanner (cServer (normalize P c)) = scBanner (cServer c)"
  "scAllowLocalFwd (cServer (normalize P c)) = scAllowLocalFwd (cServer c)"
  "scAllowRemoteFwd (cServer (normalize P c)) = scAllowRemoteFwd (cServer c)"
  by (simp_all add: normalize_def Let_def)

lemma not_blank_consts [simp]:
  "\<not> blank ''0.0.0.0:2222''" "\<not> blank ''host_key.pem''" "\<not> blank ''info''" "\<not> blank '':2222''"
  by code_simp+

lemma resolve_cong: "cConfigDir c = cConfigDir d \<Longrightarrow> resolve P c p = resolve P d p"
  by (simp add: resolve_def)

section \<open>Paths\<close>

context path_laws begin

lemma resolve_isAbs: "fpIsAbs P (cConfigDir c) \<Longrightarrow> fpIsAbs P (resolve P c p)"
  using isAbs_nonempty by (auto simp: resolve_def join_isAbs)

lemma resolve_id: "fpIsAbs P p \<Longrightarrow> resolve P c p = p"
  by (simp add: resolve_def)

lemma resolve_resolve: "fpIsAbs P (cConfigDir c) \<Longrightarrow> resolve P d (resolve P c p) = resolve P c p"
  by (rule resolve_id, rule resolve_isAbs)

lemma resolve_nonblank: "fpIsAbs P (cConfigDir c) \<Longrightarrow> \<not> blank (resolve P c p)"
  unfolding blank_def by (rule isAbs_nonblank, rule resolve_isAbs)

lemma normalize_normal:
  assumes "fpIsAbs P (cConfigDir c)"
  shows "normalize P (normalize P c) = normalize P c"
proof -
  let ?n = "normalize P c"
  have "cServer (normalize P ?n) = cServer ?n" "cAuth (normalize P ?n) = cAuth ?n"
    using assms by (auto simp: resolve_resolve resolve_nonblank intro!: serverConfig.equality authConfig.equality)
  then show ?thesis by (simp add: config.equality)
qed

lemma Load_configDir:
  assumes "Load P dec fs path = Inr c"
  shows "fpIsAbs P (cConfigDir c)"
proof -
  from assms obtain abs s a where "fpAbs P (if blank path then ''config.toml'' else path) = Inr abs"
    and "c = normalize P (Defaults\<lparr>cConfigDir := fpDir P abs, cServer := s, cAuth := a\<rparr>)"
    by (auto simp: Load_eq_Inr)
  then show ?thesis using abs_isAbs dir_isAbs by (simp del: if_split)
qed

lemma Load_paths:
  assumes "Load P dec fs path = Inr c"
  shows "fpIsAbs P (scHostKey (cServer c))"
    and "blank (scWorkDir (cServer c)) \<or> fpIsAbs P (scWorkDir (cServer c))"
    and "blank (acAuthorizedKeys (cAuth c)) \<or> fpIsAbs P (acAuthorizedKeys (cAuth c))"
proof -
  from assms obtain abs s a where
    c: "c = normalize P (Defaults\<lparr>cConfigDir := fpDir P abs, cServer := s, cAuth := a\<rparr>)" (is "c = normalize P ?d")
    by (auto simp: Load_eq_Inr)
  have "fpIsAbs P (cConfigDir ?d)" using Load_configDir[OF assms] c by simp
  then show "fpIsAbs P (scHostKey (cServer c))"
    and "blank (scWorkDir (cServer c)) \<or> fpIsAbs P (scWorkDir (cServer c))"
    and "blank (acAuthorizedKeys (cAuth c)) \<or> fpIsAbs P (acAuthorizedKeys (cAuth c))"
    unfolding c using resolve_isAbs[of ?d] by (auto simp del: if_split split: if_split)
qed

lemma Load_normal:
  assumes "Load P dec fs path = Inr c"
  shows "normalize P c = c"
proof -
  from assms obtain abs s a where
    c: "c = normalize P (Defaults\<lparr>cConfigDir := fpDir P abs, cServer := s, cAuth := a\<rparr>)" (is "c = normalize P ?d")
    by (auto simp: Load_eq_Inr)
  have "fpIsAbs P (cConfigDir ?d)" using Load_configDir[OF assms] c by simp
  then show ?thesis unfolding c by (rule normalize_normal)
qed

end

section \<open>WriteTemplate\<close>

lemma osOpenExcl_exists: "nodes fs p = Some n \<Longrightarrow> osOpenExcl P fs p m = (Some ErrExist, fs)"
  by (simp add: osOpenExcl_def)

lemma osOpenExcl_ok:
  "osOpenExcl P fs p m = (None, fs') \<Longrightarrow> nodes fs p = None \<and> fs' = setNode fs p (FileNode [] m)"
  by (auto simp: osOpenExcl_def split: option.splits if_splits)

lemma osOpenExcl_keeps:
  "nodes fs q = Some n \<Longrightarrow> nodes (snd (osOpenExcl P fs p m)) q = Some n"
  by (auto simp: osOpenExcl_def split: option.splits)

lemma osWriteString_keeps:
  "q \<noteq> p \<Longrightarrow> nodes (snd (osWriteString fs p c)) q = nodes fs q"
  by (simp add: frame_simps)

definition templateDirs :: "pathOps \<Rightarrow> fsys \<Rightarrow> string \<Rightarrow> goerr option \<times> fsys" where
  "templateDirs P fs path =
     (if fpDir P path \<noteq> [] \<and> fpDir P path \<noteq> ''.'' then osMkdirAll P fs (fpDir P path) perm0700
      else (None, fs))"

lemma WriteTemplate_steps:
  "WriteTemplate P fs path =
     (case templateDirs P fs path of
        (Some e, fs1) \<Rightarrow> (Some e, fs1)
      | (None, fs1) \<Rightarrow> (case osOpenExcl P fs1 path perm0600 of
            (Some e, fs2) \<Rightarrow> (Some e, fs2)
          | (None, fs2) \<Rightarrow> osWriteString fs2 path configTemplate))"
  by (auto simp: WriteTemplate_def templateDirs_def Let_def split: prod.splits option.splits)

lemma templateDirs_keeps: "nodes fs q = Some n \<Longrightarrow> nodes (snd (templateDirs P fs path)) q = Some n"
  by (simp add: templateDirs_def osMkdirAll_keeps)

lemma WriteTemplate_keeps:
  assumes "nodes fs q = Some n"
  shows "nodes (snd (WriteTemplate P fs path)) q = Some n"
proof (cases "templateDirs P fs path")
  case (Pair e1 fs1)
  then have 1: "nodes fs1 q = Some n" using templateDirs_keeps[OF assms, of P path] by simp
  show ?thesis
  proof (cases "e1 = None \<and> fst (osOpenExcl P fs1 path perm0600) = None")
    case True
    obtain fs2 where 2: "osOpenExcl P fs1 path perm0600 = (None, fs2)" using True by (metis prod.collapse)
    then have "q \<noteq> path" using 1 osOpenExcl_ok by fastforce
    then show ?thesis
      using Pair True 2 1 osOpenExcl_keeps[OF 1, of P path perm0600]
      by (simp add: WriteTemplate_steps osWriteString_keeps)
  next
    case False
    then show ?thesis using Pair 1 osOpenExcl_keeps[OF 1, of P path perm0600]
      by (auto simp: WriteTemplate_steps split: option.splits prod.splits)
  qed
qed

lemma WriteTemplate_ok:
  assumes "WriteTemplate P fs path = (None, fs')"
  shows "nodes fs path = None" and "nodes fs' path = Some (FileNode configTemplate perm0600)"
proof -
  from assms obtain fs1 fs2 where 1: "templateDirs P fs path = (None, fs1)"
    and 2: "osOpenExcl P fs1 path perm0600 = (None, fs2)"
    and 3: "osWriteString fs2 path configTemplate = (None, fs')"
    by (auto simp: WriteTemplate_steps split: prod.splits option.splits)
  from osOpenExcl_ok[OF 2] have n1: "nodes fs1 path = None" and fs2: "fs2 = setNode fs1 path (FileNode [] perm0600)"
    by auto
  show "nodes fs path = None"
    using n1 templateDirs_keeps[of fs path _ P path] 1 by (cases "nodes fs path") auto
  show "nodes fs' path = Some (FileNode configTemplate perm0600)"
    using 3 fs2 by (auto simp: osWriteString_def split: option.splits)
qed

section \<open>Properties\<close>

text \<open>C39: Which configurations load, exactly. A file that could be decoded gives its normalised
  configuration if authentication is switched off and no other method is named, or a
  password or a non-empty \<open>authorized_keys\<close> is set, or the host part of the address is one of
  the five texts that count as loopback, the empty one among them; a non-empty
  \<open>authorized_keys\<close> could be found; and the log level is one of the four. Otherwise loading
  fails. So without \<open>no_auth\<close>, off loopback, some method has been named; but a text of blanks
  alone counts as naming a keys file, and then everybody is let in (C1).\<close>
theorem Load_authenticated_or_loopback:
  assumes "fpAbs P (if blank path then ''config.toml'' else path) = Inr cfgFile"
    and "dec fs cfgFile (cServer Defaults, cAuth Defaults) = Inr (srv, ac)"
    and "c = normalize P (Defaults\<lparr>cConfigDir := fpDir P cfgFile, cServer := srv, cAuth := ac\<rparr>)"
  shows "let named = (acPassword (cAuth c) \<noteq> [] \<or> acAuthorizedKeys (cAuth c) \<noteq> []);
      loopback = (TrimSpace (fst (splitHostPort (scAddr (cServer c)))) \<in> {[], ''127.0.0.1'', ''localhost'', ''::1'', ''[::1]''});
      accepted = ((if acNoAuth (cAuth c) then \<not> named else named \<or> loopback)
        \<and> (acAuthorizedKeys (cAuth c) = [] \<or> (\<exists>n. osStat fs (acAuthorizedKeys (cAuth c)) = Inr n))
        \<and> scLogLevel (cServer c) \<in> {''debug'', ''info'', ''warn'', ''error''})
    in case Load P dec fs path of Inr c' \<Rightarrow> accepted \<and> c' = c | Inl err \<Rightarrow> \<not> accepted"
proof -
  have l: "isLoopback h \<longleftrightarrow> TrimSpace h \<in> {[], ''127.0.0.1'', ''localhost'', ''::1'', ''[::1]''}" for h
    unfolding isLoopback_def by (simp only: set_simps)
  have lv: "set logLevels = {''debug'', ''info'', ''warn'', ''error''}" by (simp add: logLevels_def)
  have st: "statErr fs p = None \<longleftrightarrow> (\<exists>n. osStat fs p = Inr n)" for p
    by (simp add: statErr_def split: sum.split)
  have addr: "\<not> blank (scAddr (cServer c))" unfolding assms(3) by simp
  have ld: "Load P dec fs path = (case Validate fs c of Some err \<Rightarrow> Inl err | None \<Rightarrow> Inr c)"
    unfolding Load_decoded[of P path cfgFile dec fs srv ac, OF assms(1,2)] Let_def assms(3) ..
  note v = Validate_None_iff[of fs c, unfolded l lv st]
  show ?thesis
  proof (cases "Validate fs c")
    case None
    with v None show ?thesis unfolding ld Let_def by (simp only: option.case sum.case) (simp split: if_split, blast)
  next
    case (Some err)
    with v addr show ?thesis unfolding ld Let_def by (simp only: option.case sum.case) (simp split: if_split, blast)
  qed
qed

definition plainFS :: fsys where
  "plainFS = \<lparr>nodes = Map.empty, faults = (\<lambda>op p. None), shortWrite = (\<lambda>p. 0)\<rparr>"

definition pwDecoder :: tomlDecoder where
  "pwDecoder fs p d = Inr (fst d, (snd d)\<lparr>acPassword := ''pw''\<rparr>)"

lemma Load_example:
  "Load (unixPaths (Some [])) pwDecoder fs ''/c.toml'' =
     Inr (Defaults\<lparr>cConfigDir := ''/'', cServer := (cServer Defaults)\<lparr>scHostKey := ''/host_key.pem''\<rparr>,
                   cAuth := (cAuth Defaults)\<lparr>acPassword := ''pw''\<rparr>\<rparr>)"
proof -
  have p: "unixAbs (Some []) ''/c.toml'' = Inr ''/c.toml''" "unixDir ''/c.toml'' = ''/''"
      "unixJoin [''/'', ''host_key.pem''] = ''/host_key.pem''" "\<not> blank ''/c.toml''"
    by code_simp+
  let ?c = "normalize (unixPaths (Some [])) (Defaults\<lparr>cConfigDir := ''/'', cAuth := (cAuth Defaults)\<lparr>acPassword := ''pw''\<rparr>\<rparr>)"
  have b: "blank []" by (simp add: blank_def)
  have n: "?c = Defaults\<lparr>cConfigDir := ''/'', cServer := (cServer Defaults)\<lparr>scHostKey := ''/host_key.pem''\<rparr>,
                   cAuth := (cAuth Defaults)\<lparr>acPassword := ''pw''\<rparr>\<rparr>"
    using b p(3) by (simp add: normalize_def Let_def Defaults_def resolve_def)
  have "Validate fs ?c = None"
    unfolding n by (simp add: Validate_None_iff Defaults_def logLevels_def)
  then show ?thesis
    using p n by (auto simp: Load_eq_Inr pwDecoder_def Defaults_def)
qed

theorem Load_authenticated_or_loopback_witness:
  "\<exists>c. Load (unixPaths (Some [])) pwDecoder plainFS ''/c.toml'' = Inr c \<and> acPassword (cAuth c) = ''pw''
     \<and> scLogLevel (cServer c) \<in> {''debug'', ''info'', ''warn'', ''error''}"
proof -
  have a: "fpAbs (unixPaths (Some [])) (if blank ''/c.toml'' then ''config.toml'' else ''/c.toml'') = Inr ''/c.toml''"
    by code_simp
  from Load_authenticated_or_loopback[OF a, of pwDecoder plainFS "cServer Defaults" "(cAuth Defaults)\<lparr>acPassword := ''pw''\<rparr>", OF _ refl]
    Load_example[of plainFS]
  show ?thesis by (auto simp: pwDecoder_def Let_def Defaults_def)
qed

text \<open>\<open>Validate\<close> accepts exactly the configurations with an address, without \<open>no_auth\<close> beside
  another method, with some method unless the host is loopback, with an authorized_keys file
  that can be found when one is named, and with a known log level.\<close>
lemma Validate_accepts_exactly:
  "Validate fs c = None \<longleftrightarrow>
     \<not> blank (scAddr (cServer c))
     \<and> (acNoAuth (cAuth c) \<longrightarrow> acPassword (cAuth c) = [] \<and> acAuthorizedKeys (cAuth c) = [])
     \<and> (\<not> acNoAuth (cAuth c) \<and> acPassword (cAuth c) = [] \<and> acAuthorizedKeys (cAuth c) = []
          \<longrightarrow> isLoopback (fst (splitHostPort (scAddr (cServer c)))))
     \<and> (acAuthorizedKeys (cAuth c) \<noteq> [] \<longrightarrow> statErr fs (acAuthorizedKeys (cAuth c)) = None)
     \<and> scLogLevel (cServer c) \<in> {''debug'', ''info'', ''warn'', ''error''}"
  by (auto simp: Validate_None_iff logLevels_def)

text \<open>C40: On any host, the host key path of a loaded configuration is absolute, and so are its work
  directory and its \<open>authorized_keys\<close> unless they are empty or blanks alone; and loading leaves a normal form: normalising again changes nothing.\<close>
theorem Load_paths_absolute_and_normal:
  assumes "path_laws P" and "Load P dec fs path = Inr c"
  shows "fpIsAbs P (scHostKey (cServer c))
    \<and> (blank (scWorkDir (cServer c)) \<or> fpIsAbs P (scWorkDir (cServer c)))
    \<and> (blank (acAuthorizedKeys (cAuth c)) \<or> fpIsAbs P (acAuthorizedKeys (cAuth c)))
    \<and> normalize P c = c"
  using path_laws.Load_paths[OF assms] path_laws.Load_normal[OF assms] by simp

theorem Load_paths_absolute_and_normal_witness:
  "\<exists>c. Load (unixPaths (Some [])) pwDecoder plainFS ''/c.toml'' = Inr c \<and> unixIsAbs (scHostKey (cServer c))"
  using Load_paths_absolute_and_normal[OF unix.path_laws_axioms Load_example] Load_example by auto

text \<open>An address without a host part passes as loopback: the default address is refused
  without authentication, while the same port with the host left out, on which
  \<open>net.Listen\<close> accepts from every interface, is accepted.\<close>
lemma Validate_accepts_wildcard_without_auth:
  "Validate fs Defaults = Some (Msg [Txt ''refusing to run without authentication on a non-loopback address; set auth.no_auth=true or configure auth.password / auth.authorized_keys''])
   \<and> Validate fs (Defaults\<lparr>cServer := (cServer Defaults)\<lparr>scAddr := '':2222''\<rparr>\<rparr>) = None"
proof -
  have s: "splitHostPort ''0.0.0.0:2222'' = (''0.0.0.0'', ''2222'')" "splitHostPort '':2222'' = ([], ''2222'')"
    and l: "\<not> isLoopback ''0.0.0.0''" "isLoopback []"
    by code_simp+
  show ?thesis by (simp add: Validate_def Let_def Defaults_def logLevels_def s l)
qed

text \<open>\<open>no_auth = true\<close> is accepted on every address, loopback or not.\<close>
lemma Validate_no_auth_any_address:
  "Validate fs (Defaults\<lparr>cServer := (cServer Defaults)\<lparr>scAddr := a\<rparr>, cAuth := (cAuth Defaults)\<lparr>acNoAuth := True\<rparr>\<rparr>) = None
   \<longleftrightarrow> \<not> blank a"
  by (simp add: Validate_None_iff Defaults_def logLevels_def)

text \<open>\<open>WriteTemplate\<close> never changes or removes what exists, and when it succeeds the path
  was free and now holds the whole template with mode 0600.\<close>
lemma WriteTemplate_never_clobbers:
  "(nodes fs q = Some n \<longrightarrow> nodes (snd (WriteTemplate P fs path)) q = Some n)
   \<and> (nodes fs path \<noteq> None \<longrightarrow> fst (WriteTemplate P fs path) \<noteq> None)
   \<and> (fst (WriteTemplate P fs path) = None \<longrightarrow>
        nodes (snd (WriteTemplate P fs path)) path = Some (FileNode configTemplate perm0600))"
proof (intro conjI impI)
  show "nodes (snd (WriteTemplate P fs path)) q = Some n" if "nodes fs q = Some n"
    using that by (rule WriteTemplate_keeps)
  show "fst (WriteTemplate P fs path) \<noteq> None" if "nodes fs path \<noteq> None"
    using that WriteTemplate_ok(1)[of P fs path] by (metis prod.collapse)
  show "nodes (snd (WriteTemplate P fs path)) path = Some (FileNode configTemplate perm0600)"
    if "fst (WriteTemplate P fs path) = None"
    using that WriteTemplate_ok(2)[of P fs path] by (metis prod.collapse)
qed

end
