(* ===== verification/Relay_Auth.thy ===== *)
theory Relay_Auth
  imports Go_OS "HOL-Library.Word"
begin

text \<open>
  \<open>internal/sshserver/auth.go\<close>: the configured credentials, the loading of an
  authorized\_keys file and the two checks. Parsing one key is \<open>gossh.ParseAuthorizedKey\<close>,
  a third-party function and a parameter: it returns the key and the rest of the file, or
  nothing when no key is left. The mutex makes each access to the key list atomic; the
  model's functions are those atomic steps.
\<close>

unbundle bit_operations_syntax

section \<open>Comparing secrets\<close>

text \<open>
  \<open>crypto/subtle\<close>: the bytes are compared without branching on them. \<open>ConstantTimeByteEq\<close>
  subtracts one in 32 bits and reads the sign bit.
\<close>

definition ConstantTimeByteEq :: "8 word \<Rightarrow> 8 word \<Rightarrow> 32 word" where
  "ConstantTimeByteEq x y = drop_bit 31 (ucast (x XOR y) - 1)"

definition charWord :: "char \<Rightarrow> 8 word" where
  "charWord c = word_of_nat (of_char c)"

definition ConstantTimeCompare :: "string \<Rightarrow> string \<Rightarrow> 32 word" where
  "ConstantTimeCompare x y =
     (if length x \<noteq> length y then 0
      else ConstantTimeByteEq
             (fold (\<lambda>(a, b) v. v OR (charWord a XOR charWord b)) (zip x y) 0) 0)"

lemma word_xor_eq_0: "(x :: 'a::len word) XOR y = 0 \<longleftrightarrow> x = y"
proof
  assume "x XOR y = 0"
  then have "(x XOR y) XOR y = 0 XOR y" by simp
  then show "x = y" by (simp add: xor.assoc)
qed simp

lemma ConstantTimeByteEq_eq: "ConstantTimeByteEq x y = (if x = y then 1 else 0)"
proof (cases "x = y")
  case True
  then show ?thesis by (simp add: ConstantTimeByteEq_def)
next
  case False
  let ?v = "ucast (x XOR y) :: 32 word"
  have "unat (x XOR y) < 2 ^ 32" using unsigned_less[of "x XOR y", where 'a = nat] by simp
  then have v: "unat ?v = unat (x XOR y)" by (simp add: unsigned_ucast_eq take_bit_nat_eq_self)
  moreover have "x XOR y \<noteq> 0" using False by (simp add: word_xor_eq_0)
  ultimately have "?v \<noteq> 0" by (metis unat_eq_0)
  then have "unat (?v - 1) = unat (x XOR y) - 1" using v by (simp add: unat_minus_one)
  also have "\<dots> < 2 ^ 31" using unsigned_less[of "x XOR y", where 'a = nat] by simp
  finally have "drop_bit 31 (unat (?v - 1)) = 0" by (simp add: drop_bit_eq_div)
  then have "unat (drop_bit 31 (?v - 1)) = 0" by (simp only: unat_drop_bit_eq)
  then show ?thesis using False by (simp add: ConstantTimeByteEq_def unat_eq_0)
qed

lemma charWord_inj: "charWord a = charWord b \<longleftrightarrow> a = b"
proof -
  have "unat (charWord c) = of_char c" for c
    by (simp add: charWord_def unat_of_nat take_bit_eq_mod)
  then show ?thesis by (metis of_char_eq_iff)
qed

lemma fold_or_xor_zero:
  "length x = length y \<Longrightarrow>
   fold (\<lambda>(a, b) v. v OR (charWord a XOR charWord b)) (zip x y) v = 0 \<longleftrightarrow> v = 0 \<and> x = y"
proof (induction x y arbitrary: v rule: list_induct2)
  case (Cons a x b y)
  have "charWord a XOR charWord b = 0 \<longleftrightarrow> a = b" by (simp add: word_xor_eq_0 charWord_inj)
  with Cons show ?case by (auto simp: or_eq_0_iff)
qed simp

lemma ConstantTimeCompare_eq: "ConstantTimeCompare x y = (if x = y then 1 else 0)"
  using fold_or_xor_zero[of x y 0] by (auto simp: ConstantTimeCompare_def ConstantTimeByteEq_eq)

section \<open>Auth\<close>

record auth =
  aNoAuth :: bool
  aUsername :: string
  aPassword :: string
  aKeys :: "string list"

text \<open>
  The loop over the file: it stops when the parser finds no further key. It stops at all
  only because the parser consumes input, so the loop is a partial function; \<open>None\<close> is a
  loop that never ends.
\<close>

partial_function (option) parseKeys ::
    "(string \<Rightarrow> ('k \<times> string) option) \<Rightarrow> ('k \<Rightarrow> string) \<Rightarrow> string list \<Rightarrow> string \<Rightarrow> string list option" where
  "parseKeys parse marshal keys rest =
     (case parse rest of
        None \<Rightarrow> Some keys
      | Some pr \<Rightarrow> parseKeys parse marshal (keys @ [marshal (fst pr)]) (snd pr))"

definition LoadAuthorizedKeys ::
    "(string \<Rightarrow> ('k \<times> string) option) \<Rightarrow> ('k \<Rightarrow> string) \<Rightarrow> fsys \<Rightarrow> auth \<Rightarrow> string
       \<Rightarrow> (goerr option \<times> auth) option" where
  "LoadAuthorizedKeys parse marshal fs a path =
     (if TrimSpace path = [] then Some (None, a)
      else case osReadFile fs path of
             Inl e \<Rightarrow> Some (Some e, a)
           | Inr raw \<Rightarrow> map_option (\<lambda>keys.
               if length keys = 0
               then (Some (Msg [Txt ''no valid public keys found in authorized_keys file'']), a)
               else (None, a\<lparr>aKeys := keys\<rparr>)) (parseKeys parse marshal [] raw))"

definition PasswordOK :: "auth \<Rightarrow> string \<Rightarrow> string \<Rightarrow> bool" where
  "PasswordOK a user password =
     (if aPassword a = [] then False
      else if aUsername a \<noteq> []
              \<and> (length user \<noteq> length (aUsername a) \<or> ConstantTimeCompare user (aUsername a) \<noteq> 1)
      then False
      else if length password \<noteq> length (aPassword a) then False
      else ConstantTimeCompare password (aPassword a) = 1)"

fun keyInList :: "string \<Rightarrow> string list \<Rightarrow> bool" where
  "keyInList offered [] = False"
| "keyInList offered (k # ks) =
     (if length k = length offered \<and> ConstantTimeCompare k offered = 1 then True
      else keyInList offered ks)"

definition PublicKeyOK :: "('k \<Rightarrow> string) \<Rightarrow> auth \<Rightarrow> 'k \<Rightarrow> bool" where
  "PublicKeyOK marshal a key =
     (if length (aKeys a) = 0 then False else keyInList (marshal key) (aKeys a))"

section \<open>Lemmas\<close>

lemma PasswordOK_iff:
  "PasswordOK a user password \<longleftrightarrow>
     aPassword a \<noteq> [] \<and> (aUsername a = [] \<or> user = aUsername a) \<and> password = aPassword a"
  by (auto simp: PasswordOK_def ConstantTimeCompare_eq)

lemma keyInList_iff: "keyInList offered ks \<longleftrightarrow> offered \<in> set ks"
  by (induction ks) (auto simp: ConstantTimeCompare_eq)

lemma PublicKeyOK_iff: "PublicKeyOK marshal a key \<longleftrightarrow> marshal key \<in> set (aKeys a)"
  by (simp add: PublicKeyOK_def keyInList_iff)

text \<open>
  The keys a parser that consumes input finds in a file, by recursion on the input it is
  given as fuel.
\<close>

fun keysUpTo :: "(string \<Rightarrow> ('k \<times> string) option) \<Rightarrow> nat \<Rightarrow> string \<Rightarrow> 'k list" where
  "keysUpTo parse 0 rest = []"
| "keysUpTo parse (Suc n) rest =
     (case parse rest of None \<Rightarrow> [] | Some (k, rest') \<Rightarrow> k # keysUpTo parse n rest')"

definition consumes :: "(string \<Rightarrow> ('k \<times> string) option) \<Rightarrow> bool" where
  "consumes parse \<longleftrightarrow> (\<forall>s k r. parse s = Some (k, r) \<longrightarrow> length r < length s)"

lemma parseKeys_enough:
  assumes "consumes parse" and "length rest < n"
  shows "parseKeys parse marshal keys rest = Some (keys @ map marshal (keysUpTo parse n rest))"
  using assms(2)
proof (induction n arbitrary: keys rest)
  case (Suc n)
  show ?case
  proof (cases "parse rest")
    case None
    then show ?thesis by (simp add: parseKeys.simps)
  next
    case (Some pr)
    obtain k r where pr: "pr = (k, r)" by (cases pr)
    with Some assms(1) have "length r < length rest" by (auto simp: consumes_def)
    with Suc.prems have "length r < n" by simp
    from Suc.IH[OF this, of "keys @ [marshal k]"] Some pr show ?thesis
      by (subst parseKeys.simps) simp
  qed
qed simp

abbreviation fileKeys :: "(string \<Rightarrow> ('k \<times> string) option) \<Rightarrow> string \<Rightarrow> 'k list" where
  "fileKeys parse raw \<equiv> keysUpTo parse (Suc (length raw)) raw"

section \<open>Properties\<close>

text \<open>With a parser that consumes input, loading an authorized\_keys file ends: a blank path
  changes nothing, an unreadable file or one without a key is an error that leaves the
  old keys in force, and otherwise exactly the keys of the file, in order, are accepted
  from then on.\<close>
lemma LoadAuthorizedKeys_ends:
  assumes "consumes parse"
  shows "LoadAuthorizedKeys parse marshal fs a path =
     Some (if TrimSpace path = [] then (None, a) else case osReadFile fs path of
        Inl e \<Rightarrow> (Some e, a)
      | Inr raw \<Rightarrow> if fileKeys parse raw = []
          then (Some (Msg [Txt ''no valid public keys found in authorized_keys file'']), a)
          else (None, a\<lparr>aKeys := map marshal (fileKeys parse raw)\<rparr>))"
  using parseKeys_enough[OF assms lessI]
  by (simp add: LoadAuthorizedKeys_def del: keysUpTo.simps split: sum.split)

end
