(* ===== verification/Relay_HostKey.thy ===== *)
theory Relay_HostKey
  imports Go_OS
begin

text \<open>
  \<open>internal/sshserver/hostkey.go\<close>: the server's identity key, loaded from a PEM file or
  generated and stored on the first run. RSA generation (\<open>gen\<close>: its outcome), PKCS1/PEM
  encoding (\<open>pemOf\<close>) and \<open>gossh.ParsePrivateKey\<close> (\<open>parse\<close>) are parameters.
\<close>

definition generateHostKeyPEM :: "'key res \<Rightarrow> ('key \<Rightarrow> string) \<Rightarrow> (string \<Rightarrow> 's res) \<Rightarrow> ('s \<times> string) res" where
  "generateHostKeyPEM gen pemOf parse =
     bindR gen (\<lambda>key. let pemBytes = pemOf key in
       bindR (parse pemBytes) (\<lambda>signer. Inr (signer, pemBytes)))"

definition loadOrCreateHostKey ::
    "pathOps \<Rightarrow> 'key res \<Rightarrow> ('key \<Rightarrow> string) \<Rightarrow> (string \<Rightarrow> 's res) \<Rightarrow> fsys \<Rightarrow> string \<Rightarrow> 's res \<times> fsys" where
  "loadOrCreateHostKey P gen pemOf parse fs path =
     (if path = [] then (Inl (Msg [Txt ''host key path is empty'']), fs)
      else case osReadFile fs path of
        Inr raw \<Rightarrow> (wrapR [Txt ''parse host key '', Quoted path] (parse raw), fs)
      | Inl err \<Rightarrow>
          if \<not> errors_Is err ErrNotExist then (Inl (Wrapped [Txt ''read host key '', Quoted path] err), fs)
          else case generateHostKeyPEM gen pemOf parse of
            Inl e \<Rightarrow> (Inl (Wrapped [Txt ''generate host key''] e), fs)
          | Inr (signer, pemBytes) \<Rightarrow>
              (let dir = fpDir P path;
                   (e1, fs1) = (if dir \<noteq> [] \<and> dir \<noteq> ''.'' then osMkdirAll P fs dir perm0700 else (None, fs))
               in case e1 of
                 Some e \<Rightarrow> (Inl (Wrapped [Txt ''mkdir host key dir''] e), fs1)
               | None \<Rightarrow> (case osWriteFile P fs1 path pemBytes perm0600 of
                     (Some e, fs2) \<Rightarrow> (Inl (Wrapped [Txt ''write host key '', Quoted path] e), fs2)
                   | (None, fs2) \<Rightarrow> (Inr signer, fs2))))"

section \<open>Lemmas\<close>

lemma generateHostKeyPEM_ok:
  "generateHostKeyPEM gen pemOf parse = Inr (signer, pemBytes) \<Longrightarrow> parse pemBytes = Inr signer"
  by (auto simp: generateHostKeyPEM_def bindR_eq_Inr Let_def)

definition keyDirs :: "pathOps \<Rightarrow> fsys \<Rightarrow> string \<Rightarrow> goerr option \<times> fsys" where
  "keyDirs P fs path =
     (if fpDir P path \<noteq> [] \<and> fpDir P path \<noteq> ''.'' then osMkdirAll P fs (fpDir P path) perm0700
      else (None, fs))"

lemma keyDirs_keeps: "nodes fs q = Some n \<Longrightarrow> nodes (snd (keyDirs P fs path)) q = Some n"
  by (simp add: keyDirs_def osMkdirAll_keeps)

lemma keyDirs_faults [simp]: "faults (snd (keyDirs P fs path)) = faults fs"
  by (simp add: keyDirs_def frame_simps)

lemma keyDirs_new:
  "nodes (snd (keyDirs P fs path)) q = nodes fs q \<or> nodes (snd (keyDirs P fs path)) q = Some (DirNode perm0700)"
  by (simp add: keyDirs_def osMkdirAll_new)

lemma keyDirs_short:
  "length (fpDir P path) < length path \<Longrightarrow> nodes (snd (keyDirs P fs path)) path = nodes fs path"
  by (simp add: keyDirs_def osMkdirAll_short)

lemma osWriteFile_ok:
  assumes "osWriteFile P fs p c m = (None, fs')"
  shows "faults fs' = faults fs"
    and "\<exists>m'. nodes fs' p = Some (FileNode c m') \<and> (nodes fs p = None \<longrightarrow> m' = m)"
    and "q \<noteq> p \<Longrightarrow> nodes fs' q = nodes fs q"
  using assms
  by (auto simp: osWriteFile_def osOpenTrunc_def osWriteString_def split: option.splits node.splits if_splits prod.splits)

text \<open>The two ways to succeed: the file was there and parses, or it was made.\<close>

lemma loadOrCreateHostKey_ok:
  assumes "loadOrCreateHostKey P gen pemOf parse fs path = (Inr s, fs')"
  shows "path \<noteq> []" and
    "(\<exists>raw. osReadFile fs path = Inr raw \<and> parse raw = Inr s \<and> fs' = fs)
     \<or> (\<exists>err pemBytes fs1. osReadFile fs path = Inl err \<and> errors_Is err ErrNotExist
          \<and> generateHostKeyPEM gen pemOf parse = Inr (s, pemBytes)
          \<and> keyDirs P fs path = (None, fs1)
          \<and> osWriteFile P fs1 path pemBytes perm0600 = (None, fs'))"
  using assms
  by (auto simp: loadOrCreateHostKey_def keyDirs_def Let_def
      split: if_splits sum.splits prod.splits option.splits)

lemma osReadFile_Inr: "osReadFile fs p = Inr raw \<Longrightarrow> faults fs OpRead p = None \<and> (\<exists>m. nodes fs p = Some (FileNode raw m))"
  by (auto simp: osReadFile_def split: option.splits node.splits)

lemma osReadFile_file: "faults fs OpRead p = None \<Longrightarrow> nodes fs p = Some (FileNode c m) \<Longrightarrow> osReadFile fs p = Inr c"
  by (simp add: osReadFile_def)

lemma osReadFile_absent:
  assumes "faultsSane fs" and "osReadFile fs p = Inl err" and "errors_Is err ErrNotExist"
  shows "nodes fs p = None"
  using assms by (auto simp: osReadFile_def faultsSane_def split: option.splits node.splits)

lemma loadOrCreateHostKey_stable:
  assumes "loadOrCreateHostKey P gen pemOf parse fs path = (Inr s, fs')" and "faults fs OpRead path = None"
  shows "loadOrCreateHostKey P gen' pemOf' parse fs' path = (Inr s, fs')"
proof -
  from loadOrCreateHostKey_ok(2)[OF assms(1)] consider
      (old) raw where "osReadFile fs path = Inr raw" "parse raw = Inr s" "fs' = fs"
    | (new) pemBytes fs1 where "generateHostKeyPEM gen pemOf parse = Inr (s, pemBytes)"
        "keyDirs P fs path = (None, fs1)" "osWriteFile P fs1 path pemBytes perm0600 = (None, fs')"
    by blast
  then have "\<exists>raw. osReadFile fs' path = Inr raw \<and> parse raw = Inr s"
  proof cases
    case new
    have "faults fs' OpRead path = None"
      using osWriteFile_ok(1)[OF new(3)] keyDirs_faults[of P fs path] new(2) assms(2) by simp
    then have "osReadFile fs' path = Inr pemBytes"
      using osWriteFile_ok(2)[OF new(3)] by (auto intro: osReadFile_file)
    then show ?thesis using generateHostKeyPEM_ok[OF new(1)] by blast
  qed blast
  then show ?thesis using loadOrCreateHostKey_ok(1)[OF assms(1)] by (auto simp: loadOrCreateHostKey_def)
qed

lemma loadOrCreateHostKey_faults [simp]:
  "faults (snd (loadOrCreateHostKey P gen pemOf parse fs path)) = faults fs"
proof -
  have wr: "faults (snd (osWriteFile P fs1 path pemBytes perm0600)) = faults fs1" for fs1 pemBytes
    by (simp add: frame_simps)
  have md: "faults (snd (osMkdirAll P fs dir perm0700)) = faults fs" for dir
    by (simp add: frame_simps)
  from wr md show ?thesis
    by (auto simp: loadOrCreateHostKey_def Let_def split: sum.splits prod.splits option.splits if_splits)
       (metis snd_conv)+
qed

text \<open>A file that exists is never written to, whether it parses, fails to parse or cannot be
  read; and nothing else that exists is changed or removed.\<close>

lemma host_key_keeps:
  assumes "faultsSane fs" and "nodes fs q = Some n"
  shows "nodes (snd (loadOrCreateHostKey P gen pemOf parse fs path)) q = Some n"
proof (cases "\<exists>err. osReadFile fs path = Inl err \<and> errors_Is err ErrNotExist")
  case False
  then show ?thesis using assms(2) by (auto simp: loadOrCreateHostKey_def split: sum.splits)
next
  case True
  then have "nodes fs path = None" using assms(1) osReadFile_absent by blast
  with assms(2) have qp: "q \<noteq> path" by auto
  have dirs: "nodes (snd (keyDirs P fs path)) q = Some n" using assms(2) by (rule keyDirs_keeps)
  have wr: "nodes (snd (osWriteFile P fs1 path pemBytes perm0600)) q = nodes fs1 q" for fs1 pemBytes
    using qp by (simp add: frame_simps)
  from True assms(2) dirs wr[of "snd (keyDirs P fs path)"] show ?thesis
    by (auto simp: loadOrCreateHostKey_def keyDirs_def Let_def split: sum.splits prod.splits option.splits if_splits)
       (metis snd_conv)+
qed

text \<open>A key made on the first run is stored with mode 0600 under the configured path, what is
  stored parses to the signer in use, and beside it only directories (mode 0700) appear.\<close>

lemma host_key_created:
  assumes "loadOrCreateHostKey P gen pemOf parse fs path = (Inr s, fs')"
    and "nodes fs path = None" and "length (fpDir P path) < length path"
  shows "(\<exists>pemBytes. nodes fs' path = Some (FileNode pemBytes perm0600) \<and> parse pemBytes = Inr s)
    \<and> (\<forall>q. q \<noteq> path \<longrightarrow> nodes fs' q = nodes fs q \<or> nodes fs' q = Some (DirNode perm0700))"
proof -
  have nr: "\<not> (\<exists>raw. osReadFile fs path = Inr raw)"
    using osReadFile_Inr assms(2) by fastforce
  with loadOrCreateHostKey_ok(2)[OF assms(1)] obtain pemBytes fs1
    where new: "generateHostKeyPEM gen pemOf parse = Inr (s, pemBytes)"
        "keyDirs P fs path = (None, fs1)" "osWriteFile P fs1 path pemBytes perm0600 = (None, fs')"
    by blast
  have "nodes fs1 path = None"
    using keyDirs_short[OF assms(3), of fs] new(2) assms(2) by simp
  with osWriteFile_ok(2)[OF new(3)] generateHostKeyPEM_ok[OF new(1)]
    osWriteFile_ok(3)[OF new(3)] keyDirs_new[of P fs path] new(2)
  show ?thesis by auto
qed

text \<open>
  But a write that fails half way leaves the part it wrote under the configured path, and when
  that part does not parse, every later start fails on it.
\<close>

lemma host_key_partial:
  assumes "path \<noteq> []" and "osReadFile fs path = Inl err" and "errors_Is err ErrNotExist"
    and "generateHostKeyPEM gen pemOf parse = Inr (s, pemBytes)" and "pemBytes \<noteq> []"
    and "keyDirs P fs path = (None, fs1)" and "nodes fs1 path = None" and "osOpenTrunc P fs1 path perm0600 = (None, fs2)"
    and "faults fs OpWriteFD path = Some e" and "faults fs OpRead path = None"
    and "parse (take (shortWrite fs2 path) pemBytes) = Inl e2"
  shows "\<exists>fs'. loadOrCreateHostKey P gen pemOf parse fs path = (Inl (Wrapped [Txt ''write host key '', Quoted path] e), fs')
    \<and> loadOrCreateHostKey P gen' pemOf' parse fs' path = (Inl (Wrapped [Txt ''parse host key '', Quoted path] e2), fs')"
proof -
  have f1: "faults fs1 = faults fs" using keyDirs_faults[of P fs path] assms(6) by simp
  have n2: "nodes fs2 path = Some (FileNode [] perm0600)" and f2: "faults fs2 = faults fs"
    using assms(7,8) f1 by (auto simp: osOpenTrunc_def split: option.splits if_splits)
  let ?fs' = "setNode fs2 path (FileNode (take (shortWrite fs2 path) pemBytes) perm0600)"
  have w: "osWriteFile P fs1 path pemBytes perm0600 = (Some e, ?fs')"
    using assms(5,8,9) n2 f2 by (simp add: osWriteFile_def osWriteString_def)
  have "loadOrCreateHostKey P gen pemOf parse fs path = (Inl (Wrapped [Txt ''write host key '', Quoted path] e), ?fs')"
    using assms(1-4,6) w by (simp add: loadOrCreateHostKey_def keyDirs_def Let_def)
  moreover have "osReadFile ?fs' path = Inr (take (shortWrite fs2 path) pemBytes)"
    using assms(10) f2 by (simp add: osReadFile_def)
  then have "loadOrCreateHostKey P gen' pemOf' parse ?fs' path = (Inl (Wrapped [Txt ''parse host key '', Quoted path] e2), ?fs')"
    using assms(1,11) by (simp add: loadOrCreateHostKey_def wrapR_def)
  ultimately show ?thesis by blast
qed

section \<open>Properties\<close>

text \<open>C9: The host identity is stable: once a start got a signer, every later start on the file
  system it left behind gets the same one and changes nothing, whatever a fresh key
  generation would have produced.\<close>
theorem host_key_stable_across_restarts:
  assumes "loadOrCreateHostKey P gen pemOf parse fs path = (Inr s, fs')" and "faults fs OpRead path = None"
  shows "loadOrCreateHostKey P gen' pemOf' parse fs' path = (Inr s, fs')"
  using assms by (rule loadOrCreateHostKey_stable)

definition bareFS :: fsys where
  "bareFS = \<lparr>nodes = Map.empty, faults = (\<lambda>op p. None), shortWrite = (\<lambda>p. 0)\<rparr>"

theorem host_key_stable_across_restarts_witness:
  "\<exists>fs'. loadOrCreateHostKey (unixPaths None) (Inr (1::nat)) (\<lambda>k. ''pem'') Inr bareFS ''k'' = (Inr ''pem'', fs')
     \<and> loadOrCreateHostKey (unixPaths None) (Inr (2::nat)) (\<lambda>k. ''new'') Inr fs' ''k'' = (Inr ''pem'', fs')"
proof -
  have d: "unixDir ''k'' = ''.''" by code_simp
  let ?fs = "setNode bareFS ''k'' (FileNode ''pem'' perm0600)"
  have 1: "loadOrCreateHostKey (unixPaths None) (Inr (1::nat)) (\<lambda>k. ''pem'') Inr bareFS ''k'' = (Inr ''pem'', ?fs)"
    by (simp add: loadOrCreateHostKey_def generateHostKeyPEM_def osReadFile_def osWriteFile_def osOpenTrunc_def osWriteString_def parentOK_def
        bareFS_def d Let_def)
  from host_key_stable_across_restarts[OF this, of "Inr (2::nat)" "\<lambda>k. ''new''"] 1 show ?thesis
    by (auto simp: bareFS_def)
qed

text \<open>C29: What loading or creating the host key does to the files: nothing that exists is changed
  or removed, whatever the outcome, so a key file that does not parse or cannot be read is
  never overwritten; and a key made on the first run is stored under its path with mode
  0600, parses to the signer in use, and only directories (mode 0700) appear beside it.\<close>
theorem host_key_files:
  assumes "faultsSane fs" and "loadOrCreateHostKey P gen pemOf parse fs path = (r, fs')"
  shows "(\<forall>q n. nodes fs q = Some n \<longrightarrow> nodes fs' q = Some n)
    \<and> (\<forall>s. r = Inr s \<and> nodes fs path = None \<and> length (fpDir P path) < length path \<longrightarrow>
         (\<exists>pemBytes. nodes fs' path = Some (FileNode pemBytes perm0600) \<and> parse pemBytes = Inr s)
         \<and> (\<forall>q. q \<noteq> path \<longrightarrow> nodes fs' q = nodes fs q \<or> nodes fs' q = Some (DirNode perm0700)))"
proof -
  have "nodes fs' q = Some n" if "nodes fs q = Some n" for q n
    using host_key_keeps[OF assms(1) that, of P gen pemOf parse path] assms(2) by simp
  moreover have "(\<exists>pemBytes. nodes fs' path = Some (FileNode pemBytes perm0600) \<and> parse pemBytes = Inr s)
      \<and> (\<forall>q. q \<noteq> path \<longrightarrow> nodes fs' q = nodes fs q \<or> nodes fs' q = Some (DirNode perm0700))"
    if "r = Inr s" "nodes fs path = None" "length (fpDir P path) < length path" for s
    by (rule host_key_created[OF _ that(2,3)]) (use assms(2) that(1) in simp)
  ultimately show ?thesis by blast
qed

theorem host_key_files_witness:
  "\<exists>fs'. loadOrCreateHostKey (unixPaths None) (Inr (1::nat)) (\<lambda>k. ''pem'') Inr bareFS ''/d/k'' = (Inr ''pem'', fs')
     \<and> nodes fs' ''/d/k'' = Some (FileNode ''pem'' perm0600)"
proof -
  have d: "unixDir ''/d/k'' = ''/d''" "unixDir ''/d'' = ''/''" "unixDir ''/'' = ''/''" by code_simp+
  obtain fs' where 1: "loadOrCreateHostKey (unixPaths None) (Inr (1::nat)) (\<lambda>k. ''pem'') Inr bareFS ''/d/k'' = (Inr ''pem'', fs')"
    by (simp add: loadOrCreateHostKey_def generateHostKeyPEM_def osReadFile_def osWriteFile_def osOpenTrunc_def osWriteString_def parentOK_def
        bareFS_def d Let_def osMkdirAll.simps osMkdir_def dirExists_def)
  have "faultsSane bareFS" by (simp add: faultsSane_def bareFS_def)
  from host_key_files[OF this 1] 1 show ?thesis by (simp add: bareFS_def d)
qed

end
