(* ===== verification/Go_Host.thy ===== *)
theory Go_Host
  imports Go_OS Go_Unicode
begin

text \<open>
  The host as the program sees it: \<open>runtime.GOOS\<close>, the path functions and the case table of
  the platform, the process environment, and what \<open>exec.LookPath\<close> answers (it depends on
  the executables installed, so it is part of the host's state).
\<close>

record hostEnv =
  hGOOS :: goos
  hPaths :: pathOps
  hCase :: caseTable
  hGetenv :: "string \<Rightarrow> string"
  hEnviron :: "string list"
  hLookPath :: "string \<Rightarrow> string res"

text \<open>\<open>os.UserHomeDir\<close>: one environment variable, which must not be empty.\<close>

definition osUserHomeDir :: "hostEnv \<Rightarrow> string res" where
  "osUserHomeDir h =
     (let v = hGetenv h (if hGOOS h = Windows then ''USERPROFILE'' else ''HOME'') in
      if v \<noteq> [] then Inr v else Inl (LibErr ''home directory is not defined''))"

lemma osUserHomeDir_nonempty: "osUserHomeDir h = Inr d \<Longrightarrow> d \<noteq> []"
  by (auto simp: osUserHomeDir_def Let_def split: if_splits)

end
