(* ===== verification/Go_Slog.thy ===== *)
theory Go_Slog
  imports Relay_Prelude
begin

text \<open>
  The part of \<open>log/slog\<close> the program uses: records with a level, a message and attributes,
  and the default logger of the process, whose handler drops what is below its level.
  Formatting a record as a line is the library's.
\<close>

section \<open>Levels and records\<close>

datatype logLevel = LevelDebug | LevelInfo | LevelWarn | LevelError

fun levelNum :: "logLevel \<Rightarrow> int" where
  "levelNum LevelDebug = -4"
| "levelNum LevelInfo = 0"
| "levelNum LevelWarn = 4"
| "levelNum LevelError = 8"

datatype logValue = LStr string | LBool bool | LErr goerr

record logRecord =
  lrLevel :: logLevel
  lrMessage :: string
  lrAttrs :: "(string \<times> logValue) list"

abbreviation logDebug :: "string \<Rightarrow> (string \<times> logValue) list \<Rightarrow> logRecord" where
  "logDebug msg attrs \<equiv> \<lparr>lrLevel = LevelDebug, lrMessage = msg, lrAttrs = attrs\<rparr>"

abbreviation logInfo :: "string \<Rightarrow> (string \<times> logValue) list \<Rightarrow> logRecord" where
  "logInfo msg attrs \<equiv> \<lparr>lrLevel = LevelInfo, lrMessage = msg, lrAttrs = attrs\<rparr>"

abbreviation logError :: "string \<Rightarrow> (string \<times> logValue) list \<Rightarrow> logRecord" where
  "logError msg attrs \<equiv> \<lparr>lrLevel = LevelError, lrMessage = msg, lrAttrs = attrs\<rparr>"

section \<open>The default logger\<close>

text \<open>A handler: its level, and the log file it writes to beside standard error.\<close>

type_synonym logHandler = "logLevel \<times> string option"

record slogger =
  slHandler :: logHandler
  slWritten :: "logRecord list"

definition logEnabled :: "logHandler \<Rightarrow> logLevel \<Rightarrow> bool" where
  "logEnabled h l \<longleftrightarrow> levelNum (fst h) \<le> levelNum l"

definition slog :: "logRecord \<Rightarrow> slogger \<Rightarrow> slogger" where
  "slog r s = (if logEnabled (slHandler s) (lrLevel r) then s\<lparr>slWritten := slWritten s @ [r]\<rparr> else s)"

text \<open>\<open>slog.SetDefault\<close>: later records go to the new handler.\<close>

definition slogSetDefault :: "logHandler \<Rightarrow> slogger \<Rightarrow> slogger" where
  "slogSetDefault h s = s\<lparr>slHandler := h\<rparr>"

text \<open>A function of the program that answers and logs.\<close>

type_synonym 'a logged = "'a \<times> logRecord list"

section \<open>Lemmas\<close>

lemma slog_simps [simp]:
  "slHandler (slog r s) = slHandler s"
  "slWritten (slog r s) = slWritten s @ (if logEnabled (slHandler s) (lrLevel r) then [r] else [])"
  by (simp_all add: slog_def)

lemma slogSetDefault_simps [simp]:
  "slHandler (slogSetDefault h s) = h" "slWritten (slogSetDefault h s) = slWritten s"
  by (simp_all add: slogSetDefault_def)

lemma fold_slog [simp]:
  "slHandler (fold slog rs s) = slHandler s"
  "slWritten (fold slog rs s) = slWritten s @ filter (\<lambda>r. logEnabled (slHandler s) (lrLevel r)) rs"
  by (induction rs arbitrary: s) simp_all

text \<open>An error is written whatever the level; a handler at \<open>info\<close> drops debug records.\<close>

lemma logEnabled_simps [simp]:
  "logEnabled h LevelError"
  "logEnabled h LevelDebug \<longleftrightarrow> fst h = LevelDebug"
  "logEnabled h LevelInfo \<longleftrightarrow> fst h = LevelDebug \<or> fst h = LevelInfo"
  by (cases "fst h"; simp add: logEnabled_def)+

end
