(* ===== verification/Relay_Session.thy ===== *)
theory Relay_Session
  imports Go_Host Go_Slog Relay_Env_Facts
begin

text \<open>
  \<open>internal/sshserver/session.go\<close> with \<open>pty_unix.go\<close> and \<open>pty_windows.go\<close>: which process a
  session channel runs, and the life of one session as a step relation. The handler, the
  goroutine that forwards signals, the client and the process interleave; the SSH library
  (\<open>ssh.Session\<close>), the PTY library and the SFTP server are outside the repository: what
  they answer is in \<open>sessParams\<close>, and the calls made on the session are recorded as events.
\<close>

section \<open>Signals\<close>

datatype osSignal = SIGTERM | SIGINT | SIGKILL | SIGHUP

definition sshSignalToOSSig :: "string \<Rightarrow> osSignal option" where
  "sshSignalToOSSig sig =
     (if sig = ''TERM'' then Some SIGTERM
      else if sig = ''INT'' then Some SIGINT
      else if sig = ''KILL'' then Some SIGKILL
      else if sig = ''HUP'' then Some SIGHUP
      else None)"

section \<open>The shell\<close>

text \<open>The first name of a list that \<open>exec.LookPath\<close> resolves, resolved.\<close>

fun firstOnPath :: "hostEnv \<Rightarrow> string list \<Rightarrow> string option" where
  "firstOnPath h [] = None"
| "firstOnPath h (n # ns) = (case hLookPath h n of Inr p \<Rightarrow> Some p | Inl e \<Rightarrow> firstOnPath h ns)"

fun firstThere :: "fsys \<Rightarrow> string list \<Rightarrow> string option" where
  "firstThere fs [] = None"
| "firstThere fs (n # ns) = (case osStat fs n of Inr i \<Rightarrow> Some n | Inl e \<Rightarrow> firstThere fs ns)"

definition defaultShellArgs :: "hostEnv \<Rightarrow> fsys \<Rightarrow> string \<Rightarrow> string list" where
  "defaultShellArgs h fs shellOverride =
     (if TrimSpace shellOverride \<noteq> [] then Fields shellOverride
      else if hGOOS h = Windows then
        (case firstOnPath h [''pwsh.exe'', ''powershell.exe'', ''cmd.exe''] of
           Some p \<Rightarrow> [p]
         | None \<Rightarrow> [''cmd.exe''])
      else
        (let sh = TrimSpace (hGetenv h ''SHELL'');
             fallback = (case firstThere fs [''/bin/zsh'', ''/bin/bash'', ''/bin/sh''] of
                           Some s \<Rightarrow> [s]
                         | None \<Rightarrow> [''/bin/sh''])
         in if sh \<noteq> [] then (case hLookPath h sh of Inr p \<Rightarrow> Fields sh | Inl e \<Rightarrow> fallback)
            else fallback))"

section \<open>The command\<close>

text \<open>\<open>exec.Cmd\<close>: the fields the handler sets.\<close>

record cmd =
  cArgs :: "string list"
  cEnv :: "string list"
  cDir :: string
  cStdio :: bool
  cSetsid :: bool

definition sessionEnv :: "hostEnv \<Rightarrow> registry \<Rightarrow> string list" where
  "sessionEnv h R =
     (if hGOOS h = Windows then sessionEnvWindows (hCase h) CHR '';'' (hEnviron h) R
      else sessionEnvOther (hEnviron h))"

definition setPtySysProcAttr :: "hostEnv \<Rightarrow> cmd \<Rightarrow> cmd" where
  "setPtySysProcAttr h c = (if hGOOS h = Windows then c else c\<lparr>cSetsid := True\<rparr>)"

text \<open>
  What a session sees: the host, the server's settings, the client's request (its command
  and the terminal name of a PTY request), and the outcomes of starting the process and of
  waiting for it (\<open>None\<close>: no \<open>ProcessState\<close>). \<open>spPtyCopies\<close> are the streams that the PTY library
  has \<open>os/exec\<close> copy for a PTY session (none, where it hands the terminal itself to the process).
\<close>

datatype stdStream = Stdin | Stdout | Stderr

record sessParams =
  spHost :: hostEnv
  spFS :: fsys
  spRegistry :: registry
  spShell :: string
  spWorkDir :: string
  spCommand :: "string list"
  spPty :: "string option"
  spPtyCopies :: "stdStream list"
  spStart :: "cmd \<Rightarrow> goerr option"
  spErrText :: "goerr \<Rightarrow> string"

text \<open>
  The handler up to the start of the process. \<open>cmdArgs[0]\<close> of an empty slice panics:
  \<open>None\<close>.
\<close>

definition sessionArgs :: "sessParams \<Rightarrow> string list" where
  "sessionArgs p =
     (if length (spCommand p) = 0 then defaultShellArgs (spHost p) (spFS p) (spShell p)
      else spCommand p)"

definition buildCmd :: "sessParams \<Rightarrow> cmd option" where
  "buildCmd p =
     (case sessionArgs p of
        [] \<Rightarrow> None
      | a # args \<Rightarrow>
          Some \<lparr>cArgs = a # args, cEnv = sessionEnv (spHost p) (spRegistry p),
                cDir = (if spWorkDir p \<noteq> [] then spWorkDir p else []),
                cStdio = False, cSetsid = False\<rparr>)"

definition attachCmd :: "sessParams \<Rightarrow> cmd \<Rightarrow> cmd" where
  "attachCmd p c =
     (case spPty p of
        Some tname \<Rightarrow>
          (let c1 = setPtySysProcAttr (spHost p) c
           in c1\<lparr>cEnv := replaceEnv (hCase (spHost p)) (cEnv c1) ''TERM'' tname\<rparr>)
      | None \<Rightarrow> c\<lparr>cStdio := True\<rparr>)"

section \<open>The life of a session\<close>

datatype sessEvent =
    Started cmd
  | WriteOut string
  | Signalled osSignal
  | SessExit int

text \<open>
  The handler's position: about to start the process; in \<open>cmd.Wait\<close>, waiting for the process or,
  the process having been waited for (with its exit code, if there is a process state), for
  the goroutines that copy its streams; back from \<open>cmd.Wait\<close>; returned.
\<close>

datatype pc = Starting cmd | Waiting | Draining "int option" | Reaped "int option" | Returned

text \<open>\<open>cmd.Process\<close>: not set, running, or waited for (then signalling it is an error).\<close>

datatype procState = NoProcess | Running | ProcessDone

text \<open>
  The forwarding goroutine: at the channel, with a signal it has received, or about to
  deliver it to the process it saw.
\<close>

datatype forwarder = Receiving | Checking string | Delivering osSignal

record sessState =
  sPc :: pc
  sProc :: procState
  sSigCh :: "string list"
  sFwd :: forwarder
  sCopying :: "stdStream list"
  sSent :: "string list"
  sEvents :: "sessEvent list"

definition sigChCap :: nat where "sigChCap = 8"

definition emit :: "sessEvent \<Rightarrow> sessState \<Rightarrow> sessState" where
  "emit e s = s\<lparr>sEvents := sEvents s @ [e]\<rparr>"

text \<open>
  The turns of the forwarding goroutine: a signal that it checks before \<open>cmd.Process\<close> is set is
  dropped, an unknown one too; between the check and the delivery the process may end, and
  signalling a process that was waited for fails.
\<close>

definition checkSignal :: "string \<Rightarrow> sessState \<Rightarrow> sessState" where
  "checkSignal sig s =
     (if sProc s = NoProcess then s\<lparr>sFwd := Receiving\<rparr>
      else case sshSignalToOSSig sig of
             Some osSig \<Rightarrow> s\<lparr>sFwd := Delivering osSig\<rparr>
           | None \<Rightarrow> s\<lparr>sFwd := Receiving\<rparr>)"

definition deliverSignal :: "osSignal \<Rightarrow> sessState \<Rightarrow> sessState" where
  "deliverSignal osSig s =
     (if sProc s = Running then emit (Signalled osSig) s else s)\<lparr>sFwd := Receiving\<rparr>"

text \<open>
  Starting the process. Without a PTY the session is its standard input and output: none of
  them is a file, so \<open>os/exec\<close> starts one goroutine for each that copies between a pipe and the
  session (\<open>sess\<close> and \<open>sess.Stderr()\<close> are different writers). A goroutine is finished when its
  stream has ended: the standard input when the client has closed it, the others when every
  process that holds the pipe has.
\<close>

definition copiedStreams :: "sessParams \<Rightarrow> stdStream list" where
  "copiedStreams p = (case spPty p of Some tname \<Rightarrow> spPtyCopies p | None \<Rightarrow> [Stdin, Stdout, Stderr])"

definition startProcess :: "sessParams \<Rightarrow> cmd \<Rightarrow> sessState \<Rightarrow> sessState" where
  "startProcess p c s =
     (let c' = attachCmd p c in
      case spStart p c' of
        Some err \<Rightarrow>
          (emit (SessExit 1) (emit (WriteOut (spErrText p err @ [CHR 0x0A])) s))\<lparr>sPc := Returned\<rparr>
      | None \<Rightarrow> (emit (Started c') s)\<lparr>sProc := Running, sPc := Waiting, sCopying := copiedStreams p\<rparr>)"

definition finishSession :: "int option \<Rightarrow> sessState \<Rightarrow> sessState" where
  "finishSession ps s =
     (let exitCode = (case ps of Some code \<Rightarrow> code | None \<Rightarrow> 127)
      in (emit (SessExit exitCode) s)\<lparr>sPc := Returned\<rparr>)"

definition sessInit :: "cmd \<Rightarrow> sessState" where
  "sessInit c = \<lparr>sPc = Starting c, sProc = NoProcess, sSigCh = [], sFwd = Receiving, sCopying = [],
     sSent = [], sEvents = []\<rparr>"

text \<open>
  The session's own steps: the goroutine receives a signal, checks it and delivers it, the
  handler starts the process, comes back from \<open>cmd.Wait\<close> once the process was waited for and
  no stream is left to copy, and reports the code. Nobody closes the channel, so the
  goroutine has no step that ends it.
\<close>

inductive own_step :: "sessParams \<Rightarrow> sessState \<Rightarrow> sessState \<Rightarrow> bool" for p where
  receive: "sFwd s = Receiving \<Longrightarrow> sSigCh s = sig # rest \<Longrightarrow>
     own_step p s (s\<lparr>sSigCh := rest, sFwd := Checking sig\<rparr>)"
| check: "sFwd s = Checking sig \<Longrightarrow> own_step p s (checkSignal sig s)"
| deliver: "sFwd s = Delivering osSig \<Longrightarrow> own_step p s (deliverSignal osSig s)"
| start: "sPc s = Starting c \<Longrightarrow> own_step p s (startProcess p c s)"
| drained: "sPc s = Draining ps \<Longrightarrow> sCopying s = [] \<Longrightarrow> own_step p s (s\<lparr>sPc := Reaped ps\<rparr>)"
| finish: "sPc s = Reaped ps \<Longrightarrow> own_step p s (finishSession ps s)"

text \<open>
  The steps of its environment: the client sends a signal (the channel holds eight), the
  process ends, with which the waiting handler has its state, and a stream ends.
\<close>

inductive env_step :: "sessState \<Rightarrow> sessState \<Rightarrow> bool" where
  send: "length (sSigCh s) < sigChCap \<Longrightarrow>
     env_step s (s\<lparr>sSigCh := sSigCh s @ [sig], sSent := sSent s @ [sig]\<rparr>)"
| exits: "sPc s = Waiting \<Longrightarrow> env_step s (s\<lparr>sPc := Draining ps, sProc := ProcessDone\<rparr>)"
| streamEnds: "x \<in> set (sCopying s) \<Longrightarrow> env_step s (s\<lparr>sCopying := remove1 x (sCopying s)\<rparr>)"

text \<open>The interleavings of the two.\<close>

inductive sess_step :: "sessParams \<Rightarrow> sessState \<Rightarrow> sessState \<Rightarrow> bool" for p where
  own: "own_step p s s' \<Longrightarrow> sess_step p s s'"
| env: "env_step s s' \<Longrightarrow> sess_step p s s'"

inductive sess_reach :: "sessParams \<Rightarrow> sessState \<Rightarrow> bool" for p where
  init: "buildCmd p = Some c \<Longrightarrow> sess_reach p (sessInit c)"
| step: "sess_reach p s \<Longrightarrow> sess_step p s s' \<Longrightarrow> sess_reach p s'"

inductive_simps own_step_iff: "own_step p s s'"
inductive_simps env_step_iff: "env_step s s'"
inductive_cases sess_stepE: "sess_step p s s'"

section \<open>SFTP\<close>

text \<open>
  The subsystem: \<open>newServer\<close> and \<open>served\<close> are the outcomes of \<open>sftp.NewServer\<close> on the options
  it is given (the working directory, if any) and of \<open>Serve\<close>.
\<close>

datatype sftpEvent = SftpServe "string list" | SftpLog logRecord | SftpClose | SftpExit int

definition handleSftpSubsystem ::
    "string \<Rightarrow> (string list \<Rightarrow> goerr option) \<Rightarrow> goerr option \<Rightarrow> sftpEvent list" where
  "handleSftpSubsystem workDir newServer served =
     (let opts = (if workDir \<noteq> [] then [workDir] else []) in
      case newServer opts of
        Some err \<Rightarrow> [SftpLog (logError ''sftp server start'' [(''err'', LErr err)]), SftpExit 1]
      | None \<Rightarrow>
          [SftpServe opts]
          @ (case served of
               Some err \<Rightarrow> [SftpLog (logDebug ''sftp server stopped'' [(''err'', LErr err)])]
             | None \<Rightarrow> [])
          @ [SftpClose, SftpExit 0])"

end
