(* ===== verification/Relay_Session_Facts.thy ===== *)
theory Relay_Session_Facts
  imports Relay_Session
begin

text \<open>
  The session's command, the invariant of its interleavings and what follows from it: one exit
  code, faithful signals, and when a session ends.
\<close>

section \<open>The shell\<close>

lemma defaultShellArgs_nonempty: "defaultShellArgs h fs override \<noteq> []"
  unfolding defaultShellArgs_def Let_def
  by (simp add: Fields_empty_iff del: firstOnPath.simps firstThere.simps split: option.split sum.split)

lemma sessionArgs_nonempty: "sessionArgs p \<noteq> []"
  by (simp add: sessionArgs_def defaultShellArgs_nonempty)

lemma buildCmd_eq:
  "buildCmd p = Some \<lparr>cArgs = sessionArgs p, cEnv = sessionEnv (spHost p) (spRegistry p),
     cDir = spWorkDir p, cStdio = False, cSetsid = False\<rparr>"
  using sessionArgs_nonempty[of p] by (cases "sessionArgs p") (auto simp: buildCmd_def)

section \<open>The life of a session\<close>

definition isExit :: "sessEvent \<Rightarrow> bool" where
  "isExit e = (case e of SessExit c \<Rightarrow> True | _ \<Rightarrow> False)"

definition signals :: "sessEvent list \<Rightarrow> osSignal list" where
  "signals es = List.map_filter (\<lambda>e. case e of Signalled s \<Rightarrow> Some s | _ \<Rightarrow> None) es"

lemma isExit_simps [simp]:
  "isExit (SessExit c)" "\<not> isExit (Started d)" "\<not> isExit (WriteOut t)" "\<not> isExit (Signalled g)"
  by (simp_all add: isExit_def)

lemma signals_simps [simp]:
  "signals [] = []"
  "signals (a @ b) = signals a @ signals b"
  "signals (Signalled g # b) = g # signals b" "signals (Started d # b) = signals b"
  "signals (WriteOut t # b) = signals b" "signals (SessExit c # b) = signals b"
  by (simp_all add: signals_def List.map_filter_def)

text \<open>The signals a client sent, as far as the host knows them.\<close>

definition known :: "string list \<Rightarrow> osSignal list" where
  "known sigs = List.map_filter sshSignalToOSSig sigs"

lemma known_simps [simp]:
  "known [] = []" "known (a @ b) = known a @ known b"
  "known [g] = (case sshSignalToOSSig g of None \<Rightarrow> [] | Some o' \<Rightarrow> [o'])"
  by (simp_all add: known_def List.map_filter_def split: option.split)

text \<open>
  The invariant: which events have been recorded at each position of the handler and where no
  stream is being copied, and that
  the delivered signals are, in order, among those taken out of the channel.
\<close>

fun pcOK :: "sessParams \<Rightarrow> sessState \<Rightarrow> pc \<Rightarrow> bool" where
  "pcOK p s (Starting c) = (buildCmd p = Some c \<and> sProc s = NoProcess \<and> sCopying s = [] \<and> sEvents s = [])"
| "pcOK p s Waiting = (sProc s = Running \<and> (\<exists>c gs. buildCmd p = Some c \<and> spStart p (attachCmd p c) = None
      \<and> sEvents s = Started (attachCmd p c) # map Signalled gs))"
| "pcOK p s (Draining ps) = (sProc s = ProcessDone \<and> (\<exists>c gs. buildCmd p = Some c \<and> spStart p (attachCmd p c) = None
      \<and> sEvents s = Started (attachCmd p c) # map Signalled gs))"
| "pcOK p s (Reaped ps) = (sProc s = ProcessDone \<and> sCopying s = [] \<and> (\<exists>c gs. buildCmd p = Some c \<and> spStart p (attachCmd p c) = None
      \<and> sEvents s = Started (attachCmd p c) # map Signalled gs))"
| "pcOK p s Returned = (sCopying s = [] \<and> (\<exists>c. buildCmd p = Some c \<and>
      (case spStart p (attachCmd p c) of
         Some err \<Rightarrow> sProc s = NoProcess \<and> sEvents s = [WriteOut (spErrText p err @ [CHR 0x0A]), SessExit 1]
       | None \<Rightarrow> sProc s = ProcessDone \<and> (\<exists>gs code. sEvents s = Started (attachCmd p c) # map Signalled gs @ [SessExit code]))))"

text \<open>What the goroutine holds: a signal it has not checked, a delivery it has decided on.\<close>

definition inHand :: "sessState \<Rightarrow> string list" where
  "inHand s = (case sFwd s of Checking sig \<Rightarrow> [sig] | _ \<Rightarrow> [])"

definition due :: "sessState \<Rightarrow> osSignal list" where
  "due s = (case sFwd s of Delivering g \<Rightarrow> [g] | _ \<Rightarrow> [])"

definition sessOK :: "sessParams \<Rightarrow> sessState \<Rightarrow> bool" where
  "sessOK p s \<longleftrightarrow> pcOK p s (sPc s)
     \<and> (\<exists>taken. sSent s = taken @ inHand s @ sSigCh s \<and> subseq (signals (sEvents s) @ due s) (known taken))
     \<and> length (sSigCh s) \<le> sigChCap"

lemma emit_simps [simp]:
  "sPc (emit e s) = sPc s" "sProc (emit e s) = sProc s" "sSigCh (emit e s) = sSigCh s"
  "sSent (emit e s) = sSent s" "sCopying (emit e s) = sCopying s" "sEvents (emit e s) = sEvents s @ [e]" "sFwd (emit e s) = sFwd s"
  by (simp_all add: emit_def)

lemma sessOK_init: "buildCmd p = Some c \<Longrightarrow> sessOK p (sessInit c)"
  by (simp add: sessOK_def sessInit_def inHand_def due_def)

lemma pcOK_forward:
  assumes "pcOK p s (sPc s)" and "sProc s = Running"
  shows "pcOK p (emit (Signalled g) s) (sPc s)"
proof -
  have "sPc s = Waiting" using assms by (cases "sPc s") (auto split: option.splits)
  moreover from assms this obtain c gs where "buildCmd p = Some c" "spStart p (attachCmd p c) = None"
      "sEvents s = Started (attachCmd p c) # map Signalled gs" by auto
  ultimately show ?thesis using assms(2) by (auto intro!: exI[of _ "gs @ [g]"])
qed

lemma pcOK_cong:
  "sProc s' = sProc s \<Longrightarrow> sCopying s' = sCopying s \<Longrightarrow> sEvents s' = sEvents s \<Longrightarrow> pcOK p s' q = pcOK p s q"
  by (cases q) (simp_all split: option.split)

lemma subseq_shorter: "subseq (a @ b) c \<Longrightarrow> subseq a c"
  using subseq_rev_drop_many[OF subseq_order.order_refl] by (metis subseq_order.order_trans)

lemma subseq_known_taken:
  "subseq gs (known taken) \<Longrightarrow> subseq (gs @ known [sig]) (known (taken @ [sig]))"
  "subseq gs (known taken) \<Longrightarrow> subseq gs (known (taken @ [sig]))"
  by (simp_all add: list_emb_append_mono subseq_rev_drop_many del: known_simps(3))

lemma sessOK_own:
  assumes "own_step p s s'" and "sessOK p s"
  shows "sessOK p s'"
  using assms
proof cases
  case (receive sig rest)
  with assms(2) show ?thesis
    using pcOK_cong[of s' s p "sPc s"] by (auto simp: sessOK_def inHand_def due_def)
next
  case (check sig)
  from assms(2) check(2) obtain taken where t: "sSent s = (taken @ [sig]) @ sSigCh s" "subseq (signals (sEvents s)) (known taken)"
    by (auto simp: sessOK_def inHand_def due_def)
  have "sPc s' = sPc s" "sProc s' = sProc s" "sCopying s' = sCopying s" "sEvents s' = sEvents s" "sSent s' = sSent s" "sSigCh s' = sSigCh s"
    "inHand s' = []" "due s' = [] \<or> due s' = known [sig]"
    by (auto simp: check(1) checkSignal_def inHand_def due_def split: option.split)
  with assms(2) t subseq_known_taken[OF t(2), of sig] pcOK_cong[of s' s p "sPc s"] show ?thesis
    unfolding sessOK_def by (auto intro!: exI[of _ "taken @ [sig]"] simp del: known_simps)
next
  case (deliver g)
  from assms(2) deliver(2) obtain taken where t: "sSent s = taken @ sSigCh s" "subseq (signals (sEvents s) @ [g]) (known taken)"
    by (auto simp: sessOK_def inHand_def due_def)
  have t': "subseq (signals (sEvents s)) (known taken)" using t(2) by (rule subseq_shorter)
  let ?s = "s\<lparr>sFwd := Receiving\<rparr>"
  have ok: "pcOK p ?s (sPc ?s)" using assms(2) pcOK_cong[of ?s s p "sPc s"] by (simp add: sessOK_def)
  have e: "s' = (if sProc s = Running then emit (Signalled g) ?s else ?s)"
    by (simp add: deliver(1) deliverSignal_def emit_def)
  from ok pcOK_forward[OF ok, of g] assms(2) t t' show ?thesis
    unfolding e by (auto simp: sessOK_def inHand_def due_def)
next
  case (start c)
  with assms(2) show ?thesis
    by (auto simp: sessOK_def startProcess_def inHand_def due_def Let_def split: option.splits)
next
  case (drained ps)
  with assms(2) show ?thesis by (auto simp: sessOK_def inHand_def due_def)
next
  case (finish ps)
  with assms(2) show ?thesis by (auto simp: sessOK_def finishSession_def inHand_def due_def Let_def)
qed

lemma sessOK_env:
  assumes "env_step s s'" and "sessOK p s"
  shows "sessOK p s'"
  using assms
proof cases
  case (send sig)
  with assms(2) show ?thesis
    using pcOK_cong[of s' s p "sPc s"] by (auto simp: sessOK_def inHand_def due_def)
next
  case (exits ps)
  with assms(2) show ?thesis by (auto simp: sessOK_def inHand_def due_def)
next
  case (streamEnds x)
  then have "pcOK p s (sPc s) \<Longrightarrow> pcOK p s' (sPc s)" by (cases "sPc s") auto
  with assms(2) streamEnds(1) show ?thesis by (auto simp: sessOK_def inHand_def due_def)
qed

lemma sessOK_step: "sess_step p s s' \<Longrightarrow> sessOK p s \<Longrightarrow> sessOK p s'"
  by (elim sess_stepE sessOK_own sessOK_env)

lemma sess_reach_OK: "sess_reach p s \<Longrightarrow> sessOK p s"
  by (induction rule: sess_reach.induct) (auto intro: sessOK_init sessOK_step)

text \<open>
  What a session still has to do: the steps of the handler, the streams still to be copied and
  the signals queued.
\<close>

fun handlerLeft :: "sessParams \<Rightarrow> pc \<Rightarrow> nat" where
  "handlerLeft p (Starting c) = 4 + length (copiedStreams p)"
| "handlerLeft p Waiting = 3"
| "handlerLeft p (Draining ps) = 2"
| "handlerLeft p (Reaped ps) = 1"
| "handlerLeft p Returned = 0"

fun forwarderLeft :: "forwarder \<Rightarrow> nat" where
  "forwarderLeft Receiving = 0"
| "forwarderLeft (Checking sig) = 2"
| "forwarderLeft (Delivering g) = 1"

definition stepsLeft :: "sessParams \<Rightarrow> sessState \<Rightarrow> nat" where
  "stepsLeft p s = handlerLeft p (sPc s) + length (sCopying s) + forwarderLeft (sFwd s) + 3 * length (sSigCh s)"

text \<open>
  Where the session cannot go on by itself: the goroutine waits for a signal, and the handler
  has returned or is in \<open>cmd.Wait\<close>, with the process running or a stream open.
\<close>

definition atRest :: "sessState \<Rightarrow> bool" where
  "atRest s \<longleftrightarrow> sFwd s = Receiving \<and> sSigCh s = []
     \<and> (sPc s = Returned \<or> sPc s = Waiting \<or> (\<exists>ps. sPc s = Draining ps) \<and> sCopying s \<noteq> [])"

lemma quiet_fields [simp]:
  "sSent (checkSignal sig s) = sSent s" "sSent (deliverSignal g s) = sSent s"
  "sSent (startProcess p c s) = sSent s" "sSent (finishSession ps s) = sSent s"
  "sPc (checkSignal sig s) = sPc s" "sPc (deliverSignal g s) = sPc s" "sPc (finishSession ps s) = Returned"
  "sSigCh (checkSignal sig s) = sSigCh s" "sSigCh (deliverSignal g s) = sSigCh s"
  "sSigCh (startProcess p c s) = sSigCh s" "sSigCh (finishSession ps s) = sSigCh s"
  "sCopying (checkSignal sig s) = sCopying s" "sCopying (deliverSignal g s) = sCopying s"
  "sCopying (finishSession ps s) = sCopying s"
  "sFwd (deliverSignal g s) = Receiving" "sFwd (startProcess p c s) = sFwd s" "sFwd (finishSession ps s) = sFwd s"
  by (simp_all add: checkSignal_def deliverSignal_def startProcess_def finishSession_def Let_def split: option.split)

lemma own_progress:
  assumes "own_step p s s'" and "sessOK p s"
  shows "Suc (stepsLeft p s') \<le> stepsLeft p s \<and> sSent s' = sSent s"
  using assms
proof cases
  case (check sig)
  have "sFwd s' = Receiving \<or> (\<exists>g. sFwd s' = Delivering g)"
    by (auto simp: check(1) checkSignal_def split: option.split)
  with check show ?thesis by (auto simp: stepsLeft_def)
next
  case (start c)
  with assms(2) show ?thesis
    by (auto simp: stepsLeft_def sessOK_def startProcess_def Let_def split: option.split)
qed (auto simp: stepsLeft_def)

lemma env_progress:
  assumes "env_step s s'"
  shows "Suc (stepsLeft p s') \<le> stepsLeft p s + 4 * (length (sSent s') - length (sSent s)) \<and> length (sSent s) \<le> length (sSent s')"
  using assms
proof cases
  case (streamEnds x)
  then have "0 < length (sCopying s)" by auto
  with streamEnds show ?thesis by (auto simp: stepsLeft_def length_remove1)
qed (auto simp: stepsLeft_def)

lemma step_progress:
  assumes "sess_step p s s'" and "sessOK p s"
  shows "Suc (stepsLeft p s') \<le> stepsLeft p s + 4 * (length (sSent s') - length (sSent s)) \<and> length (sSent s) \<le> length (sSent s')"
  using assms(1) by (rule sess_stepE) (use own_progress[OF _ assms(2)] env_progress in fastforce)+

lemma steps_bounded:
  assumes "(sess_step p ^^ n) s s'" and "sessOK p s"
  shows "n + stepsLeft p s' \<le> stepsLeft p s + 4 * (length (sSent s') - length (sSent s))
    \<and> length (sSent s) \<le> length (sSent s') \<and> sessOK p s'"
  using assms(1)
proof (induction n arbitrary: s')
  case 0
  with assms(2) show ?case by simp
next
  case (Suc n)
  then obtain t where t: "(sess_step p ^^ n) s t" "sess_step p t s'" by auto
  from Suc.IH[OF t(1)] step_progress[OF t(2)] sessOK_step[OF t(2)] show ?case by linarith
qed

lemma stuck_iff: "\<not> (\<exists>s'. own_step p s s') \<longleftrightarrow> atRest s"
proof
  assume "atRest s"
  then show "\<not> (\<exists>s'. own_step p s s')" by (auto simp: atRest_def own_step_iff)
next
  assume stuck: "\<not> (\<exists>s'. own_step p s s')"
  have "sFwd s = Receiving \<and> sSigCh s = []"
    using stuck own_step.receive[of s _ _ p] own_step.check[of s _ p] own_step.deliver[of s _ p]
    by (cases "sFwd s"; cases "sSigCh s") blast+
  moreover have "sPc s = Returned \<or> sPc s = Waiting \<or> (\<exists>ps. sPc s = Draining ps) \<and> sCopying s \<noteq> []"
    using stuck own_step.start[of s _ p] own_step.drained[of s _ p] own_step.finish[of s _ p]
    by (cases "sPc s") blast+
  ultimately show "atRest s" by (simp add: atRest_def)
qed

lemma own_run_ends: "sessOK p s \<Longrightarrow> \<exists>t. (own_step p)\<^sup>*\<^sup>* s t \<and> atRest t"
proof (induction "stepsLeft p s" arbitrary: s rule: less_induct)
  case less
  show ?case
  proof (cases "atRest s")
    case False
    then obtain t where t: "own_step p s t" using stuck_iff by blast
    with own_progress[OF t less.prems] less.hyps[OF _ sessOK_own[OF t less.prems]]
    show ?thesis by (auto intro: converse_rtranclp_into_rtranclp)
  qed blast
qed

text \<open>
  Once the process was waited for and its streams have ended, the session is on its way out,
  and there is no step but its own left to take it off.
\<close>

definition goingOut :: "int option \<Rightarrow> sessState \<Rightarrow> bool" where
  "goingOut ps s \<longleftrightarrow> sCopying s = [] \<and> (sPc s = Draining ps \<or> sPc s = Reaped ps \<or>
     sPc s = Returned \<and> (\<exists>es. sEvents s = es @ [SessExit (case ps of Some code \<Rightarrow> code | None \<Rightarrow> 127)]))"

lemma goingOut_own:
  assumes "own_step p s s'" and "goingOut ps s" and "sessOK p s"
  shows "goingOut ps s'"
proof -
  have proc: "sProc s \<noteq> Running" using assms(2,3)
    by (auto simp: goingOut_def sessOK_def split: option.splits)
  from assms(1) show ?thesis
  proof cases
    case (deliver g)
    with assms(2) proc show ?thesis by (simp add: goingOut_def deliverSignal_def)
  next
    case (check sig)
    with assms(2) show ?thesis by (auto simp: goingOut_def checkSignal_def split: option.split)
  qed (use assms(2) in \<open>auto simp: goingOut_def finishSession_def Let_def\<close>)
qed

lemma goingOut_run: "(own_step p)\<^sup>*\<^sup>* s s' \<Longrightarrow> goingOut ps s \<Longrightarrow> sessOK p s \<Longrightarrow> goingOut ps s' \<and> sessOK p s'"
  by (induction rule: rtranclp_induct) (auto dest: goingOut_own intro: sessOK_own)

lemma ends_by_itself:
  assumes "sessOK p s" and "sPc s = Draining ps" and "sCopying s = []"
  shows "(\<exists>t. (own_step p)\<^sup>*\<^sup>* s t \<and> atRest t)
    \<and> (\<forall>t. (own_step p)\<^sup>*\<^sup>* s t \<and> atRest t \<longrightarrow> sPc t = Returned
         \<and> last (sEvents t) = SessExit (case ps of Some code \<Rightarrow> code | None \<Rightarrow> 127))"
proof -
  have go: "goingOut ps s" using assms by (simp add: goingOut_def)
  have "sPc t = Returned \<and> last (sEvents t) = SessExit (case ps of Some code \<Rightarrow> code | None \<Rightarrow> 127)"
    if "(own_step p)\<^sup>*\<^sup>* s t" "atRest t" for t
  proof -
    have "goingOut ps t" using goingOut_run[OF that(1) go assms(1)] by blast
    with that(2) show ?thesis unfolding goingOut_def atRest_def by auto
  qed
  with own_run_ends[OF assms(1)] show ?thesis by blast
qed

section \<open>Properties\<close>

text \<open>C24: Every session gets a process to run: the client's command, or the shell of
  \<open>defaultShellArgs\<close>, whose argument list is never empty, so the handler cannot panic. With a
  PTY the block holds exactly one TERM entry, the client's, and otherwise the session's
  block in its order; without one it is that block and the session is the process's
  standard input and output.\<close>
theorem session_command:
  "\<exists>c c'. buildCmd p = Some c \<and> c' = attachCmd p c
     \<and> cArgs c' = (if spCommand p \<noteq> [] then spCommand p else defaultShellArgs (spHost p) (spFS p) (spShell p))
     \<and> cArgs c' \<noteq> [] \<and> cDir c' = spWorkDir p
     \<and> (cSetsid c' \<longleftrightarrow> spPty p \<noteq> None \<and> hGOOS (spHost p) \<noteq> Windows) \<and> (cStdio c' \<longleftrightarrow> spPty p = None)
     \<and> (let block = sessionEnv (spHost p) (spRegistry p); isTerm = namesKey (hCase (spHost p)) ''TERM'' in
        case spPty p of
          None \<Rightarrow> cEnv c' = block
        | Some tname \<Rightarrow> filter isTerm (cEnv c') = [''TERM='' @ tname]
            \<and> filter (\<lambda>kv. \<not> isTerm kv) (cEnv c') = filter (\<lambda>kv. \<not> isTerm kv) block)"
proof -
  have a: "sessionArgs p = (if spCommand p \<noteq> [] then spCommand p else defaultShellArgs (spHost p) (spFS p) (spShell p))"
    by (simp add: sessionArgs_def)
  have t: "''TERM='' @ tname = ''TERM'' @ CHR ''='' # tname" for tname by simp
  show ?thesis
    unfolding buildCmd_eq a[symmetric]
    using sessionArgs_nonempty[of p] replaceEnv_named[of "hCase (spHost p)" "''TERM''"]
      replaceEnv_others[of "hCase (spHost p)" "''TERM''"]
    by (cases "spPty p") (simp_all add: attachCmd_def setPtySysProcAttr_def Let_def)
qed

text \<open>C25: Whatever the interleaving of the handler with the client's signals, a session reports
  an exit code exactly once, as its last act: 1 after the error text when the process
  could not be started, otherwise after the process was waited for. While the handler is
  running no code has been reported.\<close>
theorem session_one_exit:
  assumes "sess_reach p s"
  shows "if sPc s = Returned
         then (\<exists>es code. sEvents s = es @ [SessExit code] \<and> filter isExit es = []
               \<and> (\<forall>c err. buildCmd p = Some c \<and> spStart p (attachCmd p c) = Some err \<longrightarrow>
                     code = 1 \<and> es = [WriteOut (spErrText p err @ [CHR 0x0A])])
               \<and> (\<forall>c. buildCmd p = Some c \<and> spStart p (attachCmd p c) = None \<longrightarrow>
                     hd es = Started (attachCmd p c)))
         else filter isExit (sEvents s) = []"
proof -
  have none: "filter isExit (map Signalled gs) = []" for gs by (induction gs) auto
  from sess_reach_OK[OF assms] have "pcOK p s (sPc s)" by (simp add: sessOK_def)
  then show ?thesis
  proof (cases "sPc s")
    case Returned
    with \<open>pcOK p s (sPc s)\<close> obtain c where c: "buildCmd p = Some c" "case spStart p (attachCmd p c) of
         Some err \<Rightarrow> sProc s = NoProcess \<and> sEvents s = [WriteOut (spErrText p err @ [CHR 0x0A]), SessExit 1]
       | None \<Rightarrow> sProc s = ProcessDone \<and> (\<exists>gs code. sEvents s = Started (attachCmd p c) # map Signalled gs @ [SessExit code])"
      by auto
    show ?thesis
    proof (cases "spStart p (attachCmd p c)")
      case None
      with c obtain gs code where "sEvents s = (Started (attachCmd p c) # map Signalled gs) @ [SessExit code]" by auto
      with c(1) None Returned none show ?thesis by (auto simp del: append.simps(2))
    next
      case (Some err)
      with c have "sEvents s = [WriteOut (spErrText p err @ [CHR 0x0A])] @ [SessExit 1]" by simp
      with c(1) Some Returned show ?thesis by (auto simp del: append.simps)
    qed
  qed (auto simp: none)
qed

definition demoHost :: hostEnv where
  "demoHost = \<lparr>hGOOS = Linux, hPaths = unixPaths None, hCase = asciiTable, hGetenv = (\<lambda>v. []),
     hEnviron = [''TERM=dumb'', ''A=b''], hLookPath = (\<lambda>n. Inl ErrNotExist)\<rparr>"

definition demoSession :: sessParams where
  "demoSession = \<lparr>spHost = demoHost, spFS = \<lparr>nodes = Map.empty, faults = (\<lambda>op q. None), shortWrite = (\<lambda>q. 0)\<rparr>,
     spRegistry = demoRegistry, spShell = ''sh -l'', spWorkDir = [],
     spCommand = [''ls''], spPty = Some ''xterm'', spPtyCopies = [], spStart = (\<lambda>c. None), spErrText = (\<lambda>e. [])\<rparr>"

lemma demoSession_run:
  obtains c s where "buildCmd demoSession = Some c" "sess_reach demoSession s" "sPc s = Returned"
    "sEvents s = [Started (attachCmd demoSession c), Signalled SIGINT, SessExit 130]" "sSent s = [''INT'']"
proof -
  obtain c where c: "buildCmd demoSession = Some c" by (simp add: buildCmd_eq)
  let ?c = "attachCmd demoSession c"
  have ok: "spStart demoSession ?c = None" by (simp add: demoSession_def)
  have copies: "copiedStreams demoSession = []" by (simp add: demoSession_def copiedStreams_def)
  let ?s1 = "startProcess demoSession c (sessInit c)"
  let ?s2 = "?s1\<lparr>sSigCh := [''INT''], sSent := [''INT'']\<rparr>"
  let ?s3 = "deliverSignal SIGINT (checkSignal ''INT'' (?s2\<lparr>sSigCh := [], sFwd := Checking ''INT''\<rparr>))"
  let ?s4 = "?s3\<lparr>sPc := Draining (Some 130), sProc := ProcessDone\<rparr>\<lparr>sPc := Reaped (Some 130)\<rparr>"
  let ?s5 = "finishSession (Some 130) ?s4"
  have e1: "?s1 = \<lparr>sPc = Waiting, sProc = Running, sSigCh = [], sFwd = Receiving, sCopying = [], sSent = [], sEvents = [Started ?c]\<rparr>"
    by (simp add: startProcess_def Let_def ok emit_def sessInit_def copies)
  have e2: "checkSignal ''INT'' (?s2\<lparr>sSigCh := [], sFwd := Checking ''INT''\<rparr>) = \<lparr>sPc = Waiting, sProc = Running, sSigCh = [],
      sFwd = Delivering SIGINT, sCopying = [], sSent = [''INT''], sEvents = [Started ?c]\<rparr>"
    unfolding e1 by (simp add: checkSignal_def sshSignalToOSSig_def)
  have e3: "?s3 = \<lparr>sPc = Waiting, sProc = Running, sSigCh = [], sFwd = Receiving, sCopying = [], sSent = [''INT''],
      sEvents = [Started ?c, Signalled SIGINT]\<rparr>"
    unfolding e2 by (simp add: deliverSignal_def emit_def)
  have e5: "?s5 = \<lparr>sPc = Returned, sProc = ProcessDone, sSigCh = [], sFwd = Receiving, sCopying = [], sSent = [''INT''],
      sEvents = [Started ?c, Signalled SIGINT, SessExit 130]\<rparr>"
    unfolding e3 by (simp add: finishSession_def emit_def)
  have "sess_reach demoSession ?s1"
    by (rule sess_reach.step[OF sess_reach.init[OF c]], rule sess_step.own, rule own_step.start) (simp add: sessInit_def)
  then have "sess_reach demoSession ?s2"
    using sess_step.env[OF env_step.send[of ?s1 "''INT''"]] by (auto intro: sess_reach.step simp: e1 sigChCap_def)
  then have "sess_reach demoSession (?s2\<lparr>sSigCh := [], sFwd := Checking ''INT''\<rparr>)"
    by (rule sess_reach.step) (rule sess_step.own, rule own_step.receive, simp_all add: e1)
  then have "sess_reach demoSession (checkSignal ''INT'' (?s2\<lparr>sSigCh := [], sFwd := Checking ''INT''\<rparr>))"
    by (rule sess_reach.step) (rule sess_step.own, rule own_step.check, simp)
  then have "sess_reach demoSession ?s3"
    by (rule sess_reach.step) (rule sess_step.own, rule own_step.deliver, simp only: e2, simp)
  then have "sess_reach demoSession (?s3\<lparr>sPc := Draining (Some 130), sProc := ProcessDone\<rparr>)"
    by (rule sess_reach.step) (rule sess_step.env, rule env_step.exits, simp only: e3, simp)
  then have "sess_reach demoSession ?s4"
    by (rule sess_reach.step) (rule sess_step.own, rule own_step.drained, simp_all add: e1)
  then have "sess_reach demoSession ?s5"
    by (rule sess_reach.step) (rule sess_step.own, rule own_step.finish, simp)
  with c e5 show ?thesis by (intro that[of c ?s5]) simp_all
qed

text \<open>
  The same host, a command without a PTY: its process has ended and has closed its output,
  the client has not closed its input.
\<close>

definition pipeSession :: sessParams where
  "pipeSession = demoSession\<lparr>spPty := None\<rparr>"

lemma pipeSession_run:
  obtains s where "sess_reach pipeSession s" "sPc s = Draining (Some 0)" "sCopying s = [Stdin]"
    "sFwd s = Receiving" "sSigCh s = []"
proof -
  obtain c where c: "buildCmd pipeSession = Some c" by (simp add: buildCmd_eq)
  let ?c = "attachCmd pipeSession c"
  let ?s1 = "startProcess pipeSession c (sessInit c)"
  let ?s2 = "?s1\<lparr>sPc := Draining (Some 0), sProc := ProcessDone\<rparr>"
  let ?s3 = "?s2\<lparr>sCopying := remove1 Stdout (sCopying ?s2)\<rparr>"
  let ?s4 = "?s3\<lparr>sCopying := remove1 Stderr (sCopying ?s3)\<rparr>"
  have e1: "?s1 = \<lparr>sPc = Waiting, sProc = Running, sSigCh = [], sFwd = Receiving, sCopying = [Stdin, Stdout, Stderr],
      sSent = [], sEvents = [Started ?c]\<rparr>"
    by (simp add: startProcess_def Let_def emit_def sessInit_def copiedStreams_def pipeSession_def demoSession_def)
  have "sess_reach pipeSession ?s1"
    by (rule sess_reach.step[OF sess_reach.init[OF c]], rule sess_step.own, rule own_step.start) (simp add: sessInit_def)
  then have "sess_reach pipeSession ?s2"
    by (rule sess_reach.step) (rule sess_step.env, rule env_step.exits, simp add: e1)
  then have "sess_reach pipeSession ?s3"
    by (rule sess_reach.step) (rule sess_step.env, rule env_step.streamEnds, simp add: e1)
  then have "sess_reach pipeSession ?s4"
    by (rule sess_reach.step) (rule sess_step.env, rule env_step.streamEnds, simp add: e1)
  then show ?thesis by (rule that) (simp_all add: e1)
qed

theorem session_one_exit_witness:
  "\<exists>s. sess_reach demoSession s \<and> sPc s = Returned \<and> (\<exists>es code. sEvents s = es @ [SessExit code] \<and> filter isExit es = [])"
proof -
  obtain c s where s: "sess_reach demoSession s" "sPc s = Returned" by (rule demoSession_run)
  from session_one_exit[OF s(1)] s show ?thesis by auto
qed

text \<open>C26: The signals a process receives are, in order, among the known ones the client sent:
  none is invented, duplicated or reordered, and none is delivered before the process is
  started or after it was waited for.\<close>
theorem session_signals:
  assumes "sess_reach p s"
  shows "subseq (signals (sEvents s)) (known (sSent s))
     \<and> (sProc s = NoProcess \<longrightarrow> signals (sEvents s) = [])
     \<and> (sProc s \<noteq> Running \<longrightarrow> sEvents (deliverSignal g s) = sEvents s)"
proof -
  from sess_reach_OK[OF assms] obtain taken where t: "pcOK p s (sPc s)" "sSent s = taken @ inHand s @ sSigCh s"
      "subseq (signals (sEvents s) @ due s) (known taken)" unfolding sessOK_def by blast
  then have "subseq (signals (sEvents s)) (known (sSent s))"
    using subseq_shorter[OF t(3)] by (simp add: subseq_rev_drop_many)
  moreover have "sProc s = NoProcess \<longrightarrow> signals (sEvents s) = []"
    using t(1) by (cases "sPc s") (auto split: option.splits)
  moreover have "sProc s \<noteq> Running \<longrightarrow> sEvents (deliverSignal g s) = sEvents s"
    by (simp add: deliverSignal_def)
  ultimately show ?thesis by blast
qed

theorem session_signals_witness:
  "\<exists>s. sess_reach demoSession s \<and> signals (sEvents s) = [SIGINT] \<and> subseq (signals (sEvents s)) (known (sSent s))"
proof -
  obtain c s where "sess_reach demoSession s"
      "sEvents s = [Started (attachCmd demoSession c), Signalled SIGINT, SessExit 130]" by (rule demoSession_run)
  with session_signals[OF this(1)] show ?thesis by (intro exI[of _ s]) simp
qed

text \<open>C27: When a session ends. By itself it only stops where the goroutine has no signal to forward
  and the handler has returned or is in \<open>cmd.Wait\<close>, for the process or for a stream: so once the
  process has ended and its streams have, every way it can go ends with the handler
  returned and the process's code reported, 127 if there is none. But not before: while the
  process runs, and while a stream is open, no code is reported, so a client without a PTY
  that keeps its standard input open keeps the session from ending though its process has.
  Any interleaving has at most the steps that are left (the handler's, one for each stream,
  three for each signal) and four for each further signal; and at rest the goroutine still
  waits at the channel, which nobody closes.\<close>
theorem session_can_finish:
  assumes "sess_reach p s"
  shows "(\<not> (\<exists>s'. own_step p s s') \<longleftrightarrow> atRest s)
     \<and> (sPc s = Draining ps \<and> sCopying s = [] \<longrightarrow>
          (\<exists>t. (own_step p)\<^sup>*\<^sup>* s t \<and> atRest t)
          \<and> (\<forall>t. (own_step p)\<^sup>*\<^sup>* s t \<and> atRest t \<longrightarrow> sPc t = Returned
                \<and> last (sEvents t) = SessExit (case ps of Some code \<Rightarrow> code | None \<Rightarrow> 127)))
     \<and> (sProc s = Running \<or> sCopying s \<noteq> [] \<longrightarrow> sPc s \<noteq> Returned \<and> filter isExit (sEvents s) = [])
     \<and> (\<forall>n s'. (sess_step p ^^ n) s s' \<longrightarrow>
          n + stepsLeft p s' \<le> stepsLeft p s + 4 * (length (sSent s') - length (sSent s)))"
proof -
  note ok = sess_reach_OK[OF assms]
  have "filter isExit (map Signalled gs) = []" for gs by (induction gs) auto
  then have "sProc s = Running \<or> sCopying s \<noteq> [] \<longrightarrow> sPc s \<noteq> Returned \<and> filter isExit (sEvents s) = []"
    using ok by (cases "sPc s") (auto simp: sessOK_def split: option.splits)
  with stuck_iff[of p s] ends_by_itself[OF ok] steps_bounded[OF _ ok] show ?thesis by blast
qed

theorem session_can_finish_witness:
  "\<exists>s s'. sess_reach pipeSession s \<and> sPc s = Draining (Some 0) \<and> sCopying s = [Stdin] \<and> atRest s
     \<and> filter isExit (sEvents s) = []
     \<and> sess_step pipeSession s s' \<and> (\<exists>t. (own_step pipeSession)\<^sup>*\<^sup>* s' t \<and> sPc t = Returned \<and> last (sEvents t) = SessExit 0)"
proof -
  obtain s where s: "sess_reach pipeSession s" "sPc s = Draining (Some 0)" "sCopying s = [Stdin]"
      "sFwd s = Receiving" "sSigCh s = []" by (rule pipeSession_run)
  let ?t = "s\<lparr>sCopying := []\<rparr>"
  have st: "sess_step pipeSession s ?t"
    using env_step.streamEnds[of Stdin s] by (auto intro: sess_step.env simp: s)
  have r: "sess_reach pipeSession ?t" using s(1) st by (rule sess_reach.step)
  have "atRest s" using s by (auto simp: atRest_def)
  moreover have "filter isExit (sEvents s) = []"
    using session_can_finish[OF s(1), of "Some 0"] s(3) by simp
  moreover have "\<exists>t. (own_step pipeSession)\<^sup>*\<^sup>* ?t t \<and> sPc t = Returned \<and> last (sEvents t) = SessExit 0"
    using session_can_finish[OF r, of "Some 0"] s(2) by auto
  ultimately show ?thesis using s st by blast
qed

text \<open>An SFTP session ends with exactly one exit code, 1 when the server cannot be made and
  0 otherwise, and is rooted at the working directory exactly when there is one.\<close>
lemma sftp_exit:
  "\<exists>opts. opts = (if wd = [] then [] else [wd])
     \<and> last (handleSftpSubsystem wd newServer served) = SftpExit (if newServer opts = None then 0 else 1)
     \<and> set (butlast (handleSftpSubsystem wd newServer served)) \<subseteq> {SftpServe opts, SftpClose} \<union> range SftpLog"
  by (auto simp: handleSftpSubsystem_def Let_def split: option.splits)

end
