(* ===== verification/Go_Net.thy ===== *)
theory Go_Net
  imports Go_Strings Relay_Prelude "HOL-Library.List_Lexorder" "HOL-Library.Char_ord"
begin

text \<open>
  The part of the \<open>net\<close> package the program uses: splitting a host from a port, and the
  addresses of the machine's interfaces as \<open>net.Interfaces\<close> reports them.
\<close>

section \<open>SplitHostPort\<close>

definition SplitHostPort :: "string \<Rightarrow> (string \<times> string) res" where
  "SplitHostPort hp =
     (let i = LastIndex1 hp CHR '':'' in
      if i < 0 then Inl (LibErr ''missing port in address'')
      else if hd hp = CHR ''['' then
        (let e = Index1 hp CHR '']'' in
         if e < 0 then Inl (LibErr ''missing ] in address'')
         else if nat e + 1 = length hp then Inl (LibErr ''missing port in address'')
         else if e + 1 \<noteq> i then
           Inl (LibErr (if hp ! (nat e + 1) = CHR '':'' then ''too many colons in address'' else ''missing port in address''))
         else if 0 \<le> Index1 (drop 1 hp) CHR ''['' then Inl (LibErr ''unexpected [ in address'')
         else if 0 \<le> Index1 (drop (nat e + 1) hp) CHR '']'' then Inl (LibErr ''unexpected ] in address'')
         else Inr (drop 1 (take (nat e) hp), drop (nat i + 1) hp))
      else
        (let host = take (nat i) hp in
         if 0 \<le> Index1 host CHR '':'' then Inl (LibErr ''too many colons in address'')
         else if 0 \<le> Index1 hp CHR ''['' then Inl (LibErr ''unexpected [ in address'')
         else if 0 \<le> Index1 hp CHR '']'' then Inl (LibErr ''unexpected ] in address'')
         else Inr (host, drop (nat i + 1) hp)))"

text \<open>\<open>net.JoinHostPort\<close>: a host with a colon is put in brackets.\<close>

definition JoinHostPort :: "string \<Rightarrow> string \<Rightarrow> string" where
  "JoinHostPort host port =
     (if 0 \<le> Index1 host CHR '':'' then ''['' @ host @ '']:'' @ port else host @ '':'' @ port)"

section \<open>Addresses\<close>

text \<open>An IP address is its bytes, four or sixteen of them.\<close>

type_synonym ip = "nat list"

definition To4 :: "ip \<Rightarrow> ip option" where
  "To4 a =
     (if length a = 4 then Some a
      else if length a = 16 \<and> take 12 a = replicate 10 0 @ [255, 255] then Some (drop 12 a)
      else None)"

definition isLoopback4 :: "ip \<Rightarrow> bool" where
  "isLoopback4 a = (a \<noteq> [] \<and> hd a = 127)"

fun decimal :: "nat \<Rightarrow> string" where
  "decimal n = (if n < 10 then [char_of (48 + n)] else decimal (n div 10) @ [char_of (48 + n mod 10)])"

declare decimal.simps [simp del]

definition ipString :: "ip \<Rightarrow> string" where
  "ipString a = Join1 (map decimal a) CHR ''.''"

text \<open>An address of an interface is an \<open>IPNet\<close>, an \<open>IPAddr\<close> or of another type.\<close>

datatype ifAddr = IPNet ip | IPAddr ip | OtherAddr

record netIf =
  ifUp :: bool
  ifLoopback :: bool
  ifAddrs :: "ifAddr list res"

end
