(* ===== verification/Relay_Server.thy ===== *)
theory Relay_Server
  imports Relay_Auth Relay_HostKey Relay_Session Go_Net Go_Slog "HOL-Library.Multiset" "HOL-Library.Word"
begin

text \<open>
  \<open>internal/sshserver/server.go\<close>: building the server (which handlers the SSH library gets)
  and its life: \<open>Start\<close>, \<open>Stop\<close>, \<open>Addr\<close>. The SSH library and the network are outside the
  repository: what \<open>net.Listen\<close>, \<open>SetOption\<close> and \<open>Close\<close> return are parameters, and which
  clients the library lets in, given the handlers, is characterised by what its
  documentation says (\<open>challengesBy\<close>). The mutex makes \<open>Start\<close> and \<open>Stop\<close> atomic
  (\<open>Relay_Concurrency\<close>).
\<close>

section \<open>Options and the server\<close>

record sshOptions =
  oAddr :: string
  oHostKeyPath :: string
  oAuth :: "auth option"
  oShellOverride :: string
  oWorkDir :: string
  oBanner :: string
  oAllowLocalFwd :: bool
  oAllowRemoteFwd :: bool

text \<open>
  \<open>ssh.Server\<close>, the fields the relay sets. The authentication callbacks are closures over
  the server's \<open>Auth\<close>, which they read when they are called. The user is that of the
  connection (\<open>ctx.User()\<close>); a callback gives its answer and the records it logs.
\<close>

record ('k, 's) sshServer =
  svSubsystems :: "string list"
  svChannels :: "string list"
  svRequests :: "string list"
  svLocalFwd :: "string \<Rightarrow> string \<Rightarrow> 32 word \<Rightarrow> bool logged"
  svReverseFwd :: "string \<Rightarrow> string \<Rightarrow> 32 word \<Rightarrow> bool logged"
  svPassword :: "(auth \<Rightarrow> string \<Rightarrow> string \<Rightarrow> bool logged) option"
  svPublicKey :: "(auth \<Rightarrow> string \<Rightarrow> 'k \<Rightarrow> bool logged) option"
  svBanner :: string
  svHostKeys :: "'s list"

record ('k, 's) relayServer =
  rsOpts :: sshOptions
  rsShell :: string
  rsWorkDir :: string
  rsAuth :: auth
  rsServer :: "('k, 's) sshServer"
  rsListener :: "string option"
  rsStarted :: bool

definition openAuth :: auth where
  "openAuth = \<lparr>aNoAuth = True, aUsername = [], aPassword = [], aKeys = []\<rparr>"

section \<open>The callbacks\<close>

definition passwordCallback :: "auth \<Rightarrow> string \<Rightarrow> string \<Rightarrow> bool logged" where
  "passwordCallback a user password =
     (let ok = PasswordOK a user password
      in (ok, [logInfo ''password auth'' [(''user'', LStr user), (''ok'', LBool ok)]]))"

definition publicKeyCallback :: "('k \<Rightarrow> string) \<Rightarrow> auth \<Rightarrow> string \<Rightarrow> 'k \<Rightarrow> bool logged" where
  "publicKeyCallback marshal a user key =
     (let ok = PublicKeyOK marshal a key
      in (ok, [logInfo ''publickey auth'' [(''user'', LStr user), (''ok'', LBool ok)]]))"

definition localForwardCallback :: "sshOptions \<Rightarrow> string \<Rightarrow> string \<Rightarrow> 32 word \<Rightarrow> bool logged" where
  "localForwardCallback opts user dHost dPort =
     (let dest = LStr (JoinHostPort dHost (decimal (unat dPort)))
      in if \<not> oAllowLocalFwd opts
         then (False, [logDebug ''local port forward denied (disabled)'' [(''dest'', dest)]])
         else (True, [logInfo ''local port forward'' [(''user'', LStr user), (''dest'', dest)]]))"

definition reverseForwardCallback :: "sshOptions \<Rightarrow> string \<Rightarrow> string \<Rightarrow> 32 word \<Rightarrow> bool logged" where
  "reverseForwardCallback opts user bHost bPort =
     (let bnd = LStr (JoinHostPort bHost (decimal (unat bPort)))
      in if \<not> oAllowRemoteFwd opts
         then (False, [logDebug ''reverse port forward denied (disabled)'' [(''bind'', bnd)]])
         else (True, [logInfo ''reverse port forward'' [(''user'', LStr user), (''bind'', bnd)]]))"

text \<open>What \<open>New\<close> gives the SSH library.\<close>

definition newSSHServer :: "('k \<Rightarrow> string) \<Rightarrow> sshOptions \<Rightarrow> auth \<Rightarrow> ('k, 's) sshServer" where
  "newSSHServer marshal opts a =
     \<lparr>svSubsystems = [''sftp''],
      svChannels = [''session'', ''direct-tcpip''],
      svRequests = [''tcpip-forward'', ''cancel-tcpip-forward''],
      svLocalFwd = localForwardCallback opts,
      svReverseFwd = reverseForwardCallback opts,
      svPassword = (if \<not> aNoAuth a \<and> aPassword a \<noteq> [] then Some passwordCallback else None),
      svPublicKey = (if \<not> aNoAuth a \<and> 0 < length (aKeys a) then Some (publicKeyCallback marshal) else None),
      svBanner = (if TrimSpace (oBanner opts) \<noteq> [] then oBanner opts else []),
      svHostKeys = []\<rparr>"

definition New :: "('k \<Rightarrow> string) \<Rightarrow> goerr option \<Rightarrow> sshOptions \<Rightarrow> ('k, 's) relayServer res" where
  "New marshal allocPty opts0 =
     (if TrimSpace (oAddr opts0) = [] then Inl (Msg [Txt ''sshserver: addr is required''])
      else
        let opts = (case oAuth opts0 of None \<Rightarrow> opts0\<lparr>oAuth := Some openAuth\<rparr> | Some a \<Rightarrow> opts0);
            a = the (oAuth opts);
            s = \<lparr>rsOpts = opts, rsShell = TrimSpace (oShellOverride opts),
                 rsWorkDir = TrimSpace (oWorkDir opts), rsAuth = a, rsServer = newSSHServer marshal opts a,
                 rsListener = None, rsStarted = False\<rparr>
        in case allocPty of
             Some err \<Rightarrow> Inl (Wrapped [Txt ''allocate pty option''] err)
           | None \<Rightarrow> Inr s)"

section \<open>Start, Stop and Addr\<close>

text \<open>
  The network, the file system and the log; \<open>nwOpen\<close> lists the addresses with an open
  listener.
\<close>

record netw =
  nwFS :: fsys
  nwOpen :: "string list"
  nwSlog :: slogger

definition logTo :: "logRecord \<Rightarrow> netw \<Rightarrow> netw" where
  "logTo r w = w\<lparr>nwSlog := slog r (nwSlog w)\<rparr>"

lemma logTo_simps [simp]:
  "nwFS (logTo r w) = nwFS w" "nwOpen (logTo r w) = nwOpen w" "nwSlog (logTo r w) = slog r (nwSlog w)"
  by (simp_all add: logTo_def)

lemma fold_logTo [simp]:
  "nwFS (fold logTo rs w) = nwFS w" "nwOpen (fold logTo rs w) = nwOpen w"
  "nwSlog (fold logTo rs w) = fold slog rs (nwSlog w)"
  by (induction rs arbitrary: w) simp_all

text \<open>
  What lies outside: the key operations, \<open>net.Listen\<close> (given the addresses in use, the
  address it binds or an error) and the error of \<open>ssh.Server.Close\<close>.
\<close>

record ('key, 's) sshEnv =
  sePaths :: pathOps
  seGen :: "'key res"
  sePem :: "'key \<Rightarrow> string"
  seParse :: "string \<Rightarrow> 's res"
  seListen :: "string list \<Rightarrow> string \<Rightarrow> string res"
  seClose :: "goerr option"

definition hostKeyOf :: "('key, 's) sshEnv \<Rightarrow> fsys \<Rightarrow> string \<Rightarrow> 's res \<times> fsys" where
  "hostKeyOf E fs path = loadOrCreateHostKey (sePaths E) (seGen E) (sePem E) (seParse E) fs path"

definition serverStart ::
    "('key, 's) sshEnv \<Rightarrow> netw \<Rightarrow> ('k, 's) relayServer \<Rightarrow> goerr option \<times> netw \<times> ('k, 's) relayServer" where
  "serverStart E w s =
     (if rsStarted s then (Some (Msg [Txt ''sshserver: already started'']), w, s)
      else case hostKeyOf E (nwFS w) (oHostKeyPath (rsOpts s)) of
        (Inl err, fs) \<Rightarrow> (Some err, w\<lparr>nwFS := fs\<rparr>, s)
      | (Inr signer, fs) \<Rightarrow>
          (let w1 = logTo (logInfo ''host key ready'' [(''path'', LStr (oHostKeyPath (rsOpts s)))]) (w\<lparr>nwFS := fs\<rparr>);
               s1 = s\<lparr>rsServer := (rsServer s)\<lparr>svHostKeys := svHostKeys (rsServer s) @ [signer]\<rparr>\<rparr>
           in case seListen E (nwOpen w1) (oAddr (rsOpts s)) of
                Inl err \<Rightarrow> (Some (Wrapped [Txt (''listen '' @ oAddr (rsOpts s))] err), w1, s1)
              | Inr ln \<Rightarrow> (None, logTo (logInfo ''ssh server listening'' [(''addr'', LStr ln)]) (w1\<lparr>nwOpen := nwOpen w1 @ [ln]\<rparr>),
                                s1\<lparr>rsListener := Some ln, rsStarted := True\<rparr>)))"

definition serverStop ::
    "('key, 's) sshEnv \<Rightarrow> netw \<Rightarrow> ('k, 's) relayServer \<Rightarrow> goerr option \<times> netw \<times> ('k, 's) relayServer" where
  "serverStop E w s =
     (if \<not> rsStarted s then (None, w, s)
      else
        let s1 = s\<lparr>rsStarted := False\<rparr>;
            w1 = (case rsListener s of None \<Rightarrow> w | Some ln \<Rightarrow> w\<lparr>nwOpen := remove1 ln (nwOpen w)\<rparr>)
        in (seClose E, w1, s1))"

definition serverAddr :: "('k, 's) relayServer \<Rightarrow> string" where
  "serverAddr s = (case rsListener s of Some ln \<Rightarrow> ln | None \<Rightarrow> oAddr (rsOpts s))"

text \<open>The goroutine \<open>Start\<close> leaves behind: what it logs when \<open>Serve\<close> returns.\<close>

definition serveEnded :: "goerr option \<Rightarrow> netw \<Rightarrow> netw" where
  "serveEnded served w =
     (case served of
        None \<Rightarrow> w
      | Some err \<Rightarrow> if \<not> errors_Is err ErrClosed then logTo (logError ''ssh server stopped'' [(''err'', LErr err)]) w
                    else logTo (logInfo ''ssh server stopped'' []) w)"

text \<open>What a client can ask for, and the callback that answers; without one the answer is no.\<close>

datatype 'k clientCall =
    TryPassword string string
  | TryKey string 'k
  | AskLocalForward string string "32 word"
  | AskReverseForward string string "32 word"

fun answer :: "('k, 's) relayServer \<Rightarrow> 'k clientCall \<Rightarrow> bool logged" where
  "answer s (TryPassword u p) = (case svPassword (rsServer s) of None \<Rightarrow> (False, []) | Some f \<Rightarrow> f (rsAuth s) u p)"
| "answer s (TryKey u k) = (case svPublicKey (rsServer s) of None \<Rightarrow> (False, []) | Some f \<Rightarrow> f (rsAuth s) u k)"
| "answer s (AskLocalForward u h p) = svLocalFwd (rsServer s) u h p"
| "answer s (AskReverseForward u h p) = svReverseFwd (rsServer s) u h p"

text \<open>
  The life of one server: any sequence of starts and stops, each with its own outcome of
  the key generation and of the network, of requests of clients, and of accept loops that
  end.
\<close>

inductive srv_reach ::
    "('key, 's) sshEnv \<Rightarrow> netw \<Rightarrow> ('k, 's) relayServer \<Rightarrow> netw \<Rightarrow> ('k, 's) relayServer \<Rightarrow> bool"
  for E w0 s0 where
  built: "srv_reach E w0 s0 w0 s0"
| start: "srv_reach E w0 s0 w s \<Longrightarrow> serverStart (E\<lparr>seGen := g, sePem := pem, seListen := l\<rparr>) w s = (err, w', s')
     \<Longrightarrow> srv_reach E w0 s0 w' s'"
| stop: "srv_reach E w0 s0 w s \<Longrightarrow> serverStop (E\<lparr>seClose := c\<rparr>) w s = (err, w', s')
     \<Longrightarrow> srv_reach E w0 s0 w' s'"
| call: "srv_reach E w0 s0 w s \<Longrightarrow> srv_reach E w0 s0 (fold logTo (snd (answer s q)) w) s"
| served: "srv_reach E w0 s0 w s \<Longrightarrow> srv_reach E w0 s0 (serveEnded out w) s"

section \<open>Admission\<close>

text \<open>
  How a client presents itself, and what the SSH library's documentation promises: with no
  authentication handler every client is let in, with some handler only a client one of
  them accepts. \<open>admit\<close> is the library's decision.
\<close>

datatype 'k credential = NoCredential string | Password string string | PublicKey string 'k

definition handlersAccept ::
    "(string \<Rightarrow> string \<Rightarrow> bool) option \<Rightarrow> (string \<Rightarrow> 'k \<Rightarrow> bool) option \<Rightarrow> 'k credential \<Rightarrow> bool" where
  "handlersAccept pw pk c =
     (case c of
        NoCredential u \<Rightarrow> False
      | Password u p \<Rightarrow> (case pw of None \<Rightarrow> False | Some f \<Rightarrow> f u p)
      | PublicKey u k \<Rightarrow> (case pk of None \<Rightarrow> False | Some f \<Rightarrow> f u k))"

definition challengesBy ::
    "((string \<Rightarrow> string \<Rightarrow> bool) option \<Rightarrow> (string \<Rightarrow> 'k \<Rightarrow> bool) option \<Rightarrow> 'k credential \<Rightarrow> bool) \<Rightarrow> bool" where
  "challengesBy admit \<longleftrightarrow>
     (\<forall>c. admit None None c)
     \<and> (\<forall>pw pk c. pw \<noteq> None \<or> pk \<noteq> None \<longrightarrow> admit pw pk c = handlersAccept pw pk c)"

text \<open>The handlers the library gets, over the server's current \<open>Auth\<close>.\<close>

definition pwHandler :: "('k, 's) relayServer \<Rightarrow> (string \<Rightarrow> string \<Rightarrow> bool) option" where
  "pwHandler s = map_option (\<lambda>f u p. fst (f (rsAuth s) u p)) (svPassword (rsServer s))"

definition pkHandler :: "('k, 's) relayServer \<Rightarrow> (string \<Rightarrow> 'k \<Rightarrow> bool) option" where
  "pkHandler s = map_option (\<lambda>f u k. fst (f (rsAuth s) u k)) (svPublicKey (rsServer s))"

section \<open>Lemmas\<close>

definition optsAuth :: "sshOptions \<Rightarrow> auth" where
  "optsAuth opts = (case oAuth opts of None \<Rightarrow> openAuth | Some a \<Rightarrow> a)"

lemma New_eq:
  "New marshal pty opts = Inr s \<longleftrightarrow> TrimSpace (oAddr opts) \<noteq> [] \<and> pty = None
     \<and> s = \<lparr>rsOpts = opts\<lparr>oAuth := Some (optsAuth opts)\<rparr>, rsShell = TrimSpace (oShellOverride opts),
           rsWorkDir = TrimSpace (oWorkDir opts), rsAuth = optsAuth opts,
           rsServer = newSSHServer marshal opts (optsAuth opts), rsListener = None, rsStarted = False\<rparr>"
proof -
  have "newSSHServer marshal (opts\<lparr>oAuth := x\<rparr>) a = newSSHServer marshal opts a" for x a
    by (simp add: newSSHServer_def localForwardCallback_def[abs_def] reverseForwardCallback_def[abs_def])
  moreover have "oAuth opts = Some a \<Longrightarrow> opts\<lparr>oAuth := Some a\<rparr> = opts" for a by simp
  ultimately show ?thesis
    by (cases "oAuth opts"; cases pty) (auto simp: New_def Let_def optsAuth_def)
qed

lemma New_handlers:
  assumes "New marshal pty opts = Inr s"
  shows "pwHandler s = (if \<not> aNoAuth (rsAuth s) \<and> aPassword (rsAuth s) \<noteq> [] then Some (PasswordOK (rsAuth s)) else None)"
    and "pkHandler s = (if \<not> aNoAuth (rsAuth s) \<and> aKeys (rsAuth s) \<noteq> [] then Some (\<lambda>u. PublicKeyOK marshal (rsAuth s)) else None)"
  using assms
  by (auto simp: New_eq newSSHServer_def pwHandler_def pkHandler_def passwordCallback_def publicKeyCallback_def Let_def)

text \<open>The three outcomes of a start.\<close>

lemma serverStart_cases:
  assumes "serverStart E w s = (err, w', s')"
  obtains (refused) "rsStarted s" "err \<noteq> None" "w' = w" "s' = s"
  | (nokey) e fs where "\<not> rsStarted s" "hostKeyOf E (nwFS w) (oHostKeyPath (rsOpts s)) = (Inl e, fs)"
      "err = Some e" "w' = w\<lparr>nwFS := fs\<rparr>" "s' = s"
  | (key) k fs where "\<not> rsStarted s" "hostKeyOf E (nwFS w) (oHostKeyPath (rsOpts s)) = (Inr k, fs)"
      "nwFS w' = fs" "svHostKeys (rsServer s') = svHostKeys (rsServer s) @ [k]"
      "rsOpts s' = rsOpts s" "rsAuth s' = rsAuth s" "pwHandler s' = pwHandler s" "pkHandler s' = pkHandler s"
      "case seListen E (nwOpen w) (oAddr (rsOpts s)) of
         Inl e \<Rightarrow> err = Some (Wrapped [Txt (''listen '' @ oAddr (rsOpts s))] e) \<and> nwOpen w' = nwOpen w \<and> rsListener s' = rsListener s \<and> \<not> rsStarted s'
       | Inr ln \<Rightarrow> err = None \<and> nwOpen w' = nwOpen w @ [ln] \<and> rsListener s' = Some ln \<and> rsStarted s'
           \<and> nwSlog w' = fold slog [logInfo ''host key ready'' [(''path'', LStr (oHostKeyPath (rsOpts s)))],
                logInfo ''ssh server listening'' [(''addr'', LStr ln)]] (nwSlog w)"
proof (cases "rsStarted s")
  case True
  with assms have "err = Some (Msg [Txt ''sshserver: already started''])" "w' = w" "s' = s"
    by (simp_all add: serverStart_def)
  with True show ?thesis by (intro refused) simp_all
next
  case False
  obtain r fs where h: "hostKeyOf E (nwFS w) (oHostKeyPath (rsOpts s)) = (r, fs)" by fastforce
  show ?thesis
  proof (cases r)
    case (Inl e)
    with assms h False have "err = Some e" "w' = w\<lparr>nwFS := fs\<rparr>" "s' = s"
      by (simp_all add: serverStart_def)
    then show ?thesis by (intro nokey[OF False h[unfolded Inl]])
  next
    case (Inr k)
    let ?s1 = "s\<lparr>rsServer := (rsServer s)\<lparr>svHostKeys := svHostKeys (rsServer s) @ [k]\<rparr>\<rparr>"
    have h1: "pwHandler ?s1 = pwHandler s" "pkHandler ?s1 = pkHandler s"
      by (simp_all add: pwHandler_def pkHandler_def)
    show ?thesis
    proof (cases "seListen E (nwOpen w) (oAddr (rsOpts s))")
      case (Inl e)
      with assms h False \<open>r = Inr k\<close>
      have "err = Some (Wrapped [Txt (''listen '' @ oAddr (rsOpts s))] e)" "nwFS w' = fs" "nwOpen w' = nwOpen w" "s' = ?s1"
        by (auto simp: serverStart_def Let_def)
      with h1 Inl show ?thesis by (intro key[OF False h[unfolded \<open>r = Inr k\<close>]]) (simp_all add: False)
    next
      case (Inr ln)
      with assms h False \<open>r = Inr k\<close>
      have s': "err = None" "nwFS w' = fs" "nwOpen w' = nwOpen w @ [ln]"
          "nwSlog w' = fold slog [logInfo ''host key ready'' [(''path'', LStr (oHostKeyPath (rsOpts s)))],
                logInfo ''ssh server listening'' [(''addr'', LStr ln)]] (nwSlog w)"
          "s' = ?s1\<lparr>rsListener := Some ln, rsStarted := True\<rparr>"
        by (auto simp: serverStart_def Let_def)
      have "pwHandler s' = pwHandler s" "pkHandler s' = pkHandler s"
        unfolding s'(5) by (simp_all add: pwHandler_def pkHandler_def)
      with s' Inr show ?thesis by (intro key[OF False h[unfolded \<open>r = Inr k\<close>]]) simp_all
    qed
  qed
qed

end
