(* ===== verification/Relay_Server_Facts.thy ===== *)
theory Relay_Server_Facts
  imports Relay_Server
begin

text \<open>
  The server's life cycle: its listener is open exactly while it is started, its identity
  never changes, and whom it lets in.
\<close>

section \<open>Invariants\<close>

definition ownListener :: "('k, 's) relayServer \<Rightarrow> string multiset" where
  "ownListener s = (if rsStarted s then {#serverAddr s#} else {#})"

definition listenOK :: "netw \<Rightarrow> netw \<Rightarrow> ('k, 's) relayServer \<Rightarrow> bool" where
  "listenOK w0 w s \<longleftrightarrow> mset (nwOpen w) = mset (nwOpen w0) + ownListener s
     \<and> (rsStarted s \<longrightarrow> rsListener s \<noteq> None)"

lemma listenOK_start:
  assumes "serverStart E w s = (err, w', s')" and "listenOK w0 w s"
  shows "listenOK w0 w' s'"
  using assms(1)
proof (cases rule: serverStart_cases)
  case (key k fs)
  with assms(2) show ?thesis
    by (auto simp: listenOK_def ownListener_def serverAddr_def split: sum.splits)
qed (use assms(2) in \<open>auto simp: listenOK_def ownListener_def\<close>)

lemma listenOK_stop:
  assumes "serverStop E w s = (err, w', s')" and "listenOK w0 w s"
  shows "listenOK w0 w' s'"
proof (cases "rsStarted s")
  case False
  with assms show ?thesis by (auto simp: serverStop_def)
next
  case True
  with assms(2) obtain ln where ln: "rsListener s = Some ln" by (auto simp: listenOK_def)
  with assms(1) True have "w' = w\<lparr>nwOpen := remove1 ln (nwOpen w)\<rparr>" "s' = s\<lparr>rsStarted := False\<rparr>"
    by (auto simp: serverStop_def Let_def)
  with assms(2) True ln show ?thesis by (simp add: listenOK_def ownListener_def serverAddr_def)
qed

text \<open>The keys the server was given are one and the same, and it is the key on disk.\<close>

definition identOK :: "('key, 's) sshEnv \<Rightarrow> string \<Rightarrow> netw \<Rightarrow> ('k, 's) relayServer \<Rightarrow> bool" where
  "identOK E path w s \<longleftrightarrow> oHostKeyPath (rsOpts s) = path \<and> faults (nwFS w) OpRead path = None
     \<and> (svHostKeys (rsServer s) \<noteq> [] \<longrightarrow> (\<exists>k. set (svHostKeys (rsServer s)) = {k}
          \<and> (\<forall>g pem. loadOrCreateHostKey (sePaths E) (g :: 'key res) pem (seParse E) (nwFS w) path = (Inr k, nwFS w))))"

lemma identOK_failed:
  fixes s :: "('k, 's) relayServer" and E :: "('key, 's) sshEnv"
  assumes "identOK E path w s"
    and h: "loadOrCreateHostKey (sePaths E) (g :: 'key res) pem (seParse E) (nwFS w) path = (Inl e, fs)"
  shows "identOK E path (w\<lparr>nwFS := fs\<rparr>) s"
proof -
  have "faults fs = faults (nwFS w)"
    using loadOrCreateHostKey_faults[of "sePaths E" g pem "seParse E" "nwFS w" path] h by simp
  then show ?thesis using assms(1) h by (auto simp: identOK_def)
qed

lemma identOK_got:
  fixes s :: "('k, 's) relayServer" and E :: "('key, 's) sshEnv"
  assumes "identOK E path w s"
    and h: "loadOrCreateHostKey (sePaths E) (g :: 'key res) pem (seParse E) (nwFS w) path = (Inr k, nwFS w')"
    and s': "svHostKeys (rsServer s') = svHostKeys (rsServer s) @ [k]" "rsOpts s' = rsOpts s"
  shows "identOK E path w' s'"
proof -
  have "faults (nwFS w') = faults (nwFS w)"
    using loadOrCreateHostKey_faults[of "sePaths E" g pem "seParse E" "nwFS w" path] h by simp
  moreover have "loadOrCreateHostKey (sePaths E) g' pem' (seParse E) (nwFS w') path = (Inr k, nwFS w')" for g' :: "'key res" and pem'
    using h assms(1) by (intro loadOrCreateHostKey_stable) (auto simp: identOK_def)
  moreover have "set (svHostKeys (rsServer s')) = {k}"
  proof (cases "svHostKeys (rsServer s)")
    case Nil
    then show ?thesis by (simp add: s')
  next
    case (Cons x xs)
    with assms(1) obtain k' where "set (svHostKeys (rsServer s)) = {k'}"
        "loadOrCreateHostKey (sePaths E) g pem (seParse E) (nwFS w) path = (Inr k', nwFS w)"
      by (auto simp: identOK_def)
    with h show ?thesis by (simp add: s')
  qed
  ultimately show ?thesis using assms(1) s' by (simp add: identOK_def)
qed

lemma identOK_start:
  assumes "serverStart (E\<lparr>seGen := g, sePem := pem, seListen := l\<rparr>) w s = (err, w', s')" and "identOK E path w s"
  shows "identOK E path w' s'"
proof -
  have path: "oHostKeyPath (rsOpts s) = path" using assms(2) by (simp add: identOK_def)
  from assms(1) show ?thesis
  proof (cases rule: serverStart_cases)
    case (nokey e fs)
    with assms(2) path show ?thesis by (auto simp: hostKeyOf_def intro: identOK_failed)
  next
    case (key k fs)
    with path show ?thesis using identOK_got[OF assms(2), of g pem k w' s'] by (simp add: hostKeyOf_def)
  qed (use assms(2) in simp)
qed

lemma identOK_stop:
  assumes "serverStop E' w s = (err, w', s')" and "identOK E path w s"
  shows "identOK E path w' s'"
  using assms by (auto simp: serverStop_def identOK_def Let_def split: if_splits option.splits)

text \<open>Callbacks and the end of an accept loop touch the log alone.\<close>

lemma serveEnded_simps [simp]:
  "nwFS (serveEnded out w) = nwFS w" "nwOpen (serveEnded out w) = nwOpen w"
  by (simp_all add: serveEnded_def split: option.split)

lemma serverStop_keeps:
  assumes "serverStop E w s = (err, w', s')"
  shows "rsAuth s' = rsAuth s \<and> pwHandler s' = pwHandler s \<and> pkHandler s' = pkHandler s"
  using assms by (auto simp: serverStop_def Let_def pwHandler_def pkHandler_def split: if_splits)

section \<open>Along every life\<close>

lemma srv_reach_listenOK:
  assumes "srv_reach E w0 s0 w s" and "\<not> rsStarted s0"
  shows "listenOK w0 w s"
  using assms(1)
proof induction
  case built
  show ?case using assms(2) by (simp add: listenOK_def ownListener_def)
next
  case (start w s g pem l err w' s')
  then show ?case by (blast intro: listenOK_start)
next
  case (stop w s c err w' s')
  then show ?case by (blast intro: listenOK_stop)
qed (simp_all add: listenOK_def)

lemma srv_reach_identOK:
  assumes "srv_reach E w0 s0 w s" and "identOK E path w0 s0"
  shows "identOK E path w s"
  using assms
proof (induction rule: srv_reach.induct)
  case (start w s g pem l err w' s')
  then show ?case by (blast intro: identOK_start)
next
  case (stop w s c err w' s')
  then show ?case by (blast intro: identOK_stop)
qed (simp_all add: identOK_def)

lemma srv_reach_handlers:
  assumes "srv_reach E w0 s0 w s"
  shows "rsAuth s = rsAuth s0 \<and> pwHandler s = pwHandler s0 \<and> pkHandler s = pkHandler s0"
  using assms
proof induction
  case (start w s g pem l err w' s')
  from start(2) show ?case by (cases rule: serverStart_cases) (use start(3) in auto)
next
  case (stop w s c err w' s')
  with serverStop_keeps[OF stop(2)] show ?case by simp
qed simp_all

section \<open>What is logged\<close>

text \<open>The callbacks are those \<open>New\<close> made, for as long as the server lives.\<close>

definition sameCallbacks :: "('k, 's) relayServer \<Rightarrow> ('k, 's) relayServer \<Rightarrow> bool" where
  "sameCallbacks s s0 \<longleftrightarrow> rsAuth s = rsAuth s0 \<and> svPassword (rsServer s) = svPassword (rsServer s0)
     \<and> svPublicKey (rsServer s) = svPublicKey (rsServer s0) \<and> svLocalFwd (rsServer s) = svLocalFwd (rsServer s0)
     \<and> svReverseFwd (rsServer s) = svReverseFwd (rsServer s0)"

lemma sameCallbacks_refl [simp]: "sameCallbacks s s"
  by (simp add: sameCallbacks_def)

lemma sameCallbacks_start:
  "serverStart E w s = (err, w', s') \<Longrightarrow> sameCallbacks s s0 \<Longrightarrow> sameCallbacks s' s0"
  by (auto simp: serverStart_def sameCallbacks_def Let_def split: if_splits prod.splits sum.splits)

lemma sameCallbacks_stop:
  "serverStop E w s = (err, w', s') \<Longrightarrow> sameCallbacks s s0 \<Longrightarrow> sameCallbacks s' s0"
  by (auto simp: serverStop_def sameCallbacks_def Let_def split: if_splits)

lemma srv_reach_callbacks: "srv_reach E w0 s0 w s \<Longrightarrow> sameCallbacks s s0"
  by (induction rule: srv_reach.induct) (auto intro: sameCallbacks_start sameCallbacks_stop)

lemma answer_same: "sameCallbacks s s0 \<Longrightarrow> answer s q = answer s0 q"
  by (cases q) (simp_all add: sameCallbacks_def split: option.split)

text \<open>What a server \<open>New\<close> made answers.\<close>

lemma New_answers:
  assumes "New marshal pty opts = Inr s"
  shows "answer s (TryPassword u p) =
      (if \<not> aNoAuth (optsAuth opts) \<and> aPassword (optsAuth opts) \<noteq> [] then passwordCallback (optsAuth opts) u p else (False, []))"
    and "answer s (TryKey u k) =
      (if \<not> aNoAuth (optsAuth opts) \<and> aKeys (optsAuth opts) \<noteq> [] then publicKeyCallback marshal (optsAuth opts) u k else (False, []))"
    and "answer s (AskLocalForward u h n) = localForwardCallback opts u h n"
    and "answer s (AskReverseForward u h n) = reverseForwardCallback opts u h n"
  using assms
  by (auto simp: New_eq newSSHServer_def localForwardCallback_def reverseForwardCallback_def)

text \<open>The records a server with these settings can write.\<close>

definition recordOK :: "sshOptions \<Rightarrow> auth \<Rightarrow> logRecord \<Rightarrow> bool" where
  "recordOK opts a r \<longleftrightarrow>
     (lrMessage r = ''password auth'' \<longrightarrow> \<not> aNoAuth a \<and> aPassword a \<noteq> []
        \<and> (\<exists>u ok. lrAttrs r = [(''user'', LStr u), (''ok'', LBool ok)] \<and> (ok \<longrightarrow> aUsername a = [] \<or> u = aUsername a)))
     \<and> (lrMessage r = ''publickey auth'' \<longrightarrow> \<not> aNoAuth a \<and> aKeys a \<noteq> []
        \<and> (\<exists>u ok. lrAttrs r = [(''user'', LStr u), (''ok'', LBool ok)]))
     \<and> (lrMessage r = ''local port forward'' \<longrightarrow> oAllowLocalFwd opts)
     \<and> (lrMessage r = ''reverse port forward'' \<longrightarrow> oAllowRemoteFwd opts)"

lemma answer_records:
  assumes "New marshal pty opts = Inr s"
  shows "\<forall>r \<in> set (snd (answer s q)). recordOK opts (optsAuth opts) r"
  by (cases q) (auto simp: New_answers[OF assms] recordOK_def passwordCallback_def publicKeyCallback_def
      localForwardCallback_def reverseForwardCallback_def Let_def PasswordOK_iff simp del: answer.simps)

definition logGrew :: "(logRecord \<Rightarrow> bool) \<Rightarrow> netw \<Rightarrow> netw \<Rightarrow> bool" where
  "logGrew ok w0 w \<longleftrightarrow> slHandler (nwSlog w) = slHandler (nwSlog w0)
     \<and> (\<exists>new. slWritten (nwSlog w) = slWritten (nwSlog w0) @ new
          \<and> (\<forall>r \<in> set new. ok r \<and> logEnabled (slHandler (nwSlog w0)) (lrLevel r)))"

lemma logGrew_refl [simp]: "logGrew ok w w"
  by (simp add: logGrew_def)

lemma logGrew_same: "nwSlog w' = nwSlog w \<Longrightarrow> logGrew ok w0 w \<Longrightarrow> logGrew ok w0 w'"
  by (simp add: logGrew_def)

lemma logGrew_fold:
  assumes "logGrew ok w0 w" and "\<forall>r \<in> set rs. ok r" and "nwSlog w' = fold slog rs (nwSlog w)"
  shows "logGrew ok w0 w'"
  using assms by (auto simp: logGrew_def)

lemma logGrew_start:
  assumes "serverStart E w s = (err, w', s')" and "logGrew (recordOK opts a) w0 w"
  shows "logGrew (recordOK opts a) w0 w'"
proof -
  let ?k = "logInfo ''host key ready'' [(''path'', LStr (oHostKeyPath (rsOpts s)))]"
  let ?l = "\<lambda>ln. logInfo ''ssh server listening'' [(''addr'', LStr ln)]"
  from assms(1) have "nwSlog w' = nwSlog w \<or> nwSlog w' = fold slog [?k] (nwSlog w) \<or> (\<exists>ln. nwSlog w' = fold slog [?k, ?l ln] (nwSlog w))"
    by (auto simp: serverStart_def Let_def split: if_splits prod.splits sum.splits)
  moreover have "\<forall>r \<in> set [?k, ?l ln]. recordOK opts a r" for ln by (simp add: recordOK_def)
  ultimately show ?thesis
    using logGrew_same[OF _ assms(2)] logGrew_fold[OF assms(2), of "[?k]"] logGrew_fold[OF assms(2), of "[?k, ?l ln]" for ln]
    by (auto simp del: fold_slog)
qed

lemma logGrew_stop: "serverStop E w s = (err, w', s') \<Longrightarrow> logGrew ok w0 w \<Longrightarrow> logGrew ok w0 w'"
  by (auto simp: serverStop_def logGrew_def Let_def split: if_splits option.splits)

lemma logGrew_served: "logGrew (recordOK opts a) w0 w \<Longrightarrow> logGrew (recordOK opts a) w0 (serveEnded out w)"
proof -
  have one: "recordOK opts a r \<Longrightarrow> logGrew (recordOK opts a) w0 w \<Longrightarrow> logGrew (recordOK opts a) w0 (logTo r w)" for r
    by (rule logGrew_fold[where rs = "[r]"]) simp_all
  show "logGrew (recordOK opts a) w0 w \<Longrightarrow> logGrew (recordOK opts a) w0 (serveEnded out w)"
    by (cases out) (simp_all add: serveEnded_def one recordOK_def)
qed

lemma srv_reach_log:
  assumes "srv_reach E w0 s0 w s" and "New marshal pty opts = Inr s0"
  shows "logGrew (recordOK opts (optsAuth opts)) w0 w"
  using assms(1)
proof induction
  case (start w s g pem l err w' s')
  from start(2,3) show ?case by (rule logGrew_start)
next
  case (stop w s c err w' s')
  from stop(2,3) show ?case by (rule logGrew_stop)
next
  case (call w s q)
  have "answer s q = answer s0 q" by (rule answer_same[OF srv_reach_callbacks[OF call(1)]])
  then show ?case
    using answer_records[OF assms(2), of q] by (intro logGrew_fold[OF call(2), of "snd (answer s q)"]) simp_all
next
  case (served w s out)
  then show ?case by (intro logGrew_served)
qed simp

text \<open>A request that is granted leaves one record, at \<open>info\<close>, that names the user.\<close>

primrec callUser :: "'k clientCall \<Rightarrow> string" where
  "callUser (TryPassword u p) = u"
| "callUser (TryKey u k) = u"
| "callUser (AskLocalForward u h p) = u"
| "callUser (AskReverseForward u h p) = u"

lemma granted_recorded:
  assumes "New marshal pty opts = Inr s" and "fst (answer s q)"
  shows "\<exists>r. snd (answer s q) = [r] \<and> lrLevel r = LevelInfo \<and> (''user'', LStr (callUser q)) \<in> set (lrAttrs r)"
  using assms(2)
  by (cases q) (auto simp: New_answers[OF assms(1)] passwordCallback_def publicKeyCallback_def
      localForwardCallback_def reverseForwardCallback_def Let_def simp del: answer.simps split: if_splits)

lemma records_hide_password:
  assumes "New marshal pty opts = Inr s" and "fst (answer s (TryPassword u p)) = fst (answer s (TryPassword u p'))"
  shows "snd (answer s (TryPassword u p)) = snd (answer s (TryPassword u p'))"
  using assms(2) by (auto simp: New_answers(1)[OF assms(1)] passwordCallback_def Let_def simp del: answer.simps split: if_splits)

section \<open>Admission\<close>

lemma admits_iff:
  assumes "challengesBy admit"
    and h: "pw = (if \<not> aNoAuth a \<and> aPassword a \<noteq> [] then Some (PasswordOK a) else None)"
      "pk = (if \<not> aNoAuth a \<and> aKeys a \<noteq> [] then Some (\<lambda>u. PublicKeyOK marshal a) else None)"
  shows "admit pw pk c \<longleftrightarrow>
     (if aNoAuth a \<or> aPassword a = [] \<and> aKeys a = [] then True
      else case c of
        NoCredential u \<Rightarrow> False
      | Password u p \<Rightarrow> aPassword a \<noteq> [] \<and> p = aPassword a \<and> (aUsername a = [] \<or> u = aUsername a)
      | PublicKey u k \<Rightarrow> marshal k \<in> set (aKeys a))"
proof -
  have c: "admit None None c" "pw \<noteq> None \<or> pk \<noteq> None \<Longrightarrow> admit pw pk c = handlersAccept pw pk c"
    using assms(1) unfolding challengesBy_def by blast+
  show ?thesis
  proof (cases "aNoAuth a \<or> aPassword a = [] \<and> aKeys a = []")
    case True
    then have "pw = None" "pk = None" by (auto simp: h)
    with True c(1) show ?thesis by simp
  next
    case False
    then have "pw \<noteq> None \<or> pk \<noteq> None" by (auto simp: h)
    from c(2)[OF this] False show ?thesis
      by (cases c) (auto simp: h handlersAccept_def PasswordOK_iff PublicKeyOK_iff)
  qed
qed

section \<open>Properties\<close>

text \<open>Along every sequence of starts and stops, whatever fails in between, the server owns
  exactly one open listener while it is started, on the address it reports, and none
  otherwise; starting it again while it is started, or stopping it while it is not,
  changes nothing.\<close>
theorem server_listener_invariant:
  assumes "New marshal pty opts = Inr s0" and "srv_reach E w0 s0 w s"
  shows "mset (nwOpen w) = mset (nwOpen w0) + (if rsStarted s then {#serverAddr s#} else {#})
     \<and> (if rsStarted s then serverStart E' w s = (Some (Msg [Txt ''sshserver: already started'']), w, s)
        else serverStop E' w s = (None, w, s))"
proof -
  have "\<not> rsStarted s0" using assms(1) by (auto simp: New_eq)
  with srv_reach_listenOK[OF assms(2)] show ?thesis
    by (simp add: listenOK_def ownListener_def serverStart_def serverStop_def)
qed

definition demoOpts :: sshOptions where
  "demoOpts = \<lparr>oAddr = '':0'', oHostKeyPath = ''k'', oAuth = Some \<lparr>aNoAuth = False, aUsername = [],
     aPassword = ''pw'', aKeys = []\<rparr>, oShellOverride = [], oWorkDir = [], oBanner = [],
     oAllowLocalFwd = True, oAllowRemoteFwd = False\<rparr>"

definition demoEnv :: "(nat, string) sshEnv" where
  "demoEnv = \<lparr>sePaths = unixPaths None, seGen = Inr 1, sePem = (\<lambda>k. ''pem''), seParse = Inr,
     seListen = (\<lambda>inUse addr. Inr ''[::]:40000''), seClose = None\<rparr>"

abbreviation demoWorld :: netw where
  "demoWorld \<equiv> \<lparr>nwFS = setNode bareFS ''k'' (FileNode ''pem'' perm0600), nwOpen = [''[::1]:631''],
     nwSlog = \<lparr>slHandler = (LevelInfo, None), slWritten = []\<rparr>\<rparr>"

text \<open>The same with the server up, and what it logged on the way.\<close>

abbreviation demoUp :: netw where
  "demoUp \<equiv> demoWorld\<lparr>nwOpen := [''[::1]:631'', ''[::]:40000''],
     nwSlog := \<lparr>slHandler = (LevelInfo, None), slWritten = [logInfo ''host key ready'' [(''path'', LStr ''k'')],
       logInfo ''ssh server listening'' [(''addr'', LStr ''[::]:40000'')]]\<rparr>\<rparr>"

lemma demoServer_started:
  obtains s0 :: "(string, string) relayServer" and s where "New (\<lambda>k. k) None demoOpts = Inr s0"
    "srv_reach demoEnv demoWorld s0 demoUp s"
    "rsStarted s" "serverAddr s = ''[::]:40000''" "svHostKeys (rsServer s) = [''pem'']"
    "rsAuth s0 = \<lparr>aNoAuth = False, aUsername = [], aPassword = ''pw'', aKeys = []\<rparr>"
proof -
  have "TrimSpace '':0'' \<noteq> []" by code_simp
  then obtain s0 :: "(string, string) relayServer" where s0: "New (\<lambda>k. k) None demoOpts = Inr s0"
    by (simp add: New_eq demoOpts_def)
  then have i: "\<not> rsStarted s0" "svHostKeys (rsServer s0) = []" "oHostKeyPath (rsOpts s0) = ''k''"
      "rsAuth s0 = \<lparr>aNoAuth = False, aUsername = [], aPassword = ''pw'', aKeys = []\<rparr>"
    by (auto simp: New_eq demoOpts_def newSSHServer_def optsAuth_def)
  have k: "hostKeyOf demoEnv (nwFS demoWorld) ''k'' = (Inr ''pem'', nwFS demoWorld)"
    by (simp add: hostKeyOf_def demoEnv_def loadOrCreateHostKey_def osReadFile_def bareFS_def)
  have l: "seListen demoEnv a b = Inr ''[::]:40000''" for a b by (simp add: demoEnv_def)
  let ?s1 = "s0\<lparr>rsServer := (rsServer s0)\<lparr>svHostKeys := [''pem'']\<rparr>, rsListener := Some ''[::]:40000'', rsStarted := True\<rparr>"
  have st: "serverStart demoEnv demoWorld s0 = (None, demoUp, ?s1)"
    using i k by (simp add: serverStart_def l Let_def logTo_def slog_def)
  have "srv_reach demoEnv demoWorld s0 demoUp ?s1"
    by (rule srv_reach.start[where g = "seGen demoEnv" and pem = "sePem demoEnv" and l = "seListen demoEnv", OF srv_reach.built])
       (simp add: st)
  with s0 i(4) show ?thesis by (intro that[of s0 ?s1]) (simp_all add: serverAddr_def)
qed

theorem server_listener_invariant_witness:
  "\<exists>(s0 :: (string, string) relayServer) w s. srv_reach demoEnv demoWorld s0 w s \<and> rsStarted s
     \<and> mset (nwOpen w) = {#''[::1]:631'', ''[::]:40000''#}"
proof -
  obtain s0 :: "(string, string) relayServer" and s where a: "New (\<lambda>k. k) None demoOpts = Inr s0"
    "srv_reach demoEnv demoWorld s0 demoUp s"
    "rsStarted s" "serverAddr s = ''[::]:40000''" by (rule demoServer_started)
  from server_listener_invariant[OF a(1,2)] a show ?thesis
    by (intro exI[of _ s0] exI[of _ demoUp] exI[of _ s]) auto
qed

text \<open>C14: The log of a server tells the truth about its clients, in any interleaving of starts,
  stops, requests and accept loops that end. It only grows, and what it says of a password
  login names a user and an outcome, appears only when passwords are a way in, and reports
  success only for the configured user, if there is one; forwards are reported only when
  they are allowed. Conversely a request that is granted leaves exactly one record that
  names its user, unless the level is above \<open>info\<close>. A password that was tried shows in the
  log by the outcome alone.\<close>
theorem requests_are_recorded:
  assumes "New marshal pty opts = Inr s0" and "srv_reach E w0 s0 w s"
  shows "(\<exists>new. slWritten (nwSlog w) = slWritten (nwSlog w0) @ new \<and> (\<forall>r \<in> set new.
       (lrMessage r = ''password auth'' \<longrightarrow> \<not> aNoAuth (optsAuth opts) \<and> aPassword (optsAuth opts) \<noteq> []
          \<and> (\<exists>u ok. lrAttrs r = [(''user'', LStr u), (''ok'', LBool ok)]
               \<and> (ok \<longrightarrow> aUsername (optsAuth opts) = [] \<or> u = aUsername (optsAuth opts))))
       \<and> (lrMessage r = ''local port forward'' \<longrightarrow> oAllowLocalFwd opts)
       \<and> (lrMessage r = ''reverse port forward'' \<longrightarrow> oAllowRemoteFwd opts)))
     \<and> (fst (answer s q) \<longrightarrow> (\<exists>r. (''user'', LStr (callUser q)) \<in> set (lrAttrs r)
          \<and> slWritten (nwSlog (fold logTo (snd (answer s q)) w))
             = slWritten (nwSlog w) @ (if fst (slHandler (nwSlog w)) \<in> {LevelDebug, LevelInfo} then [r] else [])))
     \<and> (fst (answer s (TryPassword u p)) = fst (answer s (TryPassword u p'))
          \<longrightarrow> snd (answer s (TryPassword u p)) = snd (answer s (TryPassword u p')))"
proof (intro conjI impI)
  from srv_reach_log[OF assms(2,1)] show "\<exists>new. slWritten (nwSlog w) = slWritten (nwSlog w0) @ new \<and> (\<forall>r \<in> set new.
       (lrMessage r = ''password auth'' \<longrightarrow> \<not> aNoAuth (optsAuth opts) \<and> aPassword (optsAuth opts) \<noteq> []
          \<and> (\<exists>u ok. lrAttrs r = [(''user'', LStr u), (''ok'', LBool ok)]
               \<and> (ok \<longrightarrow> aUsername (optsAuth opts) = [] \<or> u = aUsername (optsAuth opts))))
       \<and> (lrMessage r = ''local port forward'' \<longrightarrow> oAllowLocalFwd opts)
       \<and> (lrMessage r = ''reverse port forward'' \<longrightarrow> oAllowRemoteFwd opts))"
    unfolding logGrew_def recordOK_def by blast
next
  have same: "answer s q' = answer s0 q'" for q' by (rule answer_same[OF srv_reach_callbacks[OF assms(2)]])
  {
    assume "fst (answer s q)"
    with granted_recorded[OF assms(1), of q] obtain r where "snd (answer s q) = [r]" "lrLevel r = LevelInfo"
        "(''user'', LStr (callUser q)) \<in> set (lrAttrs r)" by (auto simp: same)
    then show "\<exists>r. (''user'', LStr (callUser q)) \<in> set (lrAttrs r)
          \<and> slWritten (nwSlog (fold logTo (snd (answer s q)) w))
             = slWritten (nwSlog w) @ (if fst (slHandler (nwSlog w)) \<in> {LevelDebug, LevelInfo} then [r] else [])"
      by (intro exI[of _ r]) simp
  }
  assume "fst (answer s (TryPassword u p)) = fst (answer s (TryPassword u p'))"
  then show "snd (answer s (TryPassword u p)) = snd (answer s (TryPassword u p'))"
    unfolding same by (rule records_hide_password[OF assms(1)])
qed

theorem requests_are_recorded_witness:
  "\<exists>(s0 :: (string, string) relayServer) w s. srv_reach demoEnv demoWorld s0 w s \<and> rsStarted s
     \<and> fst (answer s (TryPassword ''u'' ''pw''))
     \<and> (\<exists>r. (''user'', LStr ''u'') \<in> set (lrAttrs r)
          \<and> slWritten (nwSlog (fold logTo (snd (answer s (TryPassword ''u'' ''pw''))) w)) = slWritten (nwSlog w) @ [r])"
proof -
  obtain s0 :: "(string, string) relayServer" and s where a: "New (\<lambda>k. k) None demoOpts = Inr s0"
    "srv_reach demoEnv demoWorld s0 demoUp s" "rsStarted s" by (rule demoServer_started)
  have "fst (answer s0 (TryPassword ''u'' ''pw''))"
    by (simp add: New_answers(1)[OF a(1)] demoOpts_def optsAuth_def passwordCallback_def PasswordOK_iff Let_def
        del: answer.simps)
  then have "fst (answer s (TryPassword ''u'' ''pw''))"
    by (simp only: answer_same[OF srv_reach_callbacks[OF a(2)]])
  note yes = this
  obtain r where "(''user'', LStr ''u'') \<in> set (lrAttrs r)"
      "slWritten (nwSlog (fold logTo (snd (answer s (TryPassword ''u'' ''pw''))) demoUp)) = slWritten (nwSlog demoUp) @ [r]"
    using conjunct1[OF conjunct2[OF requests_are_recorded[OF a(1,2), of "TryPassword ''u'' ''pw''"]]] yes
    by (auto simp del: answer.simps fold_logTo fold_slog)
  with a(2,3) yes show ?thesis
    by (intro exI[of _ s0] exI[of _ demoUp] exI[of _ s]) blast
qed

text \<open>The server shows one identity for its whole life: all the host keys it is ever given, on
  any number of starts with any key generation, are the same key, and it is the key the
  file on disk holds.\<close>
theorem server_identity_constant:
  assumes "New marshal pty opts = Inr s0" and "srv_reach E w0 s0 w s"
    and "faults (nwFS w0) OpRead (oHostKeyPath opts) = None" and "k \<in> set (svHostKeys (rsServer s))"
  shows "set (svHostKeys (rsServer s)) = {k}
     \<and> hostKeyOf E (nwFS w) (oHostKeyPath opts) = (Inr k, nwFS w)"
proof -
  have "identOK E (oHostKeyPath opts) w0 s0"
    using assms(1,3) by (auto simp: New_eq identOK_def newSSHServer_def)
  with srv_reach_identOK[OF assms(2)] have "identOK E (oHostKeyPath opts) w s" by blast
  with assms(4) show ?thesis by (auto simp: identOK_def hostKeyOf_def)
qed

theorem server_identity_constant_witness:
  "\<exists>(s0 :: (string, string) relayServer) w s. srv_reach demoEnv demoWorld s0 w s \<and> rsStarted s
     \<and> set (svHostKeys (rsServer s)) = {''pem''}"
proof -
  obtain s0 :: "(string, string) relayServer" and s where a: "New (\<lambda>k. k) None demoOpts = Inr s0"
    "srv_reach demoEnv demoWorld s0 demoUp s"
    "rsStarted s" "svHostKeys (rsServer s) = [''pem'']" by (rule demoServer_started)
  have "set (svHostKeys (rsServer s)) = {''pem''}"
    using server_identity_constant[OF a(1,2), of "''pem''"] a(4) by (simp add: bareFS_def)
  with a(2,3) show ?thesis by blast
qed

end
