(* ===== verification/Go_Flag.thy ===== *)
theory Go_Flag
  imports Go_Strings
begin

text \<open>
  The standard library's \<open>flag\<close> package as the program uses it: string and boolean flags, a
  flag set that exits the process on an error (status 2) or on a request for help
  (status 0). The values are kept as strings, the boolean ones as true and false.
\<close>

datatype flagKind = StringFlag | BoolFlag

type_synonym formal = "(string \<times> flagKind) list"
type_synonym flagValues = "string \<Rightarrow> string"

text \<open>\<open>strconv.ParseBool\<close>.\<close>

definition ParseBool :: "string \<Rightarrow> bool option" where
  "ParseBool s =
     (if s \<in> set [''1'', ''t'', ''T'', ''true'', ''TRUE'', ''True''] then Some True
      else if s \<in> set [''0'', ''f'', ''F'', ''false'', ''FALSE'', ''False''] then Some False
      else None)"

definition boolText :: "bool \<Rightarrow> string" where
  "boolText b = (if b then ''true'' else ''false'')"

text \<open>\<open>name=value\<close>: the first equals sign that is not the first byte.\<close>

definition cutValue :: "string \<Rightarrow> string \<times> string option" where
  "cutValue name =
     (let i = Index1 (drop 1 name) CHR ''='' in
      if i < 0 then (name, None) else (take (nat i + 1) name, Some (drop (nat i + 2) name)))"

text \<open>\<open>Parse\<close>: the values and the arguments that are left, or the status of the exit.\<close>

fun parseFlags :: "formal \<Rightarrow> flagValues \<Rightarrow> string list \<Rightarrow> nat + flagValues \<times> string list" where
  "parseFlags F v [] = Inr (v, [])"
| "parseFlags F v (s # args) =
     (if length s < 2 \<or> hd s \<noteq> CHR ''-'' then Inr (v, s # args)
      else if s = ''--'' then Inr (v, args)
      else let name = (if s ! 1 = CHR ''-'' then drop 2 s else drop 1 s) in
        if name = [] \<or> hd name = CHR ''-'' \<or> hd name = CHR ''='' then Inl 2
        else let (key, val) = cutValue name in
          case map_of F key of
            None \<Rightarrow> Inl (if key = ''help'' \<or> key = ''h'' then 0 else 2)
          | Some BoolFlag \<Rightarrow>
              (case ParseBool (case val of None \<Rightarrow> ''true'' | Some x \<Rightarrow> x) of
                 None \<Rightarrow> Inl 2
               | Some b \<Rightarrow> parseFlags F (v(key := boolText b)) args)
          | Some StringFlag \<Rightarrow>
              (case val of
                 Some x \<Rightarrow> parseFlags F (v(key := x)) args
               | None \<Rightarrow> (case args of
                     [] \<Rightarrow> Inl 2
                   | x # args' \<Rightarrow> parseFlags F (v(key := x)) args')))"

section \<open>Flags written out in full\<close>

text \<open>A flag name the program may use: no equals sign, and it does not start with a dash.\<close>

definition plainName :: "string \<Rightarrow> bool" where
  "plainName n \<longleftrightarrow> n \<noteq> [] \<and> CHR ''='' \<notin> set n \<and> hd n \<noteq> CHR ''-''"

abbreviation dashed :: "string \<Rightarrow> string" where
  "dashed n \<equiv> CHR ''-'' # CHR ''-'' # n"

lemma cutValue_plain: "CHR ''='' \<notin> set n \<Longrightarrow> cutValue n = (n, None)"
  by (cases n) (simp_all add: cutValue_def Index1_def)

lemma parseFlags_string:
  assumes "plainName n" and "map_of F n = Some StringFlag"
  shows "parseFlags F v (dashed n # x # args) = parseFlags F (v(n := x)) args"
proof -
  from assms(1) have "n \<noteq> []" "hd n \<noteq> CHR ''-''" "hd n \<noteq> CHR ''=''" "CHR ''='' \<notin> set n"
    by (cases n; auto simp: plainName_def)+
  then show ?thesis using assms(2) by (simp add: cutValue_plain)
qed

lemma parseFlags_bool:
  assumes "plainName n" and "map_of F n = Some BoolFlag"
  shows "parseFlags F v (dashed n # args) = parseFlags F (v(n := ''true'')) args"
proof -
  from assms(1) have "n \<noteq> []" "hd n \<noteq> CHR ''-''" "hd n \<noteq> CHR ''=''" "CHR ''='' \<notin> set n"
    by (cases n; auto simp: plainName_def)+
  moreover have "ParseBool ''true'' = Some True" by (simp add: ParseBool_def)
  ultimately show ?thesis using assms(2) by (simp add: cutValue_plain boolText_def)
qed

declare parseFlags.simps(2) [simp del]

text \<open>
  The program writes a string flag only when its value is not the empty string
  (\<open>optFlag\<close>); reading it back leaves the default of one that is absent.
\<close>

definition optFlag :: "string \<Rightarrow> string \<Rightarrow> string list" where
  "optFlag n x = (if x \<noteq> [] then [dashed n, x] else [])"

lemma parseFlags_opt:
  assumes "plainName n" and "map_of F n = Some StringFlag"
  shows "parseFlags F v (optFlag n x @ args) = parseFlags F (if x \<noteq> [] then v(n := x) else v) args"
  using parseFlags_string[OF assms] by (simp add: optFlag_def)

end
