(* ===== verification/Go_Argv.thy ===== *)
theory Go_Argv
  imports Relay_Prelude
begin

text \<open>
  Windows command lines in the Go library: \<open>syscall.EscapeArg\<close> quotes one argument, and
  \<open>os.commandLineToArgv\<close> (with \<open>readNextArg\<close>) splits the command line a process is given.
\<close>

section \<open>EscapeArg\<close>

text \<open>The loop over the argument: the backslashes before a quote are doubled.\<close>

fun escapeBody :: "nat \<Rightarrow> string \<Rightarrow> string \<times> nat" where
  "escapeBody slashes [] = ([], slashes)"
| "escapeBody slashes (c # s) =
     (if c = CHR 0x5C then (let (b, n) = escapeBody (Suc slashes) s in (c # b, n))
      else if c = CHR 0x22
      then (let (b, n) = escapeBody 0 s in (replicate slashes (CHR 0x5C) @ CHR 0x5C # c # b, n))
      else (let (b, n) = escapeBody 0 s in (c # b, n)))"

definition EscapeArg :: "string \<Rightarrow> string" where
  "EscapeArg s =
     (if s = [] then [CHR 0x22, CHR 0x22]
      else
        let needsBackslash = (CHR 0x22 \<in> set s \<or> CHR 0x5C \<in> set s);
            hasSpace = (CHR '' '' \<in> set s \<or> CHR 0x09 \<in> set s)
        in if \<not> needsBackslash \<and> \<not> hasSpace then s
           else if \<not> needsBackslash then CHR 0x22 # s @ [CHR 0x22]
           else
             let (b, slashes) = escapeBody 0 s in
             if hasSpace then CHR 0x22 # b @ replicate slashes (CHR 0x5C) @ [CHR 0x22]
             else b)"

section \<open>commandLineToArgv\<close>

text \<open>
  \<open>readNextArg\<close>: the argument so far, whether a quote is open and the pending backslashes;
  a doubled quote inside quotes stands for one.
\<close>

fun readNextArg :: "string \<Rightarrow> bool \<Rightarrow> nat \<Rightarrow> string \<Rightarrow> string \<times> string" where
  "readNextArg b inquote nslash [] = (b @ replicate nslash (CHR 0x5C), [])"
| "readNextArg b inquote nslash (c # cmd) =
     (if (c = CHR '' '' \<or> c = CHR 0x09) \<and> \<not> inquote then (b @ replicate nslash (CHR 0x5C), cmd)
      else if c = CHR 0x22 then
        (let b1 = b @ replicate (nslash div 2) (CHR 0x5C) in
         if nslash mod 2 = 0 then
           (case cmd of
              c2 # cmd2 \<Rightarrow>
                if inquote \<and> c2 = CHR 0x22 then readNextArg (b1 @ [c]) (\<not> inquote) 0 cmd2
                else readNextArg b1 (\<not> inquote) 0 cmd
            | [] \<Rightarrow> readNextArg b1 (\<not> inquote) 0 cmd)
         else readNextArg (b1 @ [c]) inquote 0 cmd)
      else if c = CHR 0x5C then readNextArg b inquote (Suc nslash) cmd
      else readNextArg (b @ replicate nslash (CHR 0x5C) @ [c]) inquote 0 cmd)"

text \<open>The turns of the loop, one rule each.\<close>

abbreviation blankChar :: "char \<Rightarrow> bool" where
  "blankChar c \<equiv> c = CHR '' '' \<or> c = CHR 0x09"

declare readNextArg.simps(2) [simp del]

lemma readNextArg_end: "blankChar c \<Longrightarrow> readNextArg b False n (c # cmd) = (b @ replicate n (CHR 0x5C), cmd)"
  by (subst readNextArg.simps(2)) simp

lemma readNextArg_doubled:
  "even n \<Longrightarrow> readNextArg b True n (CHR 0x22 # CHR 0x22 # cmd)
     = readNextArg (b @ replicate (n div 2) (CHR 0x5C) @ [CHR 0x22]) False 0 cmd"
  by (subst readNextArg.simps(2)) (simp add: even_iff_mod_2_eq_zero Let_def)

lemma readNextArg_quote:
  "even n \<Longrightarrow> \<not> q \<or> cmd = [] \<or> hd cmd \<noteq> CHR 0x22 \<Longrightarrow>
   readNextArg b q n (CHR 0x22 # cmd) = readNextArg (b @ replicate (n div 2) (CHR 0x5C)) (\<not> q) 0 cmd"
  by (subst readNextArg.simps(2)) (cases cmd; auto simp: even_iff_mod_2_eq_zero Let_def)

lemma readNextArg_escaped:
  "odd n \<Longrightarrow> readNextArg b q n (CHR 0x22 # cmd)
     = readNextArg (b @ replicate (n div 2) (CHR 0x5C) @ [CHR 0x22]) q 0 cmd"
  by (subst readNextArg.simps(2)) (simp add: odd_iff_mod_2_eq_one Let_def)

lemma readNextArg_backslash: "readNextArg b q n (CHR 0x5C # cmd) = readNextArg b q (Suc n) cmd"
  by (subst readNextArg.simps(2)) simp

lemma readNextArg_other:
  "q \<or> \<not> blankChar c \<Longrightarrow> c \<noteq> CHR 0x22 \<Longrightarrow> c \<noteq> CHR 0x5C \<Longrightarrow>
   readNextArg b q n (c # cmd) = readNextArg (b @ replicate n (CHR 0x5C) @ [c]) q 0 cmd"
  by (subst readNextArg.simps(2)) auto

lemma readNextArg_shorter: "length (snd (readNextArg b q n s)) \<le> length s - 1"
proof (induction s arbitrary: b q n rule: length_induct)
  case (1 s)
  then have IH: "length (snd (readNextArg b q n t)) \<le> length s - 1" if "length t < length s" for t b q n
    using that by (meson diff_le_mono less_imp_le order_trans)
  show ?case
  proof (cases s)
    case (Cons c cmd)
    note IHc = IH[of cmd] IH[of "tl cmd"]
    consider (e) "blankChar c" "\<not> q" | (d) "c = CHR 0x22" "even n" "q" "cmd \<noteq> []" "hd cmd = CHR 0x22"
      | (q) "c = CHR 0x22" "even n" "\<not> q \<or> cmd = [] \<or> hd cmd \<noteq> CHR 0x22"
      | (o) "c = CHR 0x22" "odd n" | (b) "c = CHR 0x5C"
      | (x) "q \<or> \<not> blankChar c" "c \<noteq> CHR 0x22" "c \<noteq> CHR 0x5C" by blast
    then show ?thesis
    proof cases
      case d
      then obtain cmd2 where "cmd = CHR 0x22 # cmd2" by (cases cmd) auto
      with d IH[of cmd2] Cons show ?thesis by (simp add: readNextArg_doubled)
    next
      case e
      with Cons show ?thesis by (auto simp: readNextArg_end)
    qed (use IHc Cons in \<open>simp_all add: readNextArg_quote readNextArg_escaped readNextArg_backslash readNextArg_other\<close>)
  qed simp
qed

function commandLineToArgv :: "string \<Rightarrow> string list" where
  "commandLineToArgv [] = []"
| "commandLineToArgv (c # cmd) =
     (if blankChar c then commandLineToArgv cmd
      else let (arg, rest) = readNextArg [] False 0 (c # cmd) in arg # commandLineToArgv rest)"
  by pat_completeness auto
termination
proof (relation "measure length")
  fix c cmd arg rest and x :: "string \<times> string"
  assume "x = readNextArg [] False 0 (c # cmd)" "(arg, rest) = x"
  then have "rest = snd (readNextArg [] False 0 (c # cmd))" by (metis snd_conv)
  with readNextArg_shorter[of "[]" False 0 "c # cmd"] show "(rest, c # cmd) \<in> measure length" by simp
qed auto

declare commandLineToArgv.simps(2) [simp del]

section \<open>Splitting what was quoted\<close>

lemma readNextArg_backslashes:
  "readNextArg b q n (replicate k (CHR 0x5C) @ t) = readNextArg b q (n + k) t"
  by (induction k arbitrary: n) (simp_all add: readNextArg_backslash)

text \<open>
  Reading an escaped body: \<open>k\<close> backslashes are pending, as they were for the writer; what
  was read, with the backslashes still pending, is the argument.
\<close>

lemma readNextArg_escapeBody:
  assumes "escapeBody k s = (e, m)" and "q \<or> (\<forall>c \<in> set s. \<not> blankChar c)"
  shows "\<exists>content. readNextArg b q k (e @ t) = readNextArg (b @ content) q m t
           \<and> content @ replicate m (CHR 0x5C) = replicate k (CHR 0x5C) @ s"
  using assms
proof (induction s arbitrary: k b e)
  case (Cons c s)
  have ns: "q \<or> (\<forall>c \<in> set s. \<not> blankChar c)" "q \<or> \<not> blankChar c" using Cons.prems(2) by auto
  consider (b) "c = CHR 0x5C" | (q) "c = CHR 0x22" | (x) "c \<noteq> CHR 0x5C" "c \<noteq> CHR 0x22" by blast
  then show ?case
  proof cases
    case b
    with Cons.prems(1) obtain e' where e: "escapeBody (Suc k) s = (e', m)" "e = c # e'"
      by (auto simp: Let_def split: prod.splits)
    from Cons.IH[OF e(1) ns(1), of b] show ?thesis
      using b e(2) by (auto simp: readNextArg_backslash replicate_app_Cons_same)
  next
    case q
    with Cons.prems(1) obtain e' where e: "escapeBody 0 s = (e', m)"
        "e = replicate k (CHR 0x5C) @ CHR 0x5C # c # e'"
      by (auto simp: Let_def split: prod.splits)
    from Cons.IH[OF e(1) ns(1), of "b @ replicate k (CHR 0x5C) @ [CHR 0x22]"] obtain content where
      ct: "readNextArg (b @ replicate k (CHR 0x5C) @ [CHR 0x22]) q 0 (e' @ t)
             = readNextArg ((b @ replicate k (CHR 0x5C) @ [CHR 0x22]) @ content) q m t"
        "content @ replicate m (CHR 0x5C) = s" by auto
    have "readNextArg b q k (e @ t) = readNextArg b q (Suc (k + k)) (CHR 0x22 # e' @ t)"
      using q e(2) by (simp add: readNextArg_backslashes readNextArg_backslash)
    also have "\<dots> = readNextArg (b @ replicate k (CHR 0x5C) @ [CHR 0x22]) q 0 (e' @ t)"
      by (subst readNextArg_escaped) simp_all
    finally show ?thesis
      using ct q by (intro exI[of _ "replicate k (CHR 0x5C) @ [CHR 0x22] @ content"]) simp
  next
    case x
    with Cons.prems(1) obtain e' where e: "escapeBody 0 s = (e', m)" "e = c # e'"
      by (auto simp: Let_def split: prod.splits if_splits)
    from Cons.IH[OF e(1) ns(1), of "b @ replicate k (CHR 0x5C) @ [c]"] obtain content where
      "readNextArg (b @ replicate k (CHR 0x5C) @ [c]) q 0 (e' @ t)
             = readNextArg ((b @ replicate k (CHR 0x5C) @ [c]) @ content) q m t"
        "content @ replicate m (CHR 0x5C) = s" by auto
    then show ?thesis
      using x ns(2) e(2) by (intro exI[of _ "replicate k (CHR 0x5C) @ [c] @ content"])
        (simp add: readNextArg_other)
  qed
qed simp

lemma escapeBody_plain:
  "CHR 0x22 \<notin> set s \<Longrightarrow> CHR 0x5C \<notin> set s \<Longrightarrow> escapeBody 0 s = (s, 0)"
  by (induction s) auto

text \<open>An argument ends at a blank or at the end of the command line.\<close>

abbreviation argEnd :: "string \<Rightarrow> bool" where
  "argEnd t \<equiv> t = [] \<or> blankChar (hd t)"

lemma readNextArg_stop: "argEnd t \<Longrightarrow> readNextArg b False n t = (b @ replicate n (CHR 0x5C), drop 1 t)"
  by (cases t) (simp_all add: readNextArg_end)

lemma readNextArg_close:
  "argEnd t \<Longrightarrow> readNextArg b True m (replicate m (CHR 0x5C) @ CHR 0x22 # t)
     = (b @ replicate m (CHR 0x5C), drop 1 t)"
  by (subst readNextArg_backslashes, subst readNextArg_quote) (auto simp: readNextArg_stop)

lemma readNextArg_open: "readNextArg [] False 0 (CHR 0x22 # r) = readNextArg [] True 0 r"
  by (subst readNextArg_quote) simp_all

lemma readNextArg_EscapeArg:
  assumes "argEnd t"
  shows "readNextArg [] False 0 (EscapeArg s @ t) = (s, drop 1 t)"
proof (cases "s = []")
  case True
  have "readNextArg [] False 0 (CHR 0x22 # CHR 0x22 # t) = readNextArg [] True 0 (CHR 0x22 # t)"
    by (rule readNextArg_open)
  also have "\<dots> = ([], drop 1 t)" using readNextArg_close[OF assms, of "[]" 0] by simp
  finally show ?thesis using True by (simp add: EscapeArg_def)
next
  case False
  let ?bs = "CHR 0x22 \<in> set s \<or> CHR 0x5C \<in> set s"
  let ?sp = "CHR '' '' \<in> set s \<or> CHR 0x09 \<in> set s"
  obtain e m where em: "escapeBody 0 s = (e, m)" by fastforce
  have plain: "\<not> ?bs \<Longrightarrow> e = s \<and> m = 0" using em escapeBody_plain[of s] by simp
  have form: "EscapeArg s = (if ?sp then CHR 0x22 # e @ replicate m (CHR 0x5C) @ [CHR 0x22] else e)"
    using False plain em by (auto simp: EscapeArg_def Let_def)
  show ?thesis
  proof (cases ?sp)
    case True
    obtain content where "readNextArg [] True 0 (e @ replicate m (CHR 0x5C) @ CHR 0x22 # t)
        = readNextArg content True m (replicate m (CHR 0x5C) @ CHR 0x22 # t)"
        "content @ replicate m (CHR 0x5C) = s"
      using readNextArg_escapeBody[OF em, of True "[]"] by auto
    then have "readNextArg [] True 0 (e @ replicate m (CHR 0x5C) @ CHR 0x22 # t) = (s, drop 1 t)"
      using readNextArg_close[OF assms] by simp
    then show ?thesis using True by (simp add: form readNextArg_open)
  next
    case False
    then have "\<forall>c \<in> set s. \<not> blankChar c" by auto
    with readNextArg_escapeBody[OF em, of False "[]" t] obtain content where
      "readNextArg [] False 0 (e @ t) = readNextArg content False m t" "content @ replicate m (CHR 0x5C) = s" by auto
    then show ?thesis using False form readNextArg_stop[OF assms] by simp
  qed
qed

lemma escapeBody_hd: "s \<noteq> [] \<Longrightarrow> fst (escapeBody k s) \<noteq> [] \<and> (hd (fst (escapeBody k s)) = hd s \<or> hd (fst (escapeBody k s)) = CHR 0x5C)"
  by (cases s; cases k) (auto simp: Let_def split: prod.split)

lemma EscapeArg_hd: "EscapeArg s \<noteq> [] \<and> \<not> blankChar (hd (EscapeArg s))"
proof (cases "s = [] \<or> CHR '' '' \<in> set s \<or> CHR 0x09 \<in> set s")
  case True
  then show ?thesis by (auto simp: EscapeArg_def Let_def split: prod.split)
next
  case False
  then have "\<not> blankChar (hd s)" using hd_in_set[of s] by metis
  with False escapeBody_hd[of s 0] show ?thesis by (auto simp: EscapeArg_def Let_def split: prod.splits)
qed

lemma commandLineToArgv_EscapeArg:
  assumes "argEnd t"
  shows "commandLineToArgv (EscapeArg a @ t) = a # commandLineToArgv (drop 1 t)"
proof -
  obtain c r where "EscapeArg a = c # r" "\<not> blankChar c" using EscapeArg_hd[of a] by (cases "EscapeArg a") auto
  with readNextArg_EscapeArg[OF assms, of a] show ?thesis by (simp add: commandLineToArgv.simps(2))
qed

end
