(* ===== verification/Relay_Options.thy ===== *)
theory Relay_Options
  imports Go_Host Go_Flag Go_Argv
begin

text \<open>
  The runtime options of a relay and their three spellings: the service definition
  (\<open>kserviceConfig\<close> of \<open>internal/service/service.go\<close>, with \<open>applyPlatformOptions\<close> of
  \<open>platform_*.go\<close>), the command line of the daemon (\<open>main.go\<close>), and the command line of the
  service commands and of their elevated copy (\<open>cli.go\<close>, \<open>elevate_windows.go\<close>).
\<close>

section \<open>Options\<close>

definition relayName :: string where "relayName = ''termcp-relay''"

record options =
  opName :: string
  opConfigPath :: string
  opLogLevel :: string
  opLogFile :: string
  opWorkDir :: string
  opSystem :: bool
  opUserName :: string
  opPassword :: string
  opNeedsCredential :: bool

definition serviceName :: "options \<Rightarrow> string" where
  "serviceName o' = (if TrimSpace (opName o') \<noteq> [] then TrimSpace (opName o') else relayName)"

definition validateOptions :: "hostEnv \<Rightarrow> options \<Rightarrow> goerr option" where
  "validateOptions h o' =
     (if hGOOS h \<noteq> Windows \<and> opPassword o' \<noteq> []
      then Some (Msg [Txt ''account passwords are only used on Windows; remove the password input''])
      else None)"

section \<open>The service definition\<close>

datatype optVal = KStr string | KBool bool

record kConfig =
  kcName :: string
  kcDisplayName :: string
  kcDescription :: string
  kcArguments :: "string list"
  kcWorkingDirectory :: string
  kcUserName :: string
  kcOption :: "string \<Rightarrow> optVal option"

text \<open>The systemd unit template, its lines joined by newlines.\<close>

definition systemdLines :: "string list" where
  "systemdLines =
    [''[Unit]'',
     ''Description={{Description}}'',
     ''After=network-online.target'',
     ''Wants=network-online.target'',
     ''ConditionFileIsExecutable={{Path | cmdEscape}}'',
     ''{{range Dependencies}}{{.}}'',
     ''{{end}}'',
     ''[Service]'',
     ''StartLimitInterval=5'',
     ''StartLimitBurst=10'',
     ''ExecStart={{Path | cmdEscape}}{{range Arguments}} {{. | cmd}}{{end}}'',
     ''{{if ChRoot}}RootDirectory={{ChRoot | cmd}}'',
     ''{{end}}{{if WorkingDirectory}}WorkingDirectory={{WorkingDirectory | cmdEscape}}'',
     ''{{end}}{{if UserName}}User={{UserName}}'',
     ''{{end}}{{if ReloadSignal}}ExecReload=/bin/kill -{{ReloadSignal}} '' @ [CHR 0x22] @ ''$MAINPID'' @ [CHR 0x22],
     ''{{end}}{{if PIDFile}}PIDFile={{PIDFile | cmd}}'',
     ''{{end}}{{if OutputFileSupport}}StandardOutput=file:{{LogDirectory}}/{{Name}}.out'',
     ''StandardError=file:{{LogDirectory}}/{{Name}}.err'',
     ''{{end}}{{if LimitNOFILE}}LimitNOFILE={{LimitNOFILE}}'',
     ''{{end}}{{if Restart}}Restart={{Restart}}'',
     ''{{end}}{{if SuccessExitStatus}}SuccessExitStatus={{SuccessExitStatus}}'',
     ''{{end}}RestartSec=5'',
     ''EnvironmentFile=-/etc/sysconfig/{{Name}}'',
     '''',
     ''{{range EnvVars}}{{.}}'',
     ''{{end}}[Install]'',
     ''WantedBy=multi-user.target'']"

definition systemdScript :: string where
  "systemdScript = concat (map (\<lambda>l. l @ [CHR 0x0A]) systemdLines)"

text \<open>
  \<open>kservice.OnFailure\<close> and its companions are constants of the library; \<open>K\<close> gives their
  values.
\<close>

record kConsts =
  kOnFailure :: string
  kOnFailureRestart :: string
  kOnFailureDelayDuration :: string

definition applyPlatformOptions :: "kConsts \<Rightarrow> goos \<Rightarrow> (string \<Rightarrow> optVal option) \<Rightarrow> (string \<Rightarrow> optVal option)" where
  "applyPlatformOptions K os m =
     (case os of
        Windows \<Rightarrow> m(kOnFailure K \<mapsto> KStr (kOnFailureRestart K), kOnFailureDelayDuration K \<mapsto> KStr ''5s'')
      | Linux \<Rightarrow> m(''SystemdScript'' \<mapsto> KStr systemdScript)
      | _ \<Rightarrow> m)"

definition kserviceConfig :: "kConsts \<Rightarrow> hostEnv \<Rightarrow> options \<Rightarrow> kConfig" where
  "kserviceConfig K h o' =
     (let args = (if opConfigPath o' \<noteq> [] then [''--config'', opConfigPath o'] else [])
               @ (if opLogFile o' \<noteq> [] then [''--log-file'', opLogFile o'] else [])
               @ (if opWorkDir o' \<noteq> [] then [''--work-dir'', opWorkDir o'] else [])
               @ (if opLogLevel o' \<noteq> [] then [''--log-level'', opLogLevel o'] else []);
          wd = (if opConfigPath o' \<noteq> [] then fpDir (hPaths h) (opConfigPath o') else []);
          o1 = (if opUserName o' \<noteq> [] \<and> hGOOS h = Windows
                then [''Password'' \<mapsto> KStr (opPassword o')] else Map.empty);
          o2 = (case hGOOS h of
                  Linux \<Rightarrow> o1(''Restart'' \<mapsto> KStr ''on-failure'')
                | Darwin \<Rightarrow> o1(''KeepAlive'' \<mapsto> KBool True, ''RunAtLoad'' \<mapsto> KBool True)
                | _ \<Rightarrow> o1)
      in \<lparr>kcName = serviceName o', kcDisplayName = ''termcp-relay SSH daemon'',
          kcDescription = ''Standalone SSH daemon: PTY shells, exec, SFTP and TCP port forwarding.'',
          kcArguments = args, kcWorkingDirectory = wd, kcUserName = opUserName o',
          kcOption = applyPlatformOptions K (hGOOS h) o2\<rparr>)"

section \<open>The daemon's command line\<close>

text \<open>\<open>main\<close> without a subcommand.\<close>

definition mainFormal :: formal where
  "mainFormal = [(''config'', StringFlag), (''log-level'', StringFlag), (''log-file'', StringFlag),
     (''work-dir'', StringFlag)]"

definition mainDefaults :: flagValues where
  "mainDefaults = (\<lambda>n. [])(''config'' := ''config.toml'')"

definition mainOptions :: "string list \<Rightarrow> nat + options" where
  "mainOptions args =
     (case parseFlags mainFormal mainDefaults args of
        Inl code \<Rightarrow> Inl code
      | Inr (v, rest) \<Rightarrow> Inr \<lparr>opName = [], opConfigPath = v ''config'', opLogLevel = v ''log-level'',
          opLogFile = v ''log-file'', opWorkDir = v ''work-dir'', opSystem = False, opUserName = [],
          opPassword = [], opNeedsCredential = False\<rparr>)"

section \<open>The service commands' command line\<close>

definition elevatedOutputFlag :: string where "elevatedOutputFlag = ''--elevated-output''"
definition credentialFlag :: string where "credentialFlag = ''--elevated-credential''"

fun hasFlag :: "string list \<Rightarrow> string \<Rightarrow> bool" where
  "hasFlag [] name = False"
| "hasFlag (a # args) name = (if a = name then True else hasFlag args name)"

text \<open>The loop of \<open>takeCredentialArg\<close>; the path is that of the last pair.\<close>

fun takeCredential :: "string list \<Rightarrow> string \<Rightarrow> string list \<times> string" where
  "takeCredential [] path = ([], path)"
| "takeCredential [a] path = ([a], path)"
| "takeCredential (a # b # args) path =
     (if a = credentialFlag then takeCredential args b
      else let (pruned, p) = takeCredential (b # args) path in (a # pruned, p))"

definition takeCredentialArg :: "string list \<Rightarrow> string list \<times> string" where
  "takeCredentialArg args = takeCredential args []"

text \<open>
  \<open>redirectElevatedOutput\<close>: the files named are created or truncated, and the output goes to
  the last of them that could be opened.
\<close>

fun redirectElevatedOutput ::
    "pathOps \<Rightarrow> fsys \<Rightarrow> string option \<Rightarrow> string list \<Rightarrow> string list \<times> fsys \<times> string option" where
  "redirectElevatedOutput P fs out [] = ([], fs, out)"
| "redirectElevatedOutput P fs out [a] = ([a], fs, out)"
| "redirectElevatedOutput P fs out (a # b # args) =
     (if a = elevatedOutputFlag then
        (case osOpenTrunc P fs b perm0600 of
           (None, fs') \<Rightarrow> redirectElevatedOutput P fs' (Some b) args
         | (Some e, fs') \<Rightarrow> redirectElevatedOutput P fs' out args)
      else let (pruned, r) = redirectElevatedOutput P fs out (b # args) in (a # pruned, r))"

text \<open>How \<open>Command\<close> begins: the hidden flags are consumed before anything is parsed.\<close>

definition openCommand :: "pathOps \<Rightarrow> fsys \<Rightarrow> string list \<Rightarrow> bool \<times> fsys \<times> string option \<times> string list \<times> string" where
  "openCommand P fs args0 =
     (let isElevatedChild = hasFlag args0 elevatedOutputFlag;
          (args1, fs', out) = redirectElevatedOutput P fs None args0;
          (args, credPath) = takeCredentialArg args1
      in (isElevatedChild, fs', out, args, credPath))"

definition serviceFormal :: formal where
  "serviceFormal = [(''config'', StringFlag), (''log-file'', StringFlag), (''log-level'', StringFlag),
     (''work-dir'', StringFlag), (''user'', StringFlag), (''system'', BoolFlag), (''name'', StringFlag)]"

definition serviceDefaults :: flagValues where
  "serviceDefaults = (\<lambda>n. [])(''config'' := ''config.toml'', ''system'' := ''false'', ''name'' := relayName)"

text \<open>The flags of a service command, after its action: an exit status or the options.\<close>

definition serviceOptions :: "string list \<Rightarrow> nat + options" where
  "serviceOptions args =
     (case parseFlags serviceFormal serviceDefaults args of
        Inl code \<Rightarrow> Inl code
      | Inr (v, rest) \<Rightarrow>
          let system = (v ''system'' = ''true'') in
          if system \<and> TrimSpace (v ''user'') \<noteq> [] then Inl 2
          else Inr \<lparr>opName = v ''name'', opConfigPath = v ''config'', opLogLevel = v ''log-level'',
             opLogFile = v ''log-file'', opWorkDir = v ''work-dir'', opSystem = system,
             opUserName = (if system then [] else v ''user''), opPassword = [], opNeedsCredential = False\<rparr>)"

definition childArgs :: "string \<Rightarrow> options \<Rightarrow> string list" where
  "childArgs action o' =
     [''service'', action, ''--config'', opConfigPath o']
     @ (if opLogFile o' \<noteq> [] then [''--log-file'', opLogFile o'] else [])
     @ (if opWorkDir o' \<noteq> [] then [''--work-dir'', opWorkDir o'] else [])
     @ (if opLogLevel o' \<noteq> [] then [''--log-level'', opLogLevel o'] else [])
     @ (if opSystem o' then [''--system''] else [])
     @ (if opUserName o' \<noteq> [] then [''--user'', opUserName o'] else [])
     @ (if opName o' \<noteq> [] \<and> opName o' \<noteq> relayName then [''--name'', opName o'] else [])"

text \<open>\<open>joinArgs\<close> of \<open>elevate_windows.go\<close>.\<close>

fun joinArgsFrom :: "bool \<Rightarrow> string list \<Rightarrow> string" where
  "joinArgsFrom first [] = []"
| "joinArgsFrom first (a # args) = (if first then [] else '' '') @ EscapeArg a @ joinArgsFrom False args"

definition joinArgs :: "string list \<Rightarrow> string" where
  "joinArgs args = joinArgsFrom True args"

definition nameFlag :: "options \<Rightarrow> string" where
  "nameFlag o' = (if opName o' = [] \<or> opName o' = relayName then [] else '' --name '' @ opName o')"

definition accountDisplay :: "hostEnv \<Rightarrow> options \<Rightarrow> string" where
  "accountDisplay h o' =
     (if opUserName o' \<noteq> [] then opUserName o'
      else if hGOOS h = Windows then ''LocalSystem (SYSTEM)'' else ''root'')"

end
