(* ===== verification/Relay_Options_Facts.thy ===== *)
theory Relay_Options_Facts
  imports Relay_Options
begin

text \<open>
  The three spellings say the same: what is written into a service definition or handed to an
  elevated copy is read back as the options it came from, and the account password is in
  neither.
\<close>

section \<open>Flags\<close>

text \<open>The lookups that reading one of the program's flags needs.\<close>

lemma main_flags:
  "map_of mainFormal ''config'' = Some StringFlag" "map_of mainFormal ''log-file'' = Some StringFlag"
  "map_of mainFormal ''work-dir'' = Some StringFlag" "map_of mainFormal ''log-level'' = Some StringFlag"
  by (simp_all add: mainFormal_def)

lemma service_flags:
  "map_of serviceFormal ''config'' = Some StringFlag" "map_of serviceFormal ''log-file'' = Some StringFlag"
  "map_of serviceFormal ''work-dir'' = Some StringFlag" "map_of serviceFormal ''log-level'' = Some StringFlag"
  "map_of serviceFormal ''user'' = Some StringFlag" "map_of serviceFormal ''name'' = Some StringFlag"
  "map_of serviceFormal ''system'' = Some BoolFlag"
  by (simp_all add: serviceFormal_def)

lemma plain_flags:
  "plainName ''config''" "plainName ''log-file''" "plainName ''work-dir''" "plainName ''log-level''"
  "plainName ''user''" "plainName ''name''" "plainName ''system''"
  by (simp_all add: plainName_def)

lemmas read_main = parseFlags_opt[OF plain_flags(1) main_flags(1)] parseFlags_opt[OF plain_flags(2) main_flags(2)]
  parseFlags_opt[OF plain_flags(3) main_flags(3)] parseFlags_opt[OF plain_flags(4) main_flags(4)]

lemmas read_service = parseFlags_opt[OF plain_flags(2) service_flags(2)]
  parseFlags_opt[OF plain_flags(3) service_flags(3)] parseFlags_opt[OF plain_flags(4) service_flags(4)]
  parseFlags_opt[OF plain_flags(5) service_flags(5)] parseFlags_opt[OF plain_flags(6) service_flags(6)]

lemmas read_service_config = parseFlags_string[OF plain_flags(1) service_flags(1)]
lemmas read_service_system = parseFlags_bool[OF plain_flags(7) service_flags(7)]

lemma kserviceConfig_args:
  "kcArguments (kserviceConfig K h o') =
     optFlag ''config'' (opConfigPath o') @ optFlag ''log-file'' (opLogFile o')
     @ optFlag ''work-dir'' (opWorkDir o') @ optFlag ''log-level'' (opLogLevel o') @ []"
  by (simp add: kserviceConfig_def Let_def optFlag_def)

lemma childArgs_flags:
  "childArgs action o' = [''service'', action] @ dashed ''config'' # opConfigPath o'
     # optFlag ''log-file'' (opLogFile o') @ optFlag ''work-dir'' (opWorkDir o')
     @ optFlag ''log-level'' (opLogLevel o') @ (if opSystem o' then [dashed ''system''] else [])
     @ optFlag ''user'' (opUserName o')
     @ optFlag ''name'' (if opName o' = relayName then [] else opName o') @ []"
  by (simp add: childArgs_def optFlag_def)

lemma optional_read:
  "(if x \<noteq> [] then v(n := x) else v) m = (if m = n \<and> x \<noteq> [] then x else v m)"
  by simp

lemma optional_self: "(if x \<noteq> [] then x else []) = x"
  by simp

lemma distinct_flags:
  "''config'' \<noteq> ''log-file''" "''config'' \<noteq> ''work-dir''" "''config'' \<noteq> ''log-level''" "''config'' \<noteq> ''user''"
  "''config'' \<noteq> ''name''" "''config'' \<noteq> ''system''" "''log-file'' \<noteq> ''work-dir''" "''log-file'' \<noteq> ''log-level''"
  "''log-file'' \<noteq> ''user''" "''log-file'' \<noteq> ''name''" "''log-file'' \<noteq> ''system''" "''work-dir'' \<noteq> ''log-level''"
  "''work-dir'' \<noteq> ''user''" "''work-dir'' \<noteq> ''name''" "''work-dir'' \<noteq> ''system''" "''log-level'' \<noteq> ''user''"
  "''log-level'' \<noteq> ''name''" "''log-level'' \<noteq> ''system''" "''user'' \<noteq> ''name''" "''user'' \<noteq> ''system''"
  "''name'' \<noteq> ''system''"
  by simp_all

lemma serviceDefaults_read:
  "serviceDefaults ''log-file'' = []" "serviceDefaults ''work-dir'' = []" "serviceDefaults ''log-level'' = []"
  "serviceDefaults ''user'' = []" "serviceDefaults ''system'' = ''false''" "serviceDefaults ''name'' = relayName"
  by (simp_all add: serviceDefaults_def)

text \<open>The flags of an elevated copy, read back.\<close>

lemma serviceOptions_flags:
  assumes "opSystem o' \<longrightarrow> opUserName o' = []"
  shows "serviceOptions (dashed ''config'' # opConfigPath o'
     # optFlag ''log-file'' (opLogFile o') @ optFlag ''work-dir'' (opWorkDir o')
     @ optFlag ''log-level'' (opLogLevel o') @ (if opSystem o' then [dashed ''system''] else [])
     @ optFlag ''user'' (opUserName o')
     @ optFlag ''name'' (if opName o' = relayName then [] else opName o') @ [])
   = Inr (o'\<lparr>opName := (if opName o' = [] then relayName else opName o'), opPassword := [], opNeedsCredential := False\<rparr>)"
proof -
  let ?n = "if opName o' = relayName then [] else opName o'"
  have n: "(if ?n \<noteq> [] then ?n else relayName) = (if opName o' = [] then relayName else opName o')" by simp
  note reads = optional_read distinct_flags distinct_flags[symmetric] serviceDefaults_read optional_self
    fun_upd_same fun_upd_other n simp_thms if_True if_False
  show ?thesis
  proof (cases "opSystem o'")
    case True
    then show ?thesis
      unfolding serviceOptions_def read_service_config read_service if_P[OF True] append.simps read_service_system
      using assms by (simp add: reads Let_def TrimSpace_Nil del: fun_upd_apply)
  next
    case False
    then show ?thesis
      unfolding serviceOptions_def read_service_config read_service if_not_P[OF False] append.simps
      by (simp add: reads Let_def del: fun_upd_apply)
  qed
qed

section \<open>The command line of Windows\<close>

lemma argv_joinArgsFrom:
  "commandLineToArgv (drop 1 (joinArgsFrom False args)) = args"
proof (induction args)
  case (Cons a args)
  have "argEnd (joinArgsFrom False args)" by (cases args) simp_all
  from commandLineToArgv_EscapeArg[OF this, of a] Cons.IH show ?case by simp
qed simp

lemma argv_joinArgs: "commandLineToArgv (joinArgs args) = args"
proof (cases args)
  case (Cons a as)
  have "joinArgs args = drop 1 (joinArgsFrom False args)" by (simp add: joinArgs_def Cons)
  then show ?thesis by (simp only: argv_joinArgsFrom)
qed (simp add: joinArgs_def)

section \<open>The hidden flags\<close>

lemma takeCredential_id: "credentialFlag \<notin> set args \<Longrightarrow> takeCredential args path = (args, path)"
  by (induction args path rule: takeCredential.induct) auto

lemma takeCredential_pair:
  "credentialFlag \<notin> set args \<Longrightarrow> takeCredential (args @ [credentialFlag, f]) path = (args, f)"
proof (induction args path rule: takeCredential.induct)
  case (2 a path)
  then show ?case by simp
qed auto

lemma redirect_id:
  "elevatedOutputFlag \<notin> set args \<Longrightarrow> redirectElevatedOutput P fs out args = (args, fs, out)"
  by (induction P fs out args rule: redirectElevatedOutput.induct) auto

lemma redirect_pair:
  assumes "elevatedOutputFlag \<notin> set args"
  shows "redirectElevatedOutput P fs out (args @ [elevatedOutputFlag, f]) =
     (args, snd (osWriteFile P fs f [] perm0600),
      if fst (osWriteFile P fs f [] perm0600) = None then Some f else out)"
  using assms
proof (induction P fs out args rule: redirectElevatedOutput.induct)
  case (1 P fs out)
  show ?case by (cases "osWriteFile P fs f [] perm0600") (auto split: option.split)
next
  case (2 P fs out a)
  then show ?case by (cases "osWriteFile P fs f [] perm0600") (auto split: option.split)
next
  case (3 P fs out a b args)
  then show ?case by auto
qed

lemma hasFlag_iff: "hasFlag args name \<longleftrightarrow> name \<in> set args"
  by (induction args) auto

section \<open>The elevated copy's command line\<close>

lemma elevation_readback:
  assumes hidden: "set (childArgs action o') \<inter> {elevatedOutputFlag, credentialFlag} = {}"
    and "report \<noteq> credentialFlag" and "cred \<noteq> elevatedOutputFlag"
    and account: "opSystem o' \<longrightarrow> opUserName o' = []"
    and pre: "credArgs = (if opNeedsCredential o' then [credentialFlag, cred] else [])"
    and argv: "argv = commandLineToArgv (joinArgs (childArgs action o' @ credArgs @ [elevatedOutputFlag, report]))"
    and wr: "osWriteFile P fs report [] perm0600 = (None, fs')"
  shows "\<exists>flags. openCommand P fs (tl argv) =
        (True, fs', Some report, action # flags, if opNeedsCredential o' then cred else [])
     \<and> serviceOptions flags = Inr (o'\<lparr>opName := (if opName o' = [] then relayName else opName o'),
          opPassword := [], opNeedsCredential := False\<rparr>)"
proof -
  let ?f = "drop 2 (childArgs action o')"
  have f: "childArgs action o' = ''service'' # action # ?f" by (simp add: childArgs_def)
  have flags: "?f = dashed ''config'' # opConfigPath o'
     # optFlag ''log-file'' (opLogFile o') @ optFlag ''work-dir'' (opWorkDir o')
     @ optFlag ''log-level'' (opLogLevel o') @ (if opSystem o' then [dashed ''system''] else [])
     @ optFlag ''user'' (opUserName o')
     @ optFlag ''name'' (if opName o' = relayName then [] else opName o') @ []"
    unfolding childArgs_flags by simp
  have ne: "elevatedOutputFlag \<noteq> credentialFlag" by (simp add: elevatedOutputFlag_def credentialFlag_def)
  have h1: "elevatedOutputFlag \<notin> set ((action # ?f) @ credArgs)"
    using hidden assms(3) ne unfolding pre by (subst (asm) f) auto
  have h2: "credentialFlag \<notin> set (action # ?f)"
    using hidden by (subst (asm) f) auto
  have tl: "tl argv = ((action # ?f) @ credArgs) @ [elevatedOutputFlag, report]"
    unfolding argv argv_joinArgs by (subst f) simp
  have out: "redirectElevatedOutput P fs None (tl argv) = ((action # ?f) @ credArgs, fs', Some report)"
    using redirect_pair[OF h1, of P fs None report] wr by (simp add: tl)
  have cred: "takeCredentialArg ((action # ?f) @ credArgs)
      = (action # ?f, if opNeedsCredential o' then cred else [])"
    unfolding takeCredentialArg_def pre
    using takeCredential_pair[OF h2, of cred "[]"] takeCredential_id[OF h2, of "[]"] by auto
  have "hasFlag (tl argv) elevatedOutputFlag" by (simp add: hasFlag_iff tl)
  then have "openCommand P fs (tl argv) = (True, fs', Some report, action # ?f, if opNeedsCredential o' then cred else [])"
    by (simp only: openCommand_def Let_def out cred prod.case)
  moreover have "serviceOptions ?f = Inr (o'\<lparr>opName := (if opName o' = [] then relayName else opName o'),
          opPassword := [], opNeedsCredential := False\<rparr>)"
    unfolding flags by (rule serviceOptions_flags[OF account])
  ultimately show ?thesis by blast
qed

section \<open>Properties\<close>

text \<open>Installing and running agree: the arguments written into the service definition, parsed
  by the daemon the service manager starts, give back the configuration path, log file,
  working directory and log level of the installation, whatever bytes they hold, and
  nothing else is set; the manager is told the configuration's directory to start in.\<close>
lemma service_definition_roundtrip:
  assumes "opConfigPath o' \<noteq> []"
  shows "mainOptions (kcArguments (kserviceConfig K h o')) =
      Inr \<lparr>opName = [], opConfigPath = opConfigPath o', opLogLevel = opLogLevel o', opLogFile = opLogFile o',
           opWorkDir = opWorkDir o', opSystem = False, opUserName = [], opPassword = [], opNeedsCredential = False\<rparr>
    \<and> hd (kcArguments (kserviceConfig K h o')) = ''--config''
    \<and> kcWorkingDirectory (kserviceConfig K h o') = fpDir (hPaths h) (opConfigPath o')"
  unfolding mainOptions_def kserviceConfig_args read_main
  using assms by (simp add: mainDefaults_def optFlag_def kserviceConfig_def Let_def)

definition demoInstall :: options where
  "demoInstall = \<lparr>opName = ''lab'', opConfigPath = ''/etc/my relay/--config'', opLogLevel = ''debug'',
     opLogFile = [], opWorkDir = ''=x'', opSystem = False, opUserName = ''bob'', opPassword = ''s3cret'',
     opNeedsCredential = True\<rparr>"

text \<open>C31: A command line survives Windows: splitting what \<open>joinArgs\<close> made gives back the very same
  arguments, empty ones and those with blanks, quotes and runs of backslashes included.\<close>
theorem joinArgs_roundtrip: "commandLineToArgv (joinArgs args) = args"
  by (rule argv_joinArgs)

text \<open>C23: The elevated copy does what its parent was asked to do: quoting its command line,
  splitting it again, stripping the hidden flags and parsing the rest gives the action, the
  path of the credential file, the file for the output, and the options of the parent,
  all but the password. This needs that no option is itself the name of a hidden flag.\<close>
theorem elevation_roundtrip:
  assumes hidden: "set (childArgs action o') \<inter> {elevatedOutputFlag, credentialFlag} = {}"
    and "report \<noteq> credentialFlag" and "cred \<noteq> elevatedOutputFlag"
    and account: "opSystem o' \<longrightarrow> opUserName o' = []"
    and pre: "credArgs = (if opNeedsCredential o' then [credentialFlag, cred] else [])"
    and argv: "argv = commandLineToArgv (joinArgs (childArgs action o' @ credArgs @ [elevatedOutputFlag, report]))"
    and wr: "osWriteFile P fs report [] perm0600 = (None, fs')"
  shows "\<exists>flags. openCommand P fs (tl argv) =
        (True, fs', Some report, action # flags, if opNeedsCredential o' then cred else [])
     \<and> serviceOptions flags = Inr (o'\<lparr>opName := (if opName o' = [] then relayName else opName o'),
          opPassword := [], opNeedsCredential := False\<rparr>)"
  using assms by (rule elevation_readback)

theorem elevation_roundtrip_witness:
  "\<exists>fs flags r. openCommand (unixPaths None) fs (tl (commandLineToArgv (joinArgs
        (childArgs ''install'' demoInstall @ [credentialFlag, ''c.tmp''] @ [elevatedOutputFlag, ''r.log'']))))
       = (True, setNode fs ''r.log'' (FileNode [] perm0600), Some ''r.log'', ''install'' # flags, ''c.tmp'')
     \<and> serviceOptions flags = Inr r \<and> opConfigPath r = ''/etc/my relay/--config'' \<and> opUserName r = ''bob''
     \<and> opName r = ''lab'' \<and> opPassword r = []"
proof -
  let ?fs = "\<lparr>nodes = Map.empty, faults = (\<lambda>op p. None), shortWrite = (\<lambda>p. 0)\<rparr>"
  have d: "unixDir ''r.log'' = ''.''" by code_simp
  have wr: "osWriteFile (unixPaths None) ?fs ''r.log'' [] perm0600
      = (None, setNode ?fs ''r.log'' (FileNode [] perm0600))"
    by (simp add: osOpenTrunc_def parentOK_def d)
  have hidden: "set (childArgs ''install'' demoInstall) \<inter> {elevatedOutputFlag, credentialFlag} = {}"
    by (simp add: childArgs_def demoInstall_def elevatedOutputFlag_def credentialFlag_def relayName_def)
  have c: "[credentialFlag, ''c.tmp''] = (if opNeedsCredential demoInstall then [credentialFlag, ''c.tmp''] else [])"
    by (simp add: demoInstall_def)
  have n: "''r.log'' \<noteq> credentialFlag" "''c.tmp'' \<noteq> elevatedOutputFlag"
    by (simp_all add: elevatedOutputFlag_def credentialFlag_def)
  have a: "opSystem demoInstall \<longrightarrow> opUserName demoInstall = []" by (simp add: demoInstall_def)
  let ?o = "demoInstall\<lparr>opName := (if opName demoInstall = [] then relayName else opName demoInstall),
      opPassword := [], opNeedsCredential := False\<rparr>"
  have cr: "(if opNeedsCredential demoInstall then ''c.tmp'' else []) = ''c.tmp''" by (simp add: demoInstall_def)
  obtain flags where "openCommand (unixPaths None) ?fs (tl (commandLineToArgv (joinArgs
        (childArgs ''install'' demoInstall @ [credentialFlag, ''c.tmp''] @ [elevatedOutputFlag, ''r.log'']))))
       = (True, setNode ?fs ''r.log'' (FileNode [] perm0600), Some ''r.log'', ''install'' # flags, ''c.tmp'')"
      "serviceOptions flags = Inr ?o"
    using elevation_roundtrip[OF hidden n a c refl wr] unfolding cr by blast
  moreover have "opConfigPath ?o = ''/etc/my relay/--config'' \<and> opUserName ?o = ''bob'' \<and> opName ?o = ''lab'' \<and> opPassword ?o = []"
    by (simp add: demoInstall_def)
  ultimately show ?thesis by blast
qed

end
