(* ===== verification/Relay_Program.thy ===== *)
theory Relay_Program
  imports Relay_Config_Facts Relay_Server Relay_Options Go_Net
begin

text \<open>
  The running relay, \<open>internal/service/service.go\<close>: \<open>Program.Start\<close> loads the configuration,
  opens the log, picks the session directory and brings the SSH server up, \<open>Program.Stop\<close>
  takes it down. What they log goes through the default logger of \<open>Go_Slog\<close>.
\<close>

section \<open>Directories\<close>

definition absOrSelf :: "pathOps \<Rightarrow> string \<Rightarrow> string" where
  "absOrSelf P p = (case fpAbs P p of Inr a \<Rightarrow> a | Inl e \<Rightarrow> p)"

definition isServiceProfile :: "hostEnv \<Rightarrow> string \<Rightarrow> bool" where
  "isServiceProfile h dir =
     (let lower = ToLower (hCase h) (fpToSlash (hPaths h) (TrimSpace dir)) in
      if lower = [] then True
      else Contains lower ''/config/systemprofile'' \<or> Contains lower ''/serviceprofiles/'')"

definition resolveWorkDir :: "hostEnv \<Rightarrow> fsys \<Rightarrow> options \<Rightarrow> config \<Rightarrow> string" where
  "resolveWorkDir h fs o' cfg =
     (let d1 = TrimSpace (scWorkDir (cServer cfg)); d2 = TrimSpace (opWorkDir o');
          fallback = fpDir (hPaths h) (absOrSelf (hPaths h) (opConfigPath o'))
      in if d1 \<noteq> [] then d1
         else if d2 \<noteq> [] then d2
         else case osUserHomeDir h of
                Inl e \<Rightarrow> fallback
              | Inr home \<Rightarrow>
                  if \<not> isServiceProfile h home then
                    (case osStat fs home of
                       Inr st \<Rightarrow> if isDir st then home else fallback
                     | Inl e \<Rightarrow> fallback)
                  else fallback)"

section \<open>Logging\<close>

definition minLevel :: "string \<Rightarrow> logLevel" where
  "minLevel level =
     (let l = TrimSpace level in
      if l = ''debug'' then LevelDebug
      else if l = ''warn'' then LevelWarn
      else if l = ''error'' then LevelError
      else LevelInfo)"

text \<open>The handler and its closer, the log file.\<close>

definition newLogHandler :: "pathOps \<Rightarrow> fsys \<Rightarrow> string \<Rightarrow> string \<Rightarrow> (logHandler \<times> string option) res \<times> fsys" where
  "newLogHandler P fs level logFile =
     (if TrimSpace logFile \<noteq> [] then
        (case osOpenAppend P fs logFile perm0600 of
           (Some err, fs') \<Rightarrow> (Inl (Wrapped [Txt ''open log file '', Quoted logFile] err), fs')
         | (None, fs') \<Rightarrow> (Inr ((minLevel level, Some logFile), Some logFile), fs'))
      else (Inr ((minLevel level, None), None), fs))"

section \<open>Hints\<close>

definition portOf :: "string \<Rightarrow> string" where
  "portOf addr = (case SplitHostPort addr of Inr (h, port) \<Rightarrow> port | Inl e \<Rightarrow> [])"

definition currentUser :: "hostEnv \<Rightarrow> string" where
  "currentUser h =
     (let u = TrimSpace (hGetenv h ''USER''); n = TrimSpace (hGetenv h ''USERNAME'') in
      if u \<noteq> [] then u else if n \<noteq> [] then n else ''user'')"

text \<open>The loop over the addresses of one interface; the accumulator is \<open>out\<close>, whose members are \<open>seen\<close>.\<close>

definition hintAddr :: "ifAddr \<Rightarrow> string list \<Rightarrow> string list" where
  "hintAddr a out =
     (case (case a of IPNet x \<Rightarrow> Some x | IPAddr x \<Rightarrow> Some x | OtherAddr \<Rightarrow> None) of
        None \<Rightarrow> out
      | Some x \<Rightarrow> (case To4 x of
            None \<Rightarrow> out
          | Some v4 \<Rightarrow> if isLoopback4 v4 then out
                      else if ipString v4 \<in> set out then out else out @ [ipString v4]))"

definition hintIf :: "netIf \<Rightarrow> string list \<Rightarrow> string list" where
  "hintIf i out =
     (if \<not> ifUp i \<or> ifLoopback i then out
      else case ifAddrs i of Inl e \<Rightarrow> out | Inr as \<Rightarrow> fold hintAddr as out)"

definition listenableIPv4Hints :: "netIf list res \<Rightarrow> string \<Rightarrow> string list" where
  "listenableIPv4Hints ifaces bound =
     (case SplitHostPort bound of
        Inl e \<Rightarrow> []
      | Inr (h, p) \<Rightarrow>
          let host = TrimSpace h in
          if host \<noteq> [] \<and> host \<noteq> ''0.0.0.0'' \<and> host \<noteq> ''::'' \<and> host \<noteq> ''[::]'' then []
          else case ifaces of Inl e \<Rightarrow> [] | Inr ifs \<Rightarrow> sort (fold hintIf ifs []))"

section \<open>Start and Stop\<close>

record ('k, 's) program =
  pgOpts :: options
  pgSrv :: "('k, 's) relayServer option"
  pgLogCloser :: "string option"

text \<open>What \<open>Start\<close> logs first: the settings it is about to run with.\<close>

record startSummary =
  ssConfig :: string
  ssAddr :: string
  ssWorkDir :: string
  ssHostKey :: string
  ssAuthorizedKeys :: string
  ssNoAuth :: bool
  ssPasswordAuth :: bool
  ssPublicKeyAuth :: bool
  ssLocalForward :: bool
  ssRemoteForward :: bool

definition startRecord :: "startSummary \<Rightarrow> logRecord" where
  "startRecord s =
     logInfo ''termcp-relay starting''
       [(''config'', LStr (ssConfig s)),
        (''addr'', LStr (ssAddr s)),
        (''work_dir'', LStr (ssWorkDir s)),
        (''host_key'', LStr (ssHostKey s)),
        (''authorized_keys'', LStr (ssAuthorizedKeys s)),
        (''no_auth'', LBool (ssNoAuth s)),
        (''password_auth'', LBool (ssPasswordAuth s)),
        (''publickey_auth'', LBool (ssPublicKeyAuth s)),
        (''local_forward'', LBool (ssLocalForward s)),
        (''remote_forward'', LBool (ssRemoteForward s))]"

text \<open>The world: network, files and logger, and the log files open.\<close>

record world =
  wNet :: netw
  wLogs :: "string list"

definition logW :: "logRecord \<Rightarrow> world \<Rightarrow> world" where
  "logW r w = w\<lparr>wNet := logTo r (wNet w)\<rparr>"

text \<open>The records written so far.\<close>

abbreviation wRecords :: "world \<Rightarrow> logRecord list" where
  "wRecords w \<equiv> slWritten (nwSlog (wNet w))"

text \<open>
  What the program is given: the host, the network interfaces, the TOML decoder, the key
  parser, the SSH side.
\<close>

record ('key, 'k, 's) progEnv =
  peHost :: hostEnv
  peIfaces :: "netIf list res"
  peDecode :: tomlDecoder
  peParseKey :: "string \<Rightarrow> ('k \<times> string) option"
  peMarshal :: "'k \<Rightarrow> string"
  peAllocPty :: "goerr option"
  peSSH :: "('key, 's) sshEnv"

definition configAuth :: "config \<Rightarrow> auth" where
  "configAuth cfg = \<lparr>aNoAuth = acNoAuth (cAuth cfg), aUsername = acUsername (cAuth cfg),
     aPassword = acPassword (cAuth cfg), aKeys = []\<rparr>"

definition configSSH :: "config \<Rightarrow> auth \<Rightarrow> string \<Rightarrow> sshOptions" where
  "configSSH cfg a workDir =
     \<lparr>oAddr = scAddr (cServer cfg), oHostKeyPath = scHostKey (cServer cfg), oAuth = Some a,
      oShellOverride = scShell (cServer cfg), oWorkDir = workDir, oBanner = scBanner (cServer cfg),
      oAllowLocalFwd = scAllowLocalFwd (cServer cfg), oAllowRemoteFwd = scAllowRemoteFwd (cServer cfg)\<rparr>"

definition startSummaryOf :: "pathOps \<Rightarrow> options \<Rightarrow> config \<Rightarrow> string \<Rightarrow> startSummary" where
  "startSummaryOf P o' cfg workDir =
     \<lparr>ssConfig = absOrSelf P (opConfigPath o'), ssAddr = scAddr (cServer cfg), ssWorkDir = workDir,
      ssHostKey = scHostKey (cServer cfg), ssAuthorizedKeys = acAuthorizedKeys (cAuth cfg),
      ssNoAuth = acNoAuth (cAuth cfg), ssPasswordAuth = (acPassword (cAuth cfg) \<noteq> []),
      ssPublicKeyAuth = (acAuthorizedKeys (cAuth cfg) \<noteq> []),
      ssLocalForward = scAllowLocalFwd (cServer cfg), ssRemoteForward = scAllowRemoteFwd (cServer cfg)\<rparr>"

text \<open>The end of \<open>Start\<close>: the address it is ready on, and how to connect to it.\<close>

definition connectLine :: "string \<Rightarrow> string \<Rightarrow> string \<Rightarrow> string" where
  "connectLine bound loginUser ip = ''connect: ssh -p '' @ portOf bound @ '' '' @ loginUser @ ''@'' @ ip"

definition announce :: "('key, 'k, 's) progEnv \<Rightarrow> config \<Rightarrow> string \<Rightarrow> world \<Rightarrow> world" where
  "announce E cfg bound w =
     (let w1 = logW (logInfo ''termcp-relay ready'' [(''listen'', LStr bound)]) w;
          loginUser = (if acUsername (cAuth cfg) \<noteq> [] then acUsername (cAuth cfg) else currentUser (peHost E))
      in fold (\<lambda>ip. logW (logInfo (connectLine bound loginUser ip) []))
           (listenableIPv4Hints (peIfaces E) bound) w1)"

text \<open>The second half of \<open>Start\<close>, from the keys on: \<open>None\<close> if the key loop never ends.\<close>

definition bootServer ::
    "('key, 'k, 's) progEnv \<Rightarrow> config \<Rightarrow> string \<Rightarrow> world \<Rightarrow> ('k, 's) program
       \<Rightarrow> (goerr option \<times> world \<times> ('k, 's) program) option" where
  "bootServer E cfg workDir w p =
     (case LoadAuthorizedKeys (peParseKey E) (peMarshal E) (nwFS (wNet w)) (configAuth cfg)
             (acAuthorizedKeys (cAuth cfg)) of
        None \<Rightarrow> None
      | Some (Some err, a) \<Rightarrow> Some (Some (Wrapped [Txt ''load authorized_keys '', Quoted (acAuthorizedKeys (cAuth cfg))] err), w, p)
      | Some (None, a) \<Rightarrow> Some
          (case New (peMarshal E) (peAllocPty E) (configSSH cfg a workDir) of
             Inl err \<Rightarrow> (Some (Wrapped [Txt ''build ssh server''] err), w, p)
           | Inr srv \<Rightarrow>
               (case serverStart (peSSH E) (wNet w) srv of
                  (Some err, n, srv') \<Rightarrow> (Some err, w\<lparr>wNet := n\<rparr>, p)
                | (None, n, srv') \<Rightarrow> (None, announce E cfg (serverAddr srv') (w\<lparr>wNet := n\<rparr>),
                                     p\<lparr>pgSrv := Some srv'\<rparr>))))"

definition programStart ::
    "('key, 'k, 's) progEnv \<Rightarrow> world \<Rightarrow> ('k, 's) program
       \<Rightarrow> (goerr option \<times> world \<times> ('k, 's) program) option" where
  "programStart E w p =
     (if pgSrv p \<noteq> None then Some (Some (Msg [Txt ''termcp-relay: service already started'']), w, p)
      else
        let P = hPaths (peHost E); fs = nwFS (wNet w) in
        case Load P (peDecode E) fs (opConfigPath (pgOpts p)) of
          Inl err \<Rightarrow> Some (Some (Wrapped [Txt ''load config '', Quoted (opConfigPath (pgOpts p))] err), w, p)
        | Inr cfg \<Rightarrow>
            let level = (if TrimSpace (opLogLevel (pgOpts p)) \<noteq> [] then TrimSpace (opLogLevel (pgOpts p))
                         else scLogLevel (cServer cfg)) in
            case newLogHandler P fs level (opLogFile (pgOpts p)) of
              (Inl err, fs') \<Rightarrow> Some (Some err, w\<lparr>wNet := (wNet w)\<lparr>nwFS := fs'\<rparr>\<rparr>, p)
            | (Inr (handler, closer), fs') \<Rightarrow>
                let w1 = w\<lparr>wNet := (wNet w)\<lparr>nwFS := fs', nwSlog := slogSetDefault handler (nwSlog (wNet w))\<rparr>,
                           wLogs := wLogs w @ (case closer of None \<Rightarrow> [] | Some f \<Rightarrow> [f])\<rparr>;
                    p1 = p\<lparr>pgLogCloser := closer\<rparr>;
                    workDir = resolveWorkDir (peHost E) fs' (pgOpts p) cfg
                in bootServer E cfg workDir
                     (logW (startRecord (startSummaryOf P (pgOpts p) cfg workDir)) w1) p1)"

definition programStop ::
    "('key, 'k, 's) progEnv \<Rightarrow> world \<Rightarrow> ('k, 's) program \<Rightarrow> goerr option \<times> world \<times> ('k, 's) program" where
  "programStop E w p =
     (let (stopErr, w1, p1) =
            (case pgSrv p of
               None \<Rightarrow> (None, w, p)
             | Some srv \<Rightarrow>
                 (let w0 = logW (logInfo ''shutting down'' []) w;
                      (err, n, srv') = serverStop (peSSH E) (wNet w0) srv;
                      stopErr = (case err of None \<Rightarrow> None
                                 | Some e \<Rightarrow> if errors_Is e ErrClosed then None else Some e)
                  in (stopErr, w0\<lparr>wNet := n\<rparr>, p\<lparr>pgSrv := None\<rparr>)));
          (w2, p2) = (case pgLogCloser p1 of
                        None \<Rightarrow> (w1, p1)
                      | Some f \<Rightarrow> (w1\<lparr>wLogs := remove1 f (wLogs w1)\<rparr>, p1\<lparr>pgLogCloser := None\<rparr>))
      in (stopErr, w2, p2))"

text \<open>\<open>RunForeground\<close>: start, wait for an interrupt, stop.\<close>

definition RunForeground ::
    "('key, 'k, 's) progEnv \<Rightarrow> world \<Rightarrow> options \<Rightarrow> (goerr option \<times> world) option" where
  "RunForeground E w o' =
     (case programStart E w \<lparr>pgOpts = o', pgSrv = None, pgLogCloser = None\<rparr> of
        None \<Rightarrow> None
      | Some (Some err, w1, p1) \<Rightarrow> Some (Some err, w1)
      | Some (None, w1, p1) \<Rightarrow>
          (let (err, w2, p2) = programStop E w1 p1 in Some (err, w2)))"

end
