(* ===== verification/Relay_Program_Facts.thy ===== *)
theory Relay_Program_Facts
  imports Relay_Program Relay_Server_Facts
begin

text \<open>
  What a started relay is: the configuration it runs, whom it lets in, what it holds open;
  and what stopping gives back.
\<close>

section \<open>Loading the keys\<close>

text \<open>With a parser that consumes input the keys are those of the file, or loading fails.\<close>

lemma LoadAuthorizedKeys_total:
  assumes "consumes parse"
  shows "LoadAuthorizedKeys parse marshal fs a path \<noteq> None"
  using parseKeys_enough[OF assms lessI]
  by (simp add: LoadAuthorizedKeys_def del: keysUpTo.simps split: sum.split)

lemma LoadAuthorizedKeys_fields:
  assumes "LoadAuthorizedKeys parse marshal fs a path = Some (e, a')"
  shows "aNoAuth a' = aNoAuth a" "aUsername a' = aUsername a" "aPassword a' = aPassword a"
    and "e = None \<Longrightarrow> TrimSpace path = [] \<Longrightarrow> a' = a"
    and "e = None \<Longrightarrow> TrimSpace path \<noteq> [] \<Longrightarrow> aKeys a' \<noteq> []"
  using assms by (auto simp: LoadAuthorizedKeys_def split: if_splits sum.splits)

text \<open>Where the keys come from.\<close>

lemma LoadAuthorizedKeys_file:
  assumes "LoadAuthorizedKeys parse marshal fs a path = Some (None, a')" and "TrimSpace path \<noteq> []"
  shows "\<exists>raw. osReadFile fs path = Inr raw \<and> parseKeys parse marshal [] raw = Some (aKeys a') \<and> aKeys a' \<noteq> []
    \<and> (consumes parse \<longrightarrow> aKeys a' = map marshal (fileKeys parse raw))"
proof -
  from assms obtain raw where raw: "osReadFile fs path = Inr raw" "parseKeys parse marshal [] raw = Some (aKeys a')" "aKeys a' \<noteq> []"
    by (auto simp: LoadAuthorizedKeys_def split: if_splits sum.splits)
  have "consumes parse \<longrightarrow> aKeys a' = map marshal (fileKeys parse raw)"
    using raw(2) parseKeys_enough[of parse raw "Suc (length raw)" marshal "[]"] by (auto simp del: keysUpTo.simps)
  with raw show ?thesis by blast
qed

section \<open>Logging\<close>

lemma logW_simps [simp]:
  "wNet (logW r w) = logTo r (wNet w)" "wLogs (logW r w) = wLogs w"
  by (simp_all add: logW_def)

lemma fold_logW:
  "wNet (fold (\<lambda>x. logW (f x)) xs w) = fold logTo (map f xs) (wNet w) \<and> wLogs (fold (\<lambda>x. logW (f x)) xs w) = wLogs w"
  by (induction xs arbitrary: w) simp_all

text \<open>What \<open>Start\<close> announces once the server listens.\<close>

definition announcement :: "('key, 'k, 's) progEnv \<Rightarrow> config \<Rightarrow> string \<Rightarrow> logRecord list" where
  "announcement E cfg bound =
     logInfo ''termcp-relay ready'' [(''listen'', LStr bound)]
     # map (\<lambda>ip. logInfo (connectLine bound
         (if acUsername (cAuth cfg) \<noteq> [] then acUsername (cAuth cfg) else currentUser (peHost E)) ip) [])
       (listenableIPv4Hints (peIfaces E) bound)"

lemma announce_simps [simp]:
  "wNet (announce E cfg bound w) = fold logTo (announcement E cfg bound) (wNet w)"
  "wLogs (announce E cfg bound w) = wLogs w"
  by (simp_all add: announce_def announcement_def Let_def fold_logW)

section \<open>Start\<close>

text \<open>
  The files when the log has been opened: a named log file that was not there is created,
  empty; without one they are what they were.
\<close>

definition logOpened :: "pathOps \<Rightarrow> fsys \<Rightarrow> string \<Rightarrow> fsys" where
  "logOpened P fs logFile = (if TrimSpace logFile = [] then fs else snd (osOpenAppend P fs logFile perm0600))"

lemma newLogHandler_ok:
  assumes "newLogHandler P fs level logFile = (Inr (handler, closer), fs')"
  shows "closer = (if TrimSpace logFile \<noteq> [] then Some logFile else None)"
    and "handler = (minLevel level, closer)"
    and "fs' = logOpened P fs logFile"
  using assms by (auto simp: newLogHandler_def logOpened_def split: if_splits prod.splits option.splits)

text \<open>The outcomes of bringing the server up.\<close>

lemma bootServer_cases:
  fixes E :: "('key, 'k, 's) progEnv"
  assumes "bootServer E cfg workDir w p = Some (err, w', p')"
  obtains (failed) e where "err = Some e" "p' = p" "wLogs w' = wLogs w" "nwOpen (wNet w') = nwOpen (wNet w)"
  | (up) a srv srv' n where "err = None"
      "LoadAuthorizedKeys (peParseKey E) (peMarshal E) (nwFS (wNet w)) (configAuth cfg) (acAuthorizedKeys (cAuth cfg)) = Some (None, a)"
      "New (peMarshal E) (peAllocPty E) (configSSH cfg a workDir) = Inr srv"
      "serverStart (peSSH E) (wNet w) srv = (None, n, srv')"
      "w' = announce E cfg (serverAddr srv') (w\<lparr>wNet := n\<rparr>)" "p' = p\<lparr>pgSrv := Some srv'\<rparr>"
proof -
  from assms obtain r a where ld: "LoadAuthorizedKeys (peParseKey E) (peMarshal E) (nwFS (wNet w)) (configAuth cfg)
      (acAuthorizedKeys (cAuth cfg)) = Some (r, a)"
    by (auto simp: bootServer_def split: option.splits prod.splits)
  show ?thesis
  proof (cases r)
    case (Some e)
    with assms ld have "err = Some (Wrapped [Txt ''load authorized_keys '', Quoted (acAuthorizedKeys (cAuth cfg))] e)" "w' = w" "p' = p"
      by (simp_all add: bootServer_def)
    then show ?thesis by (intro failed) simp_all
  next
    case None
    show ?thesis
    proof (cases "New (peMarshal E) (peAllocPty E) (configSSH cfg a workDir) :: ('k, 's) relayServer res")
      case (Inl e)
      with assms ld None have "err = Some (Wrapped [Txt ''build ssh server''] e)" "w' = w" "p' = p"
        by (simp_all add: bootServer_def)
      then show ?thesis by (intro failed) simp_all
    next
      case (Inr srv)
      obtain e n srv' where st: "serverStart (peSSH E) (wNet w) srv = (e, n, srv')" by (metis prod_cases3)
      show ?thesis
      proof (cases e)
        case (Some e')
        with assms ld None Inr st have "err = Some e'" "w' = w\<lparr>wNet := n\<rparr>" "p' = p"
          by (simp_all add: bootServer_def)
        moreover have "nwOpen n = nwOpen (wNet w)"
          using st Some by (cases rule: serverStart_cases) (auto split: sum.splits)
        ultimately show ?thesis by (intro failed) simp_all
      next
        case None
        with assms ld \<open>r = None\<close> Inr st have "err = None"
            "w' = announce E cfg (serverAddr srv') (w\<lparr>wNet := n\<rparr>)" "p' = p\<lparr>pgSrv := Some srv'\<rparr>"
          by (simp_all add: bootServer_def)
        with up[of a srv n srv'] ld \<open>r = None\<close> Inr st None show ?thesis by simp
      qed
    qed
  qed
qed

definition startLevel :: "('k, 's) program \<Rightarrow> config \<Rightarrow> string" where
  "startLevel p cfg = (if TrimSpace (opLogLevel (pgOpts p)) \<noteq> [] then TrimSpace (opLogLevel (pgOpts p))
     else scLogLevel (cServer cfg))"

text \<open>The outcomes of a start: refused, stopped before the server, or the server's outcome.\<close>

lemma programStart_cases:
  assumes "programStart E w p = Some (err, w', p')"
  obtains (refused) "pgSrv p \<noteq> None" "err \<noteq> None" "w' = w" "p' = p"
  | (early) "pgSrv p = None" "err \<noteq> None" "wLogs w' = wLogs w" "nwOpen (wNet w') = nwOpen (wNet w)" "p' = p"
  | (boot) cfg fs' closer handler where "pgSrv p = None"
      "Load (hPaths (peHost E)) (peDecode E) (nwFS (wNet w)) (opConfigPath (pgOpts p)) = Inr cfg"
      "closer = (if TrimSpace (opLogFile (pgOpts p)) \<noteq> [] then Some (opLogFile (pgOpts p)) else None)"
      "handler = (minLevel (startLevel p cfg), closer)"
      "bootServer E cfg (resolveWorkDir (peHost E) fs' (pgOpts p) cfg)
         (logW (startRecord (startSummaryOf (hPaths (peHost E)) (pgOpts p) cfg (resolveWorkDir (peHost E) fs' (pgOpts p) cfg)))
           (w\<lparr>wNet := (wNet w)\<lparr>nwFS := fs', nwSlog := slogSetDefault handler (nwSlog (wNet w))\<rparr>,
            wLogs := wLogs w @ (case closer of None \<Rightarrow> [] | Some f \<Rightarrow> [f])\<rparr>))
         (p\<lparr>pgLogCloser := closer\<rparr>) = Some (err, w', p')"
      "fs' = logOpened (hPaths (peHost E)) (nwFS (wNet w)) (opLogFile (pgOpts p))"
proof (cases "pgSrv p")
  case (Some s)
  with assms show ?thesis by (intro refused) (auto simp: programStart_def)
next
  case None
  let ?P = "hPaths (peHost E)"
  show ?thesis
  proof (cases "Load ?P (peDecode E) (nwFS (wNet w)) (opConfigPath (pgOpts p))")
    case (Inl e)
    with assms None show ?thesis by (intro early) (auto simp: programStart_def Let_def)
  next
    case (Inr cfg)
    let ?level = "if TrimSpace (opLogLevel (pgOpts p)) \<noteq> [] then TrimSpace (opLogLevel (pgOpts p)) else scLogLevel (cServer cfg)"
    obtain r fs' where lg: "newLogHandler ?P (nwFS (wNet w)) ?level (opLogFile (pgOpts p)) = (r, fs')" by fastforce
    show ?thesis
    proof (cases r)
      case (Inl e)
      with assms None Inr lg have "err = Some e" "w' = w\<lparr>wNet := (wNet w)\<lparr>nwFS := fs'\<rparr>\<rparr>" "p' = p"
        by (simp_all add: programStart_def Let_def del: if_split)
      with None show ?thesis by (intro early) simp_all
    next
      case r: (Inr hc)
      obtain handler closer where hc: "hc = (handler, closer)" by (cases hc)
      from assms None Inr lg r hc have
        "bootServer E cfg (resolveWorkDir (peHost E) fs' (pgOpts p) cfg)
         (logW (startRecord (startSummaryOf (hPaths (peHost E)) (pgOpts p) cfg (resolveWorkDir (peHost E) fs' (pgOpts p) cfg)))
           (w\<lparr>wNet := (wNet w)\<lparr>nwFS := fs', nwSlog := slogSetDefault handler (nwSlog (wNet w))\<rparr>,
            wLogs := wLogs w @ (case closer of None \<Rightarrow> [] | Some f \<Rightarrow> [f])\<rparr>))
         (p\<lparr>pgLogCloser := closer\<rparr>) = Some (err, w', p')"
        by (simp add: programStart_def Let_def del: if_split)
      then show ?thesis
        by (rule boot[OF None Inr newLogHandler_ok(1)[OF lg[unfolded r hc]]
            newLogHandler_ok(2)[OF lg[unfolded r hc], folded startLevel_def] _ newLogHandler_ok(3)[OF lg[unfolded r hc]]])
    qed
  qed
qed

text \<open>What a server that came up has logged.\<close>

lemma started_log:
  assumes "serverStart S n srv = (None, n', srv')"
  shows "nwSlog n' = fold slog [logInfo ''host key ready'' [(''path'', LStr (oHostKeyPath (rsOpts srv)))],
           logInfo ''ssh server listening'' [(''addr'', LStr (serverAddr srv'))]] (nwSlog n)"
  using assms by (cases rule: serverStart_cases) (auto simp: serverAddr_def split: sum.splits)

text \<open>A start that succeeds, in full.\<close>

lemma programStart_ok:
  fixes E :: "('key, 'k, 's) progEnv"
  assumes "programStart E w p = Some (None, w', p')"
  obtains cfg fs' a srv srv' n1 n2 where
    "pgSrv p = None" "pgSrv p' = Some srv'"
    "Load (hPaths (peHost E)) (peDecode E) (nwFS (wNet w)) (opConfigPath (pgOpts p)) = Inr cfg"
    "LoadAuthorizedKeys (peParseKey E) (peMarshal E) fs' (configAuth cfg) (acAuthorizedKeys (cAuth cfg)) = Some (None, a)"
    "New (peMarshal E) (peAllocPty E) (configSSH cfg a (resolveWorkDir (peHost E) fs' (pgOpts p) cfg)) = Inr srv"
    "serverStart (peSSH E) n1 srv = (None, n2, srv')"
    "wRecords w' = wRecords w @ (if minLevel (startLevel p cfg) \<in> {LevelDebug, LevelInfo}
       then startRecord (startSummaryOf (hPaths (peHost E)) (pgOpts p) cfg (resolveWorkDir (peHost E) fs' (pgOpts p) cfg))
            # logInfo ''host key ready'' [(''path'', LStr (oHostKeyPath (rsOpts srv)))]
            # logInfo ''ssh server listening'' [(''addr'', LStr (serverAddr srv'))]
            # announcement E cfg (serverAddr srv')
       else [])"
    "nwFS n1 = fs'" "nwOpen n1 = nwOpen (wNet w)" "nwFS (wNet w') = nwFS n2" "nwOpen (wNet w') = nwOpen n2"
    "fs' = logOpened (hPaths (peHost E)) (nwFS (wNet w)) (opLogFile (pgOpts p))"
  using assms
proof (cases rule: programStart_cases)
  case (boot cfg fs' closer handler)
  from boot(5) show ?thesis
  proof (cases rule: bootServer_cases)
    case (up a srv srv' n)
    have written: "wRecords w' = wRecords w @ (if minLevel (startLevel p cfg) \<in> {LevelDebug, LevelInfo}
       then startRecord (startSummaryOf (hPaths (peHost E)) (pgOpts p) cfg (resolveWorkDir (peHost E) fs' (pgOpts p) cfg))
            # logInfo ''host key ready'' [(''path'', LStr (oHostKeyPath (rsOpts srv)))]
            # logInfo ''ssh server listening'' [(''addr'', LStr (serverAddr srv'))]
            # announcement E cfg (serverAddr srv')
       else [])"
      by (subst up(5)) (simp add: started_log[OF up(4)] boot(4) announcement_def startRecord_def filter_map comp_def)
    show ?thesis
      by (rule that[OF boot(1) _ boot(2) _ up(3,4) written _ _ _ _ boot(6)]) (use up in simp_all)
  qed simp
qed simp_all

lemma started_server:
  assumes "New marshal pty opts = Inr srv" and "serverStart S n srv = (None, n', srv')"
  shows "rsStarted srv' \<and> rsListener srv' = Some (serverAddr srv') \<and> rsAuth srv' = rsAuth srv
    \<and> pwHandler srv' = pwHandler srv \<and> pkHandler srv' = pkHandler srv
    \<and> nwOpen n' = nwOpen n @ [serverAddr srv'] \<and> seListen S (nwOpen n) (oAddr opts) = Inr (serverAddr srv')"
  using assms(2)
proof (cases rule: serverStart_cases)
  case (key k fs)
  have "oAddr (rsOpts srv) = oAddr opts" using assms(1) by (simp add: New_eq)
  with key show ?thesis by (auto simp: serverAddr_def split: sum.splits)
qed simp_all

lemma serverStart_keeps_settings:
  "serverStart S n srv = (err, n', srv') \<Longrightarrow>
   rsWorkDir srv' = rsWorkDir srv \<and> rsShell srv' = rsShell srv
   \<and> svLocalFwd (rsServer srv') = svLocalFwd (rsServer srv) \<and> svReverseFwd (rsServer srv') = svReverseFwd (rsServer srv)"
  by (auto simp: serverStart_def Let_def split: if_splits prod.splits sum.splits)

section \<open>The session directory\<close>

context path_laws begin

lemma resolveWorkDir_spec:
  assumes "hPaths h = P" and "fpToSlash (hPaths h) [] = []" and "fpAbs (hPaths h) (opConfigPath o') = Inr cfgPath"
  shows "TrimSpace (resolveWorkDir h fs o' cfg) \<noteq> []
    \<and> (if \<not> blank (scWorkDir (cServer cfg)) then resolveWorkDir h fs o' cfg = TrimSpace (scWorkDir (cServer cfg))
       else if \<not> blank (opWorkDir o') then resolveWorkDir h fs o' cfg = TrimSpace (opWorkDir o')
       else if (\<exists>home m. osUserHomeDir h = Inr home \<and> \<not> isServiceProfile h home \<and> osStat fs home = Inr (DirNode m))
       then osUserHomeDir h = Inr (resolveWorkDir h fs o' cfg)
       else resolveWorkDir h fs o' cfg = fpDir (hPaths h) cfgPath)"
proof -
  have fb: "fpDir (hPaths h) (absOrSelf (hPaths h) (opConfigPath o')) = fpDir (hPaths h) cfgPath"
    using assms(3) by (simp add: absOrSelf_def)
  have nb: "TrimSpace (fpDir (hPaths h) cfgPath) \<noteq> []"
    using assms(1,3) by (metis abs_isAbs dir_isAbs isAbs_nonblank)
  have home: "TrimSpace home \<noteq> []" if "\<not> isServiceProfile h home" for home
    using that assms(2) by (auto simp: isServiceProfile_def Let_def)
  have isd: "isDir n \<longleftrightarrow> (\<exists>m. n = DirNode m)" for n by (cases n) auto
  show ?thesis
    unfolding resolveWorkDir_def Let_def fb blank_def
    using nb home by (auto simp: isd split: sum.split)
qed

end

section \<open>Hints\<close>

text \<open>The non-loopback IPv4 addresses of an address entry, and of an interface that is up.\<close>

definition addrIPv4 :: "ifAddr \<Rightarrow> string set" where
  "addrIPv4 a = {ipString v4 | x v4. (a = IPNet x \<or> a = IPAddr x) \<and> To4 x = Some v4 \<and> \<not> isLoopback4 v4}"

lemma hintAddr_spec: "distinct out \<Longrightarrow> distinct (hintAddr a out) \<and> set (hintAddr a out) = set out \<union> addrIPv4 a"
  by (cases a) (auto simp: hintAddr_def addrIPv4_def split: option.splits)

lemma fold_hintAddr: "distinct out \<Longrightarrow> distinct (fold hintAddr as out) \<and> set (fold hintAddr as out) = set out \<union> \<Union> (addrIPv4 ` set as)"
proof (induction as arbitrary: out)
  case (Cons a as)
  with hintAddr_spec[OF Cons.prems, of a] Cons.IH[of "hintAddr a out"] show ?case by auto
qed simp

definition ifIPv4 :: "netIf \<Rightarrow> string set" where
  "ifIPv4 i = (if ifUp i \<and> \<not> ifLoopback i then (case ifAddrs i of Inl e \<Rightarrow> {} | Inr as \<Rightarrow> \<Union> (addrIPv4 ` set as)) else {})"

lemma hintIf_spec: "distinct out \<Longrightarrow> distinct (hintIf i out) \<and> set (hintIf i out) = set out \<union> ifIPv4 i"
  using fold_hintAddr[of out] by (auto simp: hintIf_def ifIPv4_def split: sum.splits)

lemma fold_hintIf: "distinct out \<Longrightarrow> distinct (fold hintIf  ifs out) \<and> set (fold hintIf  ifs out) = set out \<union> \<Union> (ifIPv4 ` set ifs)"
proof (induction ifs arbitrary: out)
  case (Cons i ifs)
  with hintIf_spec[OF Cons.prems, of i] Cons.IH[of "hintIf i out"] show ?case by auto
qed simp

text \<open>The addresses offered to clients are sorted, without repetition, and exactly the
  non-loopback IPv4 addresses of the interfaces that are up, when the relay listens on
  every address; when it is bound to one address there are none.\<close>
lemma hints_exact:
  "sorted (listenableIPv4Hints ifaces bound) \<and> distinct (listenableIPv4Hints ifaces bound)
   \<and> set (listenableIPv4Hints ifaces bound) =
      (case SplitHostPort bound of
         Inl e \<Rightarrow> {}
       | Inr (h, port) \<Rightarrow>
           if TrimSpace h \<in> {[], ''0.0.0.0'', ''::'', ''[::]''}
           then (case ifaces of Inl e \<Rightarrow> {} | Inr ifs \<Rightarrow> \<Union> (ifIPv4 ` set ifs)) else {})"
proof (cases "SplitHostPort bound")
  case (Inr hp)
  obtain h port where hp: "hp = (h, port)" by (cases hp)
  let ?every = "TrimSpace h \<in> {[], ''0.0.0.0'', ''::'', ''[::]''}"
  have e: "(TrimSpace h \<noteq> [] \<and> TrimSpace h \<noteq> ''0.0.0.0'' \<and> TrimSpace h \<noteq> ''::'' \<and> TrimSpace h \<noteq> ''[::]'') = (\<not> ?every)"
    by simp
  show ?thesis
    unfolding listenableIPv4Hints_def Inr hp sum.case prod.case Let_def e
    using fold_hintIf[of "[]"] by (cases ?every; cases ifaces) simp_all
qed (simp add: listenableIPv4Hints_def)

section \<open>Starts and stops\<close>

text \<open>
  Any sequence of starts and stops of one program, each in one of the environments \<open>Es\<close>
  (configurations, networks and keys may change in between).
\<close>

inductive prog_reach ::
    "('key, 'k, 's) progEnv set \<Rightarrow> world \<Rightarrow> ('k, 's) program \<Rightarrow> world \<Rightarrow> ('k, 's) program \<Rightarrow> bool"
  for Es w0 p0 where
  fresh: "prog_reach Es w0 p0 w0 p0"
| start: "prog_reach Es w0 p0 w p \<Longrightarrow> E \<in> Es \<Longrightarrow> programStart E w p = Some (err, w', p')
     \<Longrightarrow> prog_reach Es w0 p0 w' p'"
| stop: "prog_reach Es w0 p0 w p \<Longrightarrow> E \<in> Es \<Longrightarrow> programStop E w p = (err, w', p')
     \<Longrightarrow> prog_reach Es w0 p0 w' p'"

definition heldListener :: "('k, 's) program \<Rightarrow> string multiset" where
  "heldListener p = (case pgSrv p of None \<Rightarrow> {#} | Some s \<Rightarrow> {#serverAddr s#})"

definition progOK :: "world \<Rightarrow> world \<Rightarrow> ('k, 's) program \<Rightarrow> bool" where
  "progOK w0 w p \<longleftrightarrow> mset (nwOpen (wNet w)) = mset (nwOpen (wNet w0)) + heldListener p
     \<and> (\<forall>s. pgSrv p = Some s \<longrightarrow> rsStarted s \<and> rsListener s = Some (serverAddr s))"

lemma progOK_start:
  assumes "programStart E w p = Some (err, w', p')" and ok: "progOK w0 w p"
  shows "progOK w0 w' p'"
  using assms(1)
proof (cases rule: programStart_cases)
  case (boot cfg fs' closer handler)
  from boot(5) show ?thesis
  proof (cases rule: bootServer_cases)
    case (failed e)
    with ok boot(1) show ?thesis by (simp add: progOK_def heldListener_def)
  next
    case (up a srv srv' n)
    from started_server[OF up(3,4)] ok boot(1) show ?thesis
      by (simp add: progOK_def heldListener_def up(5,6))
  qed
qed (use ok in \<open>auto simp: progOK_def heldListener_def\<close>)

lemma programStop_parts:
  assumes "programStop E w p = (err, w', p')"
  shows "pgSrv p' = None \<and> pgLogCloser p' = None \<and> pgOpts p' = pgOpts p
    \<and> wLogs w' = (case pgLogCloser p of None \<Rightarrow> wLogs w | Some f \<Rightarrow> remove1 f (wLogs w))
    \<and> wNet w' = (case pgSrv p of None \<Rightarrow> wNet w
        | Some s \<Rightarrow> fst (snd (serverStop (peSSH E) (logTo (logInfo ''shutting down'' []) (wNet w)) s)))"
  using assms
  by (cases "pgSrv p"; cases "pgLogCloser p") (auto simp: programStop_def Let_def split: prod.splits)

lemma progOK_stop:
  assumes "programStop E w p = (err, w', p')" and ok: "progOK w0 w p"
  shows "progOK w0 w' p'"
proof -
  note parts = programStop_parts[OF assms(1)]
  show ?thesis
  proof (cases "pgSrv p")
    case None
    with parts ok show ?thesis by (simp add: progOK_def heldListener_def)
  next
    case (Some s)
    with ok have s: "rsStarted s" "rsListener s = Some (serverAddr s)" by (auto simp: progOK_def)
    then have "nwOpen (fst (snd (serverStop (peSSH E) (logTo r (wNet w)) s))) = remove1 (serverAddr s) (nwOpen (wNet w))" for r
      by (simp add: serverStop_def Let_def)
    with parts ok Some show ?thesis by (simp add: progOK_def heldListener_def)
  qed
qed

lemma prog_reach_OK:
  assumes "prog_reach Es w0 p0 w p" and "pgSrv p0 = None"
  shows "progOK w0 w p"
  using assms(1)
proof induction
  case fresh
  then show ?case using assms(2) by (simp add: progOK_def heldListener_def)
qed (auto intro: progOK_start progOK_stop)

text \<open>
  The log files: the one the program holds, and one for each start that opened its log over
  one that was still open.
\<close>

definition heldLog :: "('k, 's) program \<Rightarrow> string multiset" where
  "heldLog p = (case pgLogCloser p of None \<Rightarrow> {#} | Some f \<Rightarrow> {#f#})"

definition logsOK :: "world \<Rightarrow> options \<Rightarrow> world \<Rightarrow> ('k, 's) program \<Rightarrow> bool" where
  "logsOK w0 o' w p \<longleftrightarrow> pgOpts p = o' \<and> (pgLogCloser p = None \<or> pgLogCloser p = Some (opLogFile o'))
     \<and> (\<exists>n. mset (wLogs w) = mset (wLogs w0) + heldLog p + replicate_mset n (opLogFile o'))"

lemma programStart_logs:
  assumes "programStart E w p = Some (err, w', p')"
  shows "pgOpts p' = pgOpts p \<and>
    (pgLogCloser p' = pgLogCloser p \<and> wLogs w' = wLogs w
     \<or> pgLogCloser p' = None \<and> wLogs w' = wLogs w
     \<or> pgLogCloser p' = Some (opLogFile (pgOpts p)) \<and> wLogs w' = wLogs w @ [opLogFile (pgOpts p)])"
  using assms
proof (cases rule: programStart_cases)
  case (boot cfg fs' closer handler)
  from boot(5) show ?thesis
    by (cases rule: bootServer_cases) (simp_all add: boot(3))
qed simp_all

lemma logsOK_start:
  assumes "programStart E w p = Some (err, w', p')" and "logsOK w0 o' w p"
  shows "logsOK w0 o' w' p'"
proof -
  from assms(2) obtain n where n: "mset (wLogs w) = mset (wLogs w0) + heldLog p + replicate_mset n (opLogFile o')"
      "pgOpts p = o'" "pgLogCloser p = None \<or> pgLogCloser p = Some (opLogFile o')"
    by (auto simp: logsOK_def)
  then have "\<exists>m. mset (wLogs w) = mset (wLogs w0) + replicate_mset m (opLogFile o')"
    by (auto simp: heldLog_def intro: exI[of _ n] exI[of _ "Suc n"])
  with programStart_logs[OF assms(1)] n show ?thesis
    by (auto simp: logsOK_def heldLog_def)
qed

lemma logsOK_stop:
  assumes "programStop E w p = (err, w', p')" and "logsOK w0 o' w p"
  shows "logsOK w0 o' w' p'"
  using programStop_parts[OF assms(1)] assms(2)
  by (auto simp: logsOK_def heldLog_def split: option.splits)

lemma prog_reach_logs:
  "prog_reach Es w0 p0 w p \<Longrightarrow> pgLogCloser p0 = None \<Longrightarrow> logsOK w0 (pgOpts p0) w p"
proof (induction rule: prog_reach.induct)
  case fresh
  then show ?case by (auto simp: logsOK_def heldLog_def intro: exI[of _ 0])
qed (auto intro: logsOK_start logsOK_stop)

lemma start_stop_logs:
  assumes "programStart E w p = Some (err, w1, p1)" and "programStop E' w1 p1 = (err', w2, p2)" and "pgLogCloser p = None"
  shows "mset (wLogs w2) = mset (wLogs w)"
  using programStart_logs[OF assms(1)] programStop_parts[OF assms(2)] assms(3) by auto

lemma programStart_total:
  assumes "consumes (peParseKey E)"
  shows "programStart E w p \<noteq> None"
proof -
  have b: "bootServer E cfg d w1 p1 \<noteq> None" for cfg d w1 p1
    unfolding bootServer_def using LoadAuthorizedKeys_total[OF assms]
    by (simp del: not_None_eq split: option.split prod.split)
  show ?thesis
    by (simp add: programStart_def Let_def b del: if_split not_None_eq split: if_split sum.split prod.split)
qed

section \<open>A concrete relay\<close>

abbreviation freshProgram :: "options \<Rightarrow> ('k, 's) program" where
  "freshProgram o' \<equiv> \<lparr>pgOpts = o', pgSrv = None, pgLogCloser = None\<rparr>"

definition labHost :: hostEnv where
  "labHost = \<lparr>hGOOS = Linux, hPaths = unixPaths (Some []), hCase = asciiTable, hGetenv = (\<lambda>v. []),
     hEnviron = [], hLookPath = (\<lambda>n. Inl ErrNotExist)\<rparr>"

definition labEnv :: "(nat, string, string) progEnv" where
  "labEnv = \<lparr>peHost = labHost, peIfaces = Inr [\<lparr>ifUp = True, ifLoopback = False, ifAddrs = Inr [IPNet [10, 0, 0, 7]]\<rparr>], peDecode = pwDecoder, peParseKey = (\<lambda>s. None), peMarshal = (\<lambda>k. k),
     peAllocPty = None,
     peSSH = \<lparr>sePaths = unixPaths (Some []), seGen = Inr 1, sePem = (\<lambda>k. ''pem''), seParse = Inr,
       seListen = (\<lambda>inUse addr. Inr ''[::]:2222''), seClose = None\<rparr>\<rparr>"

definition labOpts :: options where
  "labOpts = \<lparr>opName = [], opConfigPath = ''/c.toml'', opLogLevel = [], opLogFile = [], opWorkDir = [],
     opSystem = False, opUserName = [], opPassword = [], opNeedsCredential = False\<rparr>"

definition labWorld :: world where
  "labWorld = \<lparr>wNet = \<lparr>nwFS = plainFS, nwOpen = [], nwSlog = \<lparr>slHandler = (LevelInfo, None), slWritten = []\<rparr>\<rparr>, wLogs = []\<rparr>"

lemma labKey: "\<exists>fs'. loadOrCreateHostKey (unixPaths (Some [])) (Inr (1::nat)) (\<lambda>k. ''pem'') Inr plainFS ''/host_key.pem''
    = (Inr ''pem'', fs')"
proof -
  have d: "unixDir ''/host_key.pem'' = ''/''" "unixDir ''/'' = ''/''" by code_simp+
  show ?thesis
    by (simp add: loadOrCreateHostKey_def generateHostKeyPEM_def osReadFile_def osWriteFile_def osOpenTrunc_def osWriteString_def parentOK_def
        plainFS_def d Let_def osMkdirAll.simps osMkdir_def dirExists_def)
qed

lemma lab_start: "\<exists>w' p'. programStart labEnv labWorld (freshProgram labOpts) = Some (None, w', p')"
proof -
  let ?cfg = "Defaults\<lparr>cConfigDir := ''/'', cServer := (cServer Defaults)\<lparr>scHostKey := ''/host_key.pem''\<rparr>,
                   cAuth := (cAuth Defaults)\<lparr>acPassword := ''pw''\<rparr>\<rparr>"
  have ld: "Load (hPaths (peHost labEnv)) (peDecode labEnv) plainFS ''/c.toml'' = Inr ?cfg"
    using Load_example by (simp add: labEnv_def labHost_def)
  obtain fs' where k: "loadOrCreateHostKey (unixPaths (Some [])) (Inr (1::nat)) (\<lambda>k. ''pem'') Inr plainFS ''/host_key.pem''
    = (Inr ''pem'', fs')" using labKey by blast
  have t: "TrimSpace ''0.0.0.0:2222'' \<noteq> []" by code_simp
  have "bootServer labEnv ?cfg d W (freshProgram labOpts) \<noteq> None
    \<and> fst (the (bootServer labEnv ?cfg d W (freshProgram labOpts))) = None" if "nwFS (wNet W) = plainFS" for d W
    using k t that
    by (simp add: bootServer_def LoadAuthorizedKeys_def Defaults_def New_def configSSH_def configAuth_def
        serverStart_def hostKeyOf_def labEnv_def Let_def)
  then have b: "\<exists>w' p'. bootServer labEnv ?cfg d W (freshProgram labOpts) = Some (None, w', p')"
    if "nwFS (wNet W) = plainFS" for d W
    using that by (metis option.exhaust_sel prod_cases3 fst_conv)
  have f: "nwFS (wNet labWorld) = plainFS" "opConfigPath labOpts = ''/c.toml''" "opLogFile labOpts = []"
    by (simp_all add: labWorld_def labOpts_def)
  show ?thesis
    using b by (simp add: programStart_def ld f Let_def newLogHandler_def del: if_split)
qed

section \<open>Properties\<close>

text \<open>C4: Whatever the order of starts and stops and however they fail, the relay holds exactly
  one listener while it runs and none otherwise; a second start is refused and changes
  nothing; and after a stop the listeners are those there were at first. Of its log files a
  stop closes the one the program holds, that of the last start that opened one: a start from a program that has none open and
  the stop after it leave the open files as they were. What may be left open are only
  further openings of the same log file, by starts that failed and were followed by another
  start.\<close>
theorem relay_holds_one_listener:
  assumes "prog_reach Es w0 (freshProgram o') w p"
  shows "mset (nwOpen (wNet w)) = mset (nwOpen (wNet w0)) + (case pgSrv p of None \<Rightarrow> {#} | Some s \<Rightarrow> {#serverAddr s#})
     \<and> (if pgSrv p = None then True
        else programStart E w p = Some (Some (Msg [Txt ''termcp-relay: service already started'']), w, p))
     \<and> (\<exists>err w' p'. programStop E w p = (err, w', p') \<and> pgSrv p' = None \<and> pgLogCloser p' = None
          \<and> mset (nwOpen (wNet w')) = mset (nwOpen (wNet w0))
          \<and> mset (wLogs w) = mset (wLogs w') + (case pgLogCloser p of None \<Rightarrow> {#} | Some f \<Rightarrow> {#f#})
          \<and> (\<exists>n. mset (wLogs w') = mset (wLogs w0) + replicate_mset n (opLogFile o')))
     \<and> (pgLogCloser p = None \<longrightarrow> (\<forall>F err w1 p1 err' w2 p2.
          programStart F w p = Some (err, w1, p1) \<and> programStop E w1 p1 = (err', w2, p2)
          \<longrightarrow> mset (wLogs w2) = mset (wLogs w)))"
proof -
  have ok: "progOK w0 w p" by (rule prog_reach_OK[OF assms]) simp
  have logs: "logsOK w0 o' w p" using prog_reach_logs[OF assms] by simp
  obtain err w' p' where st: "programStop E w p = (err, w', p')" by (metis prod_cases3)
  from progOK_stop[OF st ok] programStop_parts[OF st]
  have "pgSrv p' = None \<and> pgLogCloser p' = None \<and> mset (nwOpen (wNet w')) = mset (nwOpen (wNet w0))"
    by (simp add: progOK_def heldListener_def)
  moreover have "mset (wLogs w) = mset (wLogs w') + (case pgLogCloser p of None \<Rightarrow> {#} | Some f \<Rightarrow> {#f#})"
  proof (cases "pgLogCloser p")
    case (Some f)
    from logs obtain n where "mset (wLogs w) = mset (wLogs w0) + heldLog p + replicate_mset n (opLogFile o')"
      unfolding logsOK_def by blast
    with Some have "f \<in># mset (wLogs w)" by (simp only: heldLog_def) simp
    with Some programStop_parts[OF st] show ?thesis by simp
  qed (use programStop_parts[OF st] in simp)
  moreover have "\<exists>n. mset (wLogs w') = mset (wLogs w0) + replicate_mset n (opLogFile o')"
    using logsOK_stop[OF st logs] programStop_parts[OF st] by (auto simp: logsOK_def heldLog_def)
  moreover have "pgLogCloser p = None \<longrightarrow> (\<forall>F err w1 p1 err' w2 p2.
      programStart F w p = Some (err, w1, p1) \<and> programStop E w1 p1 = (err', w2, p2)
      \<longrightarrow> mset (wLogs w2) = mset (wLogs w))"
    using start_stop_logs by blast
  moreover have "mset (nwOpen (wNet w)) = mset (nwOpen (wNet w0)) + (case pgSrv p of None \<Rightarrow> {#} | Some s \<Rightarrow> {#serverAddr s#})"
    using ok by (simp add: progOK_def heldListener_def)
  moreover have "if pgSrv p = None then True
        else programStart E w p = Some (Some (Msg [Txt ''termcp-relay: service already started'']), w, p)"
    by (simp add: programStart_def)
  ultimately show ?thesis using st by blast
qed

theorem relay_holds_one_listener_witness:
  "\<exists>w p. prog_reach {labEnv} labWorld (freshProgram labOpts) w p \<and> pgSrv p \<noteq> None \<and> nwOpen (wNet w) = [''[::]:2222'']
     \<and> (\<exists>err w' p'. programStop labEnv w p = (err, w', p') \<and> nwOpen (wNet w') = [])"
proof -
  obtain w p where st: "programStart labEnv labWorld (freshProgram labOpts) = Some (None, w, p)" using lab_start by blast
  then have r: "prog_reach {labEnv} labWorld (freshProgram labOpts) w p"
    using prog_reach.start[OF prog_reach.fresh] by blast
  obtain cfg fs' a srv srv' n1 n2 where s: "pgSrv p = Some srv'"
    "New (peMarshal labEnv) (peAllocPty labEnv) (configSSH cfg a (resolveWorkDir (peHost labEnv) fs' labOpts cfg)) = Inr srv"
    "serverStart (peSSH labEnv) n1 srv = (None, n2, srv')" "nwOpen n1 = nwOpen (wNet labWorld)" "nwOpen (wNet w) = nwOpen n2"
    using programStart_ok[OF st] by (metis program.select_convs(1))
  from started_server[OF s(2,3)] s(4,5) have "nwOpen (wNet w) = [''[::]:2222'']"
    by (auto simp: labEnv_def labWorld_def)
  with relay_holds_one_listener[OF r, of labEnv] r s(1) show ?thesis
    by (fastforce simp: labWorld_def)
qed

text \<open>C38: With a key parser that consumes its input, a start always comes to an end: it has an
  error or a running server to show.\<close>
theorem start_always_ends:
  assumes "consumes (peParseKey E)" and "pgSrv p = None"
  shows "\<exists>err w' p'. programStart E w p = Some (err, w', p')
     \<and> (case err of Some e \<Rightarrow> pgSrv p' = None
        | None \<Rightarrow> (\<exists>s. pgSrv p' = Some s \<and> rsStarted s \<and> serverAddr s \<in> set (nwOpen (wNet w'))))"
proof -
  obtain err w' p' where st: "programStart E w p = Some (err, w', p')"
    using programStart_total[OF assms(1), of w p] by (metis not_Some_eq prod_cases3)
  show ?thesis
  proof (cases err)
    case None
    from st[unfolded None] show ?thesis
    proof (cases rule: programStart_ok)
      case (1 cfg fs' a srv srv' n1 n2)
      with started_server[OF 1(5,6)] st None show ?thesis by auto
    qed
  next
    case (Some e)
    from st have "pgSrv p' = None"
    proof (cases rule: programStart_cases)
      case (boot cfg fs' closer handler)
      from boot(5) Some show ?thesis by (cases rule: bootServer_cases) (auto simp: assms(2))
    qed (use assms(2) in auto)
    with st Some show ?thesis by auto
  qed
qed

theorem start_always_ends_witness:
  "\<exists>err w' p'. programStart labEnv labWorld (freshProgram labOpts) = Some (err, w', p')"
  using start_always_ends[of labEnv "freshProgram labOpts" labWorld] by (auto simp: consumes_def labEnv_def)

text \<open>C1: Whom a running relay lets in, from the configuration it loaded: with \<open>no_auth\<close>, or with
  neither a password nor a named keys file, everybody; otherwise exactly the holders of
  the password or of a key that the parser finds in the configured keys file, as that file
  is when the log has been opened. Everybody is let in without \<open>no_auth\<close> only on an address
  whose host counts as loopback, or when the keys file is named by blanks alone.\<close>
theorem started_relay_admission:
  assumes "challengesBy admit" and "programStart E w p = Some (None, w', p')"
  shows "\<exists>cfg srv keys.
     Load (hPaths (peHost E)) (peDecode E) (nwFS (wNet w)) (opConfigPath (pgOpts p)) = Inr cfg
     \<and> pgSrv p' = Some srv \<and> seListen (peSSH E) (nwOpen (wNet w)) (scAddr (cServer cfg)) = Inr (serverAddr srv)
     \<and> (let ac = cAuth cfg; everybody = (acNoAuth ac \<or> acPassword ac = [] \<and> blank (acAuthorizedKeys ac)) in
        (if blank (acAuthorizedKeys ac) then keys = []
         else \<exists>raw. osReadFile (logOpened (hPaths (peHost E)) (nwFS (wNet w)) (opLogFile (pgOpts p))) (acAuthorizedKeys ac) = Inr raw
            \<and> parseKeys (peParseKey E) (peMarshal E) [] raw = Some keys \<and> keys \<noteq> []
            \<and> (consumes (peParseKey E) \<longrightarrow> keys = map (peMarshal E) (fileKeys (peParseKey E) raw)))
        \<and> (\<forall>c. admit (pwHandler srv) (pkHandler srv) c =
            (everybody \<or> (case c of NoCredential u \<Rightarrow> False
               | Password u pw \<Rightarrow> acPassword ac \<noteq> [] \<and> pw = acPassword ac \<and> (acUsername ac = [] \<or> u = acUsername ac)
               | PublicKey u k \<Rightarrow> peMarshal E k \<in> set keys)))
        \<and> (everybody \<longrightarrow> acNoAuth ac \<or> acAuthorizedKeys ac \<noteq> [] \<or> isLoopback (fst (splitHostPort (scAddr (cServer cfg))))))"
  using assms(2)
proof (cases rule: programStart_ok)
  case (1 cfg fs' a srv srv' n1 n2)
  let ?ac = "cAuth cfg"
  note up = started_server[OF 1(5,6)]
  have a: "aNoAuth a = acNoAuth ?ac" "aUsername a = acUsername ?ac" "aPassword a = acPassword ?ac"
    using LoadAuthorizedKeys_fields(1,2,3)[OF 1(4)] by (simp_all add: configAuth_def)
  have k: "aKeys a = [] \<longleftrightarrow> blank (acAuthorizedKeys ?ac)"
    using LoadAuthorizedKeys_fields(4,5)[OF 1(4)] by (auto simp: configAuth_def blank_def)
  have r: "rsAuth srv = a" using 1(5) by (simp add: New_eq optsAuth_def configSSH_def)
  have h: "pwHandler srv' = (if \<not> aNoAuth a \<and> aPassword a \<noteq> [] then Some (PasswordOK a) else None)"
    "pkHandler srv' = (if \<not> aNoAuth a \<and> aKeys a \<noteq> [] then Some (\<lambda>u. PublicKeyOK (peMarshal E) a) else None)"
    using up New_handlers[OF 1(5)] r by simp_all
  have v: "acNoAuth ?ac \<or> acPassword ?ac \<noteq> [] \<or> acAuthorizedKeys ?ac \<noteq> []
      \<or> isLoopback (fst (splitHostPort (scAddr (cServer cfg))))"
    using 1(3) by (auto simp: Load_eq_Inr Validate_None_iff simp del: normalize_fields)
  have adm: "admit (pwHandler srv') (pkHandler srv') c =
      ((acNoAuth ?ac \<or> acPassword ?ac = [] \<and> blank (acAuthorizedKeys ?ac)) \<or> (case c of NoCredential u \<Rightarrow> False
         | Password u pw \<Rightarrow> acPassword ?ac \<noteq> [] \<and> pw = acPassword ?ac \<and> (acUsername ?ac = [] \<or> u = acUsername ?ac)
         | PublicKey u k \<Rightarrow> peMarshal E k \<in> set (aKeys a)))" for c
    by (cases c) (auto simp: admits_iff[OF assms(1) h] a k)
  have l: "\<exists>raw. osReadFile fs' (acAuthorizedKeys ?ac) = Inr raw \<and> parseKeys (peParseKey E) (peMarshal E) [] raw = Some (aKeys a)
      \<and> aKeys a \<noteq> [] \<and> (consumes (peParseKey E) \<longrightarrow> aKeys a = map (peMarshal E) (fileKeys (peParseKey E) raw))"
    if "\<not> blank (acAuthorizedKeys ?ac)"
    using LoadAuthorizedKeys_file[OF 1(4)] that by (simp add: blank_def)
  have s: "seListen (peSSH E) (nwOpen (wNet w)) (scAddr (cServer cfg)) = Inr (serverAddr srv')"
    using up 1(9) by (simp add: configSSH_def)
  show ?thesis
    unfolding Let_def
    by (intro exI[of _ cfg] exI[of _ srv'] exI[of _ "aKeys a"])
      (use 1(2,3) s adm l v k in \<open>auto simp: 1(12)\<close>)
qed

theorem started_relay_admission_witness:
  "\<exists>w' p' srv. programStart labEnv labWorld (freshProgram labOpts) = Some (None, w', p') \<and> pgSrv p' = Some srv
     \<and> handlersAccept (pwHandler srv) (pkHandler srv) (Password ''u'' ''pw'')"
proof -
  let ?admit = "\<lambda>pw pk (c :: string credential). pw = None \<and> pk = None \<or> handlersAccept pw pk c"
  have ch: "challengesBy ?admit" by (auto simp: challengesBy_def)
  obtain w' p' where st: "programStart labEnv labWorld (freshProgram labOpts) = Some (None, w', p')" using lab_start by blast
  have ld: "Load (hPaths (peHost labEnv)) (peDecode labEnv) (nwFS (wNet labWorld)) (opConfigPath labOpts) =
      Inr (Defaults\<lparr>cConfigDir := ''/'', cServer := (cServer Defaults)\<lparr>scHostKey := ''/host_key.pem''\<rparr>,
                   cAuth := (cAuth Defaults)\<lparr>acPassword := ''pw''\<rparr>\<rparr>)"
    using Load_example by (simp add: labEnv_def labHost_def labWorld_def labOpts_def)
  from started_relay_admission[OF ch st, unfolded Let_def] obtain cfg srv keys where s:
      "Load (hPaths (peHost labEnv)) (peDecode labEnv) (nwFS (wNet labWorld))
         (opConfigPath (pgOpts (freshProgram labOpts :: (string, string) program))) = Inr cfg" "pgSrv p' = Some srv"
      "\<forall>c. ?admit (pwHandler srv) (pkHandler srv) c =
         ((acNoAuth (cAuth cfg) \<or> acPassword (cAuth cfg) = [] \<and> blank (acAuthorizedKeys (cAuth cfg))) \<or> (case c of NoCredential u \<Rightarrow> False
           | Password u pw \<Rightarrow> acPassword (cAuth cfg) \<noteq> [] \<and> pw = acPassword (cAuth cfg) \<and> (acUsername (cAuth cfg) = [] \<or> u = acUsername (cAuth cfg))
           | PublicKey u k \<Rightarrow> peMarshal labEnv k \<in> set keys))"
    by (elim exE conjE) (rule that, assumption+)
  have c: "acNoAuth (cAuth cfg) = False" "acPassword (cAuth cfg) = ''pw''" "acUsername (cAuth cfg) = []"
    using s(1) ld by (auto simp: Defaults_def)
  from s(3)[rule_format, of "NoCredential []"] s(3)[rule_format, of "Password ''u'' ''pw''"]
  have "handlersAccept (pwHandler srv) (pkHandler srv) (Password ''u'' ''pw'')" by (auto simp: c)
  with s(2) st show ?thesis by blast
qed

end
