(* ===== verification/Go_Layout.thy ===== *)
theory Go_Layout
  imports Relay_Prelude
begin

text \<open>
  How Go lays a structure out in memory (\<open>unsafe.Sizeof\<close>, \<open>unsafe.Offsetof\<close>), for the types
  the program's structures have: every field at the next multiple of its size, the whole
  rounded up to the largest alignment among the fields. \<open>w\<close> is the size of a pointer.
\<close>

datatype goType = UInt16 | UInt32 | Int32 | Uintptr | Pointer

fun typeSize :: "nat \<Rightarrow> goType \<Rightarrow> nat" where
  "typeSize w UInt16 = 2"
| "typeSize w UInt32 = 4"
| "typeSize w Int32 = 4"
| "typeSize w Uintptr = w"
| "typeSize w Pointer = w"

definition alignUp :: "nat \<Rightarrow> nat \<Rightarrow> nat" where
  "alignUp n a = (n + a - 1) div a * a"

fun fieldOffsets :: "nat \<Rightarrow> nat \<Rightarrow> goType list \<Rightarrow> nat list" where
  "fieldOffsets w off [] = []"
| "fieldOffsets w off (t # ts) =
     (let p = alignUp off (typeSize w t) in p # fieldOffsets w (p + typeSize w t) ts)"

fun fieldsEnd :: "nat \<Rightarrow> nat \<Rightarrow> goType list \<Rightarrow> nat" where
  "fieldsEnd w off [] = off"
| "fieldsEnd w off (t # ts) = fieldsEnd w (alignUp off (typeSize w t) + typeSize w t) ts"

definition structSize :: "nat \<Rightarrow> goType list \<Rightarrow> nat" where
  "structSize w ts = alignUp (fieldsEnd w 0 ts) (foldr max (map (typeSize w) ts) 1)"

section \<open>Layouts are sound\<close>

text \<open>
  \<open>packed w low ts offs room\<close>: from \<open>low\<close> on, the fields lie one behind the other, each
  aligned, and end before \<open>room\<close>.
\<close>

fun packed :: "nat \<Rightarrow> nat \<Rightarrow> goType list \<Rightarrow> nat list \<Rightarrow> nat \<Rightarrow> bool" where
  "packed w low [] [] room \<longleftrightarrow> low \<le> room"
| "packed w low (t # ts) (p # offs) room \<longleftrightarrow>
     low \<le> p \<and> p mod typeSize w t = 0 \<and> packed w (p + typeSize w t) ts offs room"
| "packed w low ts offs room \<longleftrightarrow> False"

lemma alignUp_ge: "0 < a \<Longrightarrow> n \<le> alignUp n a"
proof -
  assume "0 < a"
  have "(n + a - 1) mod a < a" using \<open>0 < a\<close> by simp
  moreover have "(n + a - 1) div a * a + (n + a - 1) mod a = n + a - 1" by simp
  ultimately show ?thesis unfolding alignUp_def by linarith
qed

lemma alignUp_dvd: "alignUp n a mod a = 0"
  by (simp add: alignUp_def)

lemma typeSize_pos: "0 < w \<Longrightarrow> 0 < typeSize w t"
  by (cases t) simp_all

lemma fieldOffsets_packed:
  assumes "0 < w" and "fieldsEnd w off ts \<le> room"
  shows "packed w off ts (fieldOffsets w off ts) room"
  using assms(2)
proof (induction ts arbitrary: off)
  case (Cons t ts)
  then show ?case
    using alignUp_ge[OF typeSize_pos[OF assms(1), of t], of off] by (simp add: Let_def alignUp_dvd)
qed simp

lemma structSize_packed:
  assumes "0 < w"
  shows "packed w 0 ts (fieldOffsets w 0 ts) (structSize w ts)"
proof (rule fieldOffsets_packed[OF assms])
  have "0 < foldr max (map (typeSize w) ts) 1" by (induction ts) auto
  then show "fieldsEnd w 0 ts \<le> structSize w ts" unfolding structSize_def by (rule alignUp_ge)
qed

end
