(* ===== verification/Relay_Windows.thy ===== *)
theory Relay_Windows
  imports Go_Host Go_Net Go_Layout Relay_Options "HOL-Library.Word"
begin

text \<open>
  The Windows half of \<open>internal/service\<close>: \<open>account_windows.go\<close> (reading and handing over a
  password), \<open>logon_windows.go\<close> (checking it), \<open>lsaright_windows.go\<close> (the right to log on as
  a service), \<open>status_windows.go\<close> (asking the SCM), \<open>elevate_windows.go\<close> (the elevated copy)
  and \<open>platform_windows.go\<close>, beside their stand-ins elsewhere (\<open>stubs_other.go\<close>). The system
  calls are the fields of \<open>winAPI\<close>; a call that changes the service manager or the security
  policy is answered from the history of such calls.
\<close>

section \<open>What Windows answers\<close>

text \<open>The calls that change the machine's services or rights, in the order they are made.\<close>

datatype svcCall = CallInstall | CallUninstall | CallStart | CallStop | CallRestart | CallGrant string

type_synonym svcHistory = "svcCall list"

text \<open>
  The outcome of \<open>ShellExecuteExW\<close> and of waiting for the process: an error of the call, no
  process handle, an error of the wait or of reading the code, or the exit code.
\<close>

datatype shellOut = ShellFailed goerr | ShellNoProcess | ShellWaitFailed goerr | ShellExited "32 word"

text \<open>
  How standard input looks: a regular file or a named pipe, given by what its successive
  reads return (bytes or an error; after the last of them, the end of the input), or
  something else. Whether \<open>CONIN$\<close> can be opened and is then a terminal, and whether standard
  input is one; what is typed there.
\<close>

record stdinState =
  siPiped :: bool
  siReads :: "string res list"
  siConin :: "bool option"
  siTerminal :: bool
  siTyped :: "string res list"

text \<open>
  The structures the program fills for Windows. Their memory layout follows from the types
  of their fields (\<open>Go_Layout\<close>); of \<open>SHELLEXECUTEINFOW\<close> the record holds the fields that are
  set, the others are zero. A pointer to UTF-16 text is the text, a null pointer \<open>None\<close>.
\<close>

definition shellExecuteInfoType :: "goType list" where
  "shellExecuteInfoType =
     [UInt32, UInt32, Uintptr, Pointer, Pointer, Pointer, Pointer, Int32, Uintptr, Pointer,
      Pointer, Uintptr, UInt32, Uintptr, Uintptr]"

definition lsaUnicodeStringType :: "goType list" where
  "lsaUnicodeStringType = [UInt16, UInt16, Pointer]"

definition lsaObjectAttributesType :: "goType list" where
  "lsaObjectAttributesType = [UInt32, Uintptr, Pointer, UInt32, Uintptr, Uintptr]"

record shellInfo =
  sxSize :: "32 word"
  sxMask :: "32 word"
  sxVerb :: string
  sxFile :: string
  sxParams :: "string option"
  sxShow :: "32 word"

record lsaUnicodeString =
  luLength :: "16 word"
  luMaximumLength :: "16 word"
  luBuffer :: "16 word list"

record 'sid winAPI =
  waPtrBytes :: nat
  waElevated :: bool
  waLogonUser :: "string option \<Rightarrow> string \<Rightarrow> string \<Rightarrow> nat \<Rightarrow> nat \<Rightarrow> nat option"
  waOpenToken :: "goerr option"
  waTokenUser :: "'sid res"
  waAccountOf :: "'sid \<Rightarrow> (string \<times> string) res"
  waComputerName :: string
  waExecutable :: "string res"
  waTempName :: "fsys \<Rightarrow> string \<Rightarrow> string res"
  waShell :: "shellInfo \<Rightarrow> fsys \<Rightarrow> shellOut \<times> fsys"
  waSIDSize :: "string \<Rightarrow> goerr option \<times> 32 word"
  waLookupSID :: "string \<Rightarrow> 'sid res"
  waOpenPolicy :: "32 word \<Rightarrow> 32 word \<Rightarrow> 64 word"
  waAddRights :: "svcHistory \<Rightarrow> 'sid \<Rightarrow> lsaUnicodeString \<Rightarrow> 64 word"
  waEnumRights :: "svcHistory \<Rightarrow> 'sid \<Rightarrow> 64 word \<times> string list"
  waOpenSCM :: "goerr option"
  waOpenService :: "svcHistory \<Rightarrow> string \<Rightarrow> nat \<Rightarrow> goerr option"
  waServiceStatus :: "svcHistory \<Rightarrow> string \<Rightarrow> (nat \<times> 32 word) res"
  waServiceConfig :: "svcHistory \<Rightarrow> string \<Rightarrow> 32 word \<times> string res"

text \<open>\<open>windows.UTF16PtrFromString\<close>: a string with a NUL byte is refused.\<close>

definition utf16Err :: "string \<Rightarrow> goerr option" where
  "utf16Err s = (if CHR 0x00 \<in> set s then Some (LibErr ''invalid argument'') else None)"

text \<open>
  \<open>windows.UTF16FromString\<close>: the UTF-16 units of the runes and a NUL; code points from
  U+10000 up become surrogate pairs.
\<close>

definition utf16Rune :: "nat \<Rightarrow> 16 word list" where
  "utf16Rune r =
     (if r < 0x10000 then [word_of_nat r]
      else [word_of_nat (0xD800 + (r - 0x10000) div 1024), word_of_nat (0xDC00 + (r - 0x10000) mod 1024)])"

definition UTF16FromString :: "string \<Rightarrow> 16 word list res" where
  "UTF16FromString s =
     (case utf16Err s of
        Some e \<Rightarrow> Inl e
      | None \<Rightarrow> Inr (concat (map utf16Rune (decodeRunes (map of_char s))) @ [0]))"

section \<open>Accounts and passwords\<close>

definition splitAccount :: "string \<Rightarrow> string \<times> string" where
  "splitAccount user0 =
     (let user = TrimSpace user0; i = LastIndex1 user (CHR 0x5C) in
      if i < 0 then ([], user)
      else let domain = take (nat i) user; account = drop (nat i + 1) user
           in (if domain = ''.'' then [] else domain, account))"

definition errSuccess :: nat where "errSuccess = 0"
definition errLogonFailure :: nat where "errLogonFailure = 1326"

definition logon32LogonInteractive :: nat where "logon32LogonInteractive = 2"
definition logon32ProviderDefault :: nat where "logon32ProviderDefault = 0"

text \<open>
  \<open>verifyLogon\<close>: \<open>LogonUserW\<close>, given a domain or a null pointer, answers with an error number,
  or none when it made a token.
\<close>

definition verifyLogonWindows :: "'sid winAPI \<Rightarrow> string \<Rightarrow> string \<Rightarrow> goerr option" where
  "verifyLogonWindows A user password =
     (let (domain, account) = splitAccount user in
      if account = [] then Some (Msg [Txt ''empty account name''])
      else case utf16Err account of Some e \<Rightarrow> Some e | None \<Rightarrow>
       (case (if domain \<noteq> [] then utf16Err domain else None) of Some e \<Rightarrow> Some e | None \<Rightarrow>
        (case utf16Err password of Some e \<Rightarrow> Some e | None \<Rightarrow>
         (case waLogonUser A (if domain \<noteq> [] then Some domain else None) account password
                 logon32LogonInteractive logon32ProviderDefault of
            None \<Rightarrow> None
          | Some code \<Rightarrow>
              Some (Wrapped [Txt (''password rejected for '' @ user)] (Errno (if code = errSuccess then errLogonFailure else code)))))))"

text \<open>
  \<open>bufio.NewReader(os.Stdin).ReadString('\n')\<close>: the bytes up to a newline, or up to an error or
  the end of the input, which is then reported beside them. The reader is made for this one
  call, so what its last read brought in after the newline is gone with it.
\<close>

fun readLine :: "string res list \<Rightarrow> string \<Rightarrow> (string \<times> goerr option) \<times> string res list" where
  "readLine [] acc = ((acc, Some (LibErr ''EOF'')), [])"
| "readLine (Inl e # rs) acc = ((acc, Some e), rs)"
| "readLine (Inr chunk # rs) acc =
     (if CHR 0x0A \<in> set chunk then ((acc @ takeWhile (\<lambda>c. c \<noteq> CHR 0x0A) chunk @ [CHR 0x0A], None), rs)
      else readLine rs (acc @ chunk))"

text \<open>\<open>promptPassword\<close>: redirected input first, then the console, then a terminal.\<close>

definition readTyped :: "stdinState \<Rightarrow> string res \<times> stdinState" where
  "readTyped s =
     (case siTyped s of
        [] \<Rightarrow> (Inl (LibErr ''EOF''), s)
      | r # rs \<Rightarrow> (r, s\<lparr>siTyped := rs\<rparr>))"

definition promptPasswordWindows :: "stdinState \<Rightarrow> string res \<times> stdinState" where
  "promptPasswordWindows s =
     (if siPiped s then
        (case readLine (siReads s) [] of
           ((line, err), rest) \<Rightarrow>
             (case err of
                Some e \<Rightarrow> if e \<noteq> LibErr ''EOF'' then Inl (Wrapped [Txt ''read password from stdin''] e)
                          else Inr (TrimRightSet line [CHR 0x0D, CHR 0x0A])
              | None \<Rightarrow> Inr (TrimRightSet line [CHR 0x0D, CHR 0x0A]), s\<lparr>siReads := rest\<rparr>))
      else if siConin s = Some True then readTyped s
      else if \<not> siTerminal s
      then (Inl (Msg [Txt ''no console available to read the password; pipe it in or use --system'']), s)
      else readTyped s)"

text \<open>
  \<open>os.CreateTemp\<close>: an exclusive create with mode 0600 under a name the library picks
  (\<open>waTempName\<close>).
\<close>

definition osCreateTemp :: "'sid winAPI \<Rightarrow> pathOps \<Rightarrow> fsys \<Rightarrow> string \<Rightarrow> string res \<times> fsys" where
  "osCreateTemp A P fs pattern =
     (case waTempName A fs pattern of
        Inl e \<Rightarrow> (Inl e, fs)
      | Inr name \<Rightarrow> (case osOpenExcl P fs name perm0600 of
            (Some e, fs') \<Rightarrow> (Inl e, fs')
          | (None, fs') \<Rightarrow> (Inr name, fs')))"

text \<open>The deferred \<open>Close\<close> runs after the removals, so they find the file open.\<close>

definition writeCredentialFileWindows :: "'sid winAPI \<Rightarrow> pathOps \<Rightarrow> fsys \<Rightarrow> string \<Rightarrow> string res \<times> fsys" where
  "writeCredentialFileWindows A P fs password =
     (case osCreateTemp A P fs ''termcp-relay-cred-*.tmp'' of
        (Inl e, fs1) \<Rightarrow> (Inl e, fs1)
      | (Inr f, fs1) \<Rightarrow> (case osChmod fs1 f perm0600 of
            (Some e, fs2) \<Rightarrow> (Inl e, snd (osRemoveOpen fs2 f))
          | (None, fs2) \<Rightarrow> (case osWriteString fs2 f password of
                (Some e, fs3) \<Rightarrow> (Inl e, snd (osRemoveOpen fs3 f))
              | (None, fs3) \<Rightarrow> (Inr f, fs3))))"

definition readCredentialFileWindows :: "fsys \<Rightarrow> string \<Rightarrow> string res \<times> fsys" where
  "readCredentialFileWindows fs path =
     (let data = osReadFile fs path; fs' = snd (osRemove fs path) in
      (wrapR [Txt ''read credential file''] data, fs'))"

text \<open>
  \<open>currentUserToken\<close>: the token of the process, the user it is for, and that user's account
  and domain.
\<close>

definition currentUserTokenWindows :: "'sid winAPI \<Rightarrow> string res" where
  "currentUserTokenWindows A =
     (case waOpenToken A of
        Some e \<Rightarrow> Inl e
      | None \<Rightarrow>
          bindR (waTokenUser A) (\<lambda>sid.
            bindR (waAccountOf A sid) (\<lambda>(account, domain).
              if domain = [] then Inr account else Inr (domain @ [CHR 0x5C] @ account))))"

text \<open>On other systems there is no handoff (\<open>stubs_other.go\<close>).\<close>

definition onWindows :: "hostEnv \<Rightarrow> bool" where "onWindows h \<longleftrightarrow> hGOOS h = Windows"

definition promptPassword :: "hostEnv \<Rightarrow> stdinState \<Rightarrow> string res \<times> stdinState" where
  "promptPassword h s = (if onWindows h then promptPasswordWindows s else (Inr [], s))"

definition verifyLogon :: "hostEnv \<Rightarrow> 'sid winAPI \<Rightarrow> string \<Rightarrow> string \<Rightarrow> goerr option" where
  "verifyLogon h A user password = (if onWindows h then verifyLogonWindows A user password else None)"

definition writeCredentialFile :: "hostEnv \<Rightarrow> 'sid winAPI \<Rightarrow> fsys \<Rightarrow> string \<Rightarrow> string res \<times> fsys" where
  "writeCredentialFile h A fs password =
     (if onWindows h then writeCredentialFileWindows A (hPaths h) fs password else (Inr [], fs))"

definition readCredentialFile :: "hostEnv \<Rightarrow> fsys \<Rightarrow> string \<Rightarrow> string res \<times> fsys" where
  "readCredentialFile h fs path = (if onWindows h then readCredentialFileWindows fs path else (Inr [], fs))"

definition currentUserToken :: "hostEnv \<Rightarrow> 'sid winAPI \<Rightarrow> string res" where
  "currentUserToken h A = (if onWindows h then currentUserTokenWindows A else Inr [])"

definition elevated :: "hostEnv \<Rightarrow> 'sid winAPI \<Rightarrow> bool" where
  "elevated h A = (if onWindows h then waElevated A else True)"

section \<open>Logon failures and rights\<close>

text \<open>\<open>logonFailure\<close>: the numbers of the errors it looks for in the chain.\<close>

definition logonFailure :: "hostEnv \<Rightarrow> goerr \<Rightarrow> bool" where
  "logonFailure h err =
     (onWindows h \<and>
      (errors_Is err (Errno 1326) \<or> errors_Is err (Errno 1069) \<or> errors_Is err (Errno 86)
       \<or> errors_Is err (Errno 1793) \<or> errors_Is err (Errno 1330)))"

fun hexUpper :: "nat \<Rightarrow> string" where
  "hexUpper n = (let d = (\<lambda>k. if k < 10 then char_of (48 + k) else char_of (55 + k)) in
     if n < 16 then [d n] else hexUpper (n div 16) @ [d (n mod 16)])"

declare hexUpper.simps [simp del]

definition lsaStatus :: "64 word \<Rightarrow> string" where
  "lsaStatus status =
     (let s = (ucast status :: 32 word) in
      if s = 0xC0000064 then ''STATUS_NO_SUCH_USER (0xC0000064)''
      else if s = 0xC0000022 then ''STATUS_ACCESS_DENIED (0xC0000022) '' @ [CHR 0xE2, CHR 0x80, CHR 0x94] @ '' run as Administrator''
      else ''NTSTATUS 0x'' @ hexUpper (unat s))"

definition seServiceLogonRight :: string where "seServiceLogonRight = ''SeServiceLogonRight''"

definition policyCreateAccount :: "32 word" where "policyCreateAccount = 0x10"
definition policyCreatePrivilege :: "32 word" where "policyCreatePrivilege = 0x40"
definition policyLookupNames :: "32 word" where "policyLookupNames = 0x800"

text \<open>
  \<open>lookupAccountSID\<close>: a bare name is bound to the local machine. The first call asks for the
  sizes and is expected to fail for want of a buffer, the second fills the buffers.
\<close>

definition errInsufficientBuffer :: nat where "errInsufficientBuffer = 122"

definition sidQueryName :: "string \<Rightarrow> string \<Rightarrow> string" where
  "sidQueryName computer accountName =
     (let (domain0, account) = splitAccount accountName;
          domain = (if domain0 = [] then computer else domain0)
      in if domain \<noteq> [] then domain @ [CHR 0x5C] @ account else account)"

definition lookupAccountSID :: "'sid winAPI \<Rightarrow> string \<Rightarrow> 'sid res" where
  "lookupAccountSID A accountName =
     (let q = sidQueryName (waComputerName A) accountName in
      case utf16Err q of
        Some e \<Rightarrow> Inl e
      | None \<Rightarrow>
          (case waSIDSize A q of
             (err, sidLen) \<Rightarrow>
               if (case err of None \<Rightarrow> False | Some e \<Rightarrow> \<not> errors_Is e (Errno errInsufficientBuffer))
               then Inl (Wrapped [Txt (''look up account '' @ accountName)] (the err))
               else if sidLen = 0 then Inl (Msg [Txt (''look up account '' @ accountName @ '': no SID'')])
               else wrapR [Txt (''look up account '' @ accountName)] (waLookupSID A q)))"

definition openLocalPolicy :: "'sid winAPI \<Rightarrow> 32 word \<Rightarrow> unit res" where
  "openLocalPolicy A access =
     (let attrsLength = word_of_nat (structSize (waPtrBytes A) lsaObjectAttributesType);
          status = waOpenPolicy A attrsLength access
      in if status \<noteq> 0 then Inl (Msg [Txt (''open LSA policy: '' @ lsaStatus status)]) else Inr ())"

text \<open>The string that names the right: its length in bytes, without and with the final NUL.\<close>

definition lsaString :: "16 word list \<Rightarrow> lsaUnicodeString" where
  "lsaString units =
     \<lparr>luLength = word_of_nat ((length units - 1) * 2), luMaximumLength = word_of_nat (length units * 2),
      luBuffer = units\<rparr>"

definition grantServiceLogonRight :: "hostEnv \<Rightarrow> 'sid winAPI \<Rightarrow> svcHistory \<Rightarrow> string \<Rightarrow> goerr option \<times> svcHistory" where
  "grantServiceLogonRight h A hist accountName =
     (if \<not> onWindows h then (None, hist)
      else case bindR (lookupAccountSID A accountName) (\<lambda>sid.
                 bindR (openLocalPolicy A (or (or policyCreateAccount policyCreatePrivilege) policyLookupNames))
                   (\<lambda>_. bindR (UTF16FromString seServiceLogonRight) (\<lambda>right. Inr (sid, right)))) of
        Inl e \<Rightarrow> (Some e, hist)
      | Inr (sid, right) \<Rightarrow>
          let status = waAddRights A hist sid (lsaString right); hist' = hist @ [CallGrant accountName] in
          (if status \<noteq> 0 then Some (Msg [Txt (''grant '' @ seServiceLogonRight @ '' to '' @ accountName @ '': '' @ lsaStatus status)]) else None, hist'))"

definition serviceLogonRightHeld :: "hostEnv \<Rightarrow> 'sid winAPI \<Rightarrow> svcHistory \<Rightarrow> string \<Rightarrow> bool res" where
  "serviceLogonRightHeld h A hist accountName =
     (if \<not> onWindows h then Inr True
      else bindR (lookupAccountSID A accountName) (\<lambda>sid.
             bindR (openLocalPolicy A policyLookupNames) (\<lambda>_.
               let (status, rights) = waEnumRights A hist sid in
               if (ucast status :: 32 word) = 0 then Inr (seServiceLogonRight \<in> set rights)
               else if (ucast status :: 32 word) = 0xC0000034 then Inr False
               else Inl (Msg [Txt (''enumerate rights for '' @ accountName @ '': '' @ lsaStatus status)]))))"

section \<open>Asking the service manager\<close>

record svcStatus =
  stName :: string
  stInstalled :: bool
  stRunning :: bool
  stDetail :: string

definition serviceQueryConfig :: nat where "serviceQueryConfig = 1"
definition serviceQueryStatus :: nat where "serviceQueryStatus = 4"
definition errServiceDoesNotExist :: nat where "errServiceDoesNotExist = 1060"
definition errServiceNeverStarted :: "32 word" where "errServiceNeverStarted = 1077"

text \<open>The states of a service: stopped 1, start pending 2, running 4, continue pending 5.\<close>

definition queryServiceWindows :: "'sid winAPI \<Rightarrow> svcHistory \<Rightarrow> string \<Rightarrow> svcStatus res" where
  "queryServiceWindows A hist name =
     (let st = \<lparr>stName = name, stInstalled = False, stRunning = False, stDetail = []\<rparr> in
      case waOpenSCM A of
        Some e \<Rightarrow> Inl (Wrapped [Txt ''open service manager''] e)
      | None \<Rightarrow>
       (case utf16Err name of
          Some e \<Rightarrow> Inl e
        | None \<Rightarrow>
         (case waOpenService A hist name serviceQueryStatus of
            Some e \<Rightarrow> if errors_Is e (Errno errServiceDoesNotExist) then Inr st
                      else Inl (Wrapped [Txt ''open service '', Quoted name] e)
          | None \<Rightarrow>
           (case waServiceStatus A hist name of
              Inl e \<Rightarrow> Inl (Wrapped [Txt ''query service '', Quoted name] e)
            | Inr (state, code) \<Rightarrow>
                Inr (st\<lparr>stInstalled := True, stRunning := (state \<in> {4, 2, 5}),
                        stDetail := (if state = 1 \<and> code \<noteq> 0 \<and> code \<noteq> errServiceNeverStarted
                          then ''last start failed with Win32 error '' @ decimal (unat code) @ ''; check the Event Log''
                          else [])\<rparr>)))))"

text \<open>\<open>serviceAccountName\<close>: the size of the configuration first, then the account in it.\<close>

definition serviceAccountName :: "hostEnv \<Rightarrow> 'sid winAPI \<Rightarrow> svcHistory \<Rightarrow> string \<Rightarrow> string res" where
  "serviceAccountName h A hist name =
     (if \<not> onWindows h then Inr []
      else case waOpenSCM A of
        Some e \<Rightarrow> Inl e
      | None \<Rightarrow> (case utf16Err name of
          Some e \<Rightarrow> Inl e
        | None \<Rightarrow> (case waOpenService A hist name serviceQueryConfig of
            Some e \<Rightarrow> Inl e
          | None \<Rightarrow>
              let (needed, acct) = waServiceConfig A hist name in
              if needed = 0 then Inl (Msg [Txt ''QueryServiceConfig reported a zero-sized buffer'']) else acct)))"

section \<open>The elevated copy\<close>

definition seeMaskNoCloseProcess :: "32 word" where "seeMaskNoCloseProcess = 0x40"
definition swShowNormal :: "32 word" where "swShowNormal = 1"

text \<open>
  \<open>shellExecuteEx\<close>: run, wait, and the exit code as an \<open>int\<close>, which has 32 bits where pointers
  have and 64 elsewhere.
\<close>

definition goInt :: "nat \<Rightarrow> 32 word \<Rightarrow> int" where
  "goInt ptrBytes code = (if ptrBytes = 4 then sint code else uint code)"

definition shellExecuteEx :: "'sid winAPI \<Rightarrow> string \<Rightarrow> string \<Rightarrow> string list \<Rightarrow> fsys \<Rightarrow> int res \<times> fsys" where
  "shellExecuteEx A verb file args fs =
     (case utf16Err verb of Some e \<Rightarrow> (Inl e, fs) | None \<Rightarrow>
      (case utf16Err file of Some e \<Rightarrow> (Inl e, fs) | None \<Rightarrow>
       (case (if 0 < length args then utf16Err (joinArgs args) else None) of Some e \<Rightarrow> (Inl e, fs) | None \<Rightarrow>
         (case waShell A \<lparr>sxSize = word_of_nat (structSize (waPtrBytes A) shellExecuteInfoType),
                sxMask = seeMaskNoCloseProcess, sxVerb = verb, sxFile = file,
                sxParams = (if 0 < length args then Some (joinArgs args) else None), sxShow = swShowNormal\<rparr> fs of
            (ShellFailed e, fs') \<Rightarrow> (Inl e, fs')
          | (ShellNoProcess, fs') \<Rightarrow> (Inr 0, fs')
          | (ShellWaitFailed e, fs') \<Rightarrow> (Inl e, fs')
          | (ShellExited code, fs') \<Rightarrow> (Inr (goInt (waPtrBytes A) code), fs')))))"

definition errCancelled :: nat where "errCancelled = 1223"

text \<open>\<open>relaunchElevated\<close>: the result, what the child had to say, and the file system after.\<close>

definition relaunchElevatedWindows ::
    "'sid winAPI \<Rightarrow> pathOps \<Rightarrow> fsys \<Rightarrow> string list \<Rightarrow> int res \<times> string \<times> fsys" where
  "relaunchElevatedWindows A P fs args =
     (case waExecutable A of
        Inl e \<Rightarrow> (Inl (Wrapped [Txt ''locate executable''] e), [], fs)
      | Inr exe \<Rightarrow> (case osCreateTemp A P fs ''termcp-relay-elevated-*.log'' of
          (Inl e, fs1) \<Rightarrow> (Inl (Wrapped [Txt ''create elevation log''] e), [], fs1)
        | (Inr reportPath, fs1) \<Rightarrow>
            let child = args @ [elevatedOutputFlag, reportPath];
                (r, fs2) = shellExecuteEx A ''runas'' exe child fs1;
                replay = (case osReadFile fs2 reportPath of Inr data \<Rightarrow> data | Inl e \<Rightarrow> []);
                fs3 = snd (osRemove fs2 reportPath)
            in (case r of
                  Inl e \<Rightarrow> (Inl (if errors_Is e (Errno errCancelled) then Msg [Txt ''elevation was declined''] else e), replay, fs3)
                | Inr code \<Rightarrow> (Inr code, replay, fs3))))"

definition relaunchElevated :: "hostEnv \<Rightarrow> 'sid winAPI \<Rightarrow> fsys \<Rightarrow> string list \<Rightarrow> int res \<times> string \<times> fsys" where
  "relaunchElevated h A fs args =
     (if onWindows h then relaunchElevatedWindows A (hPaths h) fs args
      else (Inl (Msg [Txt ''elevation is not supported on this platform'']), [], fs))"

end
