(* ===== verification/Relay_Windows_Facts.thy ===== *)
theory Relay_Windows_Facts
  imports Relay_Windows Relay_Options_Facts Relay_Config_Facts
begin

text \<open>
  The handoff of a password through a file, accounts and their spellings, and what a query
  of the SCM can say.
\<close>

section \<open>Files that come and go\<close>

lemma osCreateTemp_ok:
  assumes "osCreateTemp A P fs pat = (Inr f, fs')"
  shows "nodes fs f = None \<and> fs' = setNode fs f (FileNode [] perm0600)"
  using assms by (auto simp: osCreateTemp_def osOpenExcl_def split: sum.splits prod.splits option.splits if_splits)

lemma osCreateTemp_fails:
  assumes "osCreateTemp A P fs pat = (Inl e, fs')"
  shows "fs' = fs"
  using assms by (auto simp: osCreateTemp_def osOpenExcl_def split: sum.splits prod.splits option.splits if_splits)

text \<open>A handoff file that was written: fresh, private, and holding the password.\<close>

lemma writeCredential_ok:
  assumes "writeCredentialFileWindows A P fs pw = (Inr f, fs')"
  shows "nodes fs f = None \<and> fs' = setNode fs f (FileNode pw perm0600)"
proof -
  from assms obtain fs1 fs2 where 1: "osCreateTemp A P fs ''termcp-relay-cred-*.tmp'' = (Inr f, fs1)"
      "osChmod fs1 f perm0600 = (None, fs2)" "osWriteString fs2 f pw = (None, fs')"
    by (auto simp: writeCredentialFileWindows_def split: sum.splits prod.splits option.splits)
  from osCreateTemp_ok[OF 1(1)] have n: "nodes fs f = None" "fs1 = setNode fs f (FileNode [] perm0600)" by simp_all
  then have "fs2 = setNode fs f (FileNode [] perm0600)"
    using 1(2) by (auto simp: osChmod_def setNode_def split: option.splits)
  then have "fs' = setNode fs f (FileNode pw perm0600)"
    using 1(3) by (auto simp: osWriteString_def setNode_def split: option.splits)
  with n(1) show ?thesis by simp
qed

text \<open>
  What is left when the file could not be written: the file with what the write got out, since
  it cannot be removed while it is open.
\<close>

lemma writeCredential_fails:
  assumes "writeCredentialFileWindows A P fs pw = (Inl e, fs')"
  shows "case osCreateTemp A P fs ''termcp-relay-cred-*.tmp'' of
       (Inl e', g) \<Rightarrow> e' = e \<and> fs' = fs
     | (Inr f, g) \<Rightarrow> nodes fs f = None
         \<and> (faults fs OpChmod f = Some e \<and> fs' = setNode fs f (FileNode [] perm0600)
            \<or> faults fs OpChmod f = None \<and> faults fs OpWriteFD f = Some e
              \<and> fs' = setNode fs f (FileNode (take (shortWrite fs f) pw) perm0600))"
proof (cases "osCreateTemp A P fs ''termcp-relay-cred-*.tmp''")
  case (Pair r fs1)
  show ?thesis
  proof (cases r)
    case (Inl e')
    with Pair assms osCreateTemp_fails[OF Pair[unfolded Inl]] show ?thesis
      by (simp add: writeCredentialFileWindows_def)
  next
    case (Inr f)
    from osCreateTemp_ok[OF Pair[unfolded Inr]] have n: "nodes fs f = None" "fs1 = setNode fs f (FileNode [] perm0600)"
      by simp_all
    have c: "osChmod fs1 f perm0600 = (faults fs OpChmod f, fs1)"
      using n(2) by (auto simp: osChmod_def setNode_def split: option.split)
    have w: "osWriteString fs1 f pw = (case faults fs OpWriteFD f of
        Some e \<Rightarrow> (Some e, setNode fs f (FileNode (take (shortWrite fs f) pw) perm0600))
      | None \<Rightarrow> (None, setNode fs f (FileNode pw perm0600)))"
      using n(2) by (simp add: osWriteString_def setNode_def split: option.split)
    from assms show ?thesis
      by (auto simp: writeCredentialFileWindows_def Pair Inr c[unfolded n(2)] w[unfolded n(2)] n split: option.splits)
  qed
qed

lemma readCredential_written:
  assumes "writeCredentialFileWindows A P fs pw = (Inr f, fs')"
    and "faults fs OpRead f = None" and "faults fs OpRemove f = None"
  shows "readCredentialFileWindows fs' f = (Inr pw, fs)"
proof -
  note wr = writeCredential_ok[OF assms(1)]
  then have "osReadFile fs' f = Inr pw" using assms(2) by (auto simp: osReadFile_def)
  moreover have "snd (osRemove fs' f) = fs"
    using wr assms(3) by (auto simp: osRemove_def setNode_def intro!: fsys.equality)
  ultimately show ?thesis by (simp add: readCredentialFileWindows_def Let_def)
qed

section \<open>Passwords from redirected input\<close>

text \<open>
  Of a read that brings in more than one line the first line is the password and the others
  are lost; at the end of the input every further prompt gets the empty password.
\<close>

lemma piped_prompts:
  assumes "siPiped s" and "siReads s = [Inr (pw @ CHR 0x0A # others)]" and "CHR 0x0A \<notin> set pw"
    and "TrimRightSet (pw @ [CHR 0x0A]) [CHR 0x0D, CHR 0x0A] = pw"
  shows "promptPasswordWindows s = (Inr pw, s\<lparr>siReads := []\<rparr>)"
    and "promptPasswordWindows (s\<lparr>siReads := []\<rparr>) = (Inr [], s\<lparr>siReads := []\<rparr>)"
proof -
  have t: "takeWhile (\<lambda>c. c \<noteq> CHR 0x0A) (pw @ CHR 0x0A # others) = pw"
    using assms(3) by (intro takeWhile_append_stop) auto
  show "promptPasswordWindows s = (Inr pw, s\<lparr>siReads := []\<rparr>)"
    using assms t by (simp add: promptPasswordWindows_def)
  have "TrimRightSet [] [CHR 0x0D, CHR 0x0A] = []" by code_simp
  then show "promptPasswordWindows (s\<lparr>siReads := []\<rparr>) = (Inr [], s\<lparr>siReads := []\<rparr>)"
    using assms(1) by (simp add: promptPasswordWindows_def)
qed

section \<open>Accounts\<close>

lemma LastIndex1_found:
  assumes "c \<in> set s"
  shows "\<exists>i. LastIndex1 s c = int i \<and> i < length s \<and> s = take i s @ c # drop (Suc i) s"
proof -
  from assms obtain a b where s: "s = a @ c # b" "c \<notin> set b" by (meson split_list_last)
  have "LastIndex1 (a @ c # b) c = int (length a)" using s(2) by (rule LastIndex1_append)
  then show ?thesis using s by (intro exI[of _ "length a"]) simp
qed

lemma splitAccount_domain:
  assumes "TrimSpace (d @ [CHR 0x5C] @ a) = d @ [CHR 0x5C] @ a" and "CHR 0x5C \<notin> set a"
  shows "splitAccount (d @ [CHR 0x5C] @ a) = (if d = ''.'' then [] else d, a)"
  using assms by (simp add: splitAccount_def Let_def)

lemma splitAccount_bare:
  assumes "CHR 0x5C \<notin> set (TrimSpace u)"
  shows "splitAccount u = ([], TrimSpace u)"
proof -
  have "LastIndex1 (TrimSpace u) (CHR 0x5C) < 0" using assms by (simp add: LastIndex1_neg)
  then show ?thesis by (simp add: splitAccount_def Let_def)
qed

section \<open>UTF-16\<close>

lemma decodeMulti_range:
  assumes "decodeMulti b0 bs = Some (r, rest)" and "list_all (\<lambda>b. b < 256) bs"
  shows "0x80 \<le> r \<and> r < 1310720"
proof -
  obtain b1 r1 where bs: "bs = b1 # r1" using assms(1) by (cases bs) auto
  have a: "acceptSecond b0 b1" using assms(1) bs by (simp split: if_splits)
  consider (two) "0xC2 \<le> b0" "b0 \<le> 0xDF" "r = (b0 - 0xC0) * 64 + (b1 - 0x80)"
    | (three) b2 r2 where "0xE0 \<le> b0" "b0 \<le> 0xEF" "r1 = b2 # r2" "contByte b2"
        "r = (b0 - 0xE0) * 4096 + (b1 - 0x80) * 64 + (b2 - 0x80)"
    | (four) b2 b3 r3 where "0xF0 \<le> b0" "b0 \<le> 0xF4" "r1 = b2 # b3 # r3" "contByte b2" "contByte b3"
        "r = (b0 - 0xF0) * 262144 + (b1 - 0x80) * 4096 + (b2 - 0x80) * 64 + (b3 - 0x80)"
    using assms(1) bs by (auto split: if_splits list.splits)
  then show ?thesis
    by cases (use a in \<open>auto simp: acceptSecond_def contByte_def\<close>)
qed

lemma decodeRunes_nonzero:
  assumes "0 \<notin> set bs" and "list_all (\<lambda>b. b < 256) bs"
  shows "list_all (\<lambda>r. 0 < r \<and> r < 1310720) (decodeRunes bs)"
  using assms
proof (induction bs rule: decodeRunes.induct)
  case (2 b bs)
  show ?case
  proof (cases "b < 0x80")
    case True
    with 2 show ?thesis by auto
  next
    case False
    show ?thesis
    proof (cases "decodeMulti b bs")
      case None
      with 2 False show ?thesis by (auto simp: RuneError_def)
    next
      case (Some x)
      obtain r rest where x: "x = (r, rest)" by (cases x)
      have "set rest \<subseteq> set bs" using Some x
        by (cases "(b, bs)" rule: decodeMulti.cases) (auto split: if_splits list.splits)
      then have s: "0 \<notin> set rest" "list_all (\<lambda>b. b < 256) rest" using 2 by (auto simp: list_all_iff)
      have "list_all (\<lambda>r. 0 < r \<and> r < 1310720) (decodeRunes rest)"
        by (rule 2(3)[OF False Some x[symmetric] s])
      moreover have "0x80 \<le> r \<and> r < 1310720"
        using decodeMulti_range[of b bs r rest] Some x 2 by simp
      ultimately show ?thesis using False Some x by simp
    qed
  qed
qed simp

lemma utf16Rune_nonzero:
  assumes "0 < r" and "r < 1310720"
  shows "0 \<notin> set (utf16Rune r)"
proof -
  have nz: "(word_of_nat n :: 16 word) \<noteq> 0" if "0 < n" "n < 65536" for n
  proof
    assume "(word_of_nat n :: 16 word) = 0"
    then have "unat (word_of_nat n :: 16 word) = 0" by simp
    then show False using that by (simp add: unat_of_nat)
  qed
  show ?thesis
    using assms nz[of r] nz[of "0xD800 + (r - 0x10000) div 1024"] nz[of "0xDC00 + (r - 0x10000) mod 1024"]
    by (auto simp: utf16Rune_def)
qed

lemma UTF16FromString_units:
  assumes "UTF16FromString s = Inr u"
  shows "u \<noteq> [] \<and> last u = 0 \<and> 0 \<notin> set (butlast u)"
proof -
  have nul: "CHR 0x00 \<notin> set s" and u: "u = concat (map utf16Rune (decodeRunes (map of_char s))) @ [0]"
    using assms by (auto simp: UTF16FromString_def utf16Err_def split: if_splits)
  have "(0::nat) \<notin> of_char ` set s"
  proof
    assume "(0::nat) \<in> of_char ` set s"
    then obtain c where c: "c \<in> set s" "of_char c = (0::nat)" by auto
    then have "of_char c = (of_char (CHR 0x00) :: nat)" by simp
    then have "c = CHR 0x00" by (simp only: of_char_eq_iff)
    with c(1) nul show False by simp
  qed
  then have "list_all (\<lambda>r. 0 < r \<and> r < 1310720) (decodeRunes (map of_char s))"
    by (intro decodeRunes_nonzero) (auto simp: list_all_iff)
  then have "0 \<notin> set (concat (map utf16Rune (decodeRunes (map of_char s))))"
    using utf16Rune_nonzero by (fastforce simp: list_all_iff)
  with u show ?thesis by simp
qed

section \<open>Properties\<close>

text \<open>C32: The password handoff on Windows: the file is new, private (mode 0600) and holds exactly
  the password; reading it gives the password back and leaves the file system as it was
  before. When it cannot be written the error is reported, but a file that was created
  stays behind, private, with as much of the password as the failing write got out: its
  removal is tried while it is still open.\<close>
theorem credential_handoff:
  assumes "onWindows h" and "\<And>f. faults fs OpRead f = None" and "\<And>f. faults fs OpRemove f = None"
  shows "case writeCredentialFile h A fs pw of
       (Inr f, fs') \<Rightarrow> nodes fs f = None \<and> nodes fs' = (nodes fs)(f \<mapsto> FileNode pw perm0600)
          \<and> readCredentialFile h fs' f = (Inr pw, fs)
     | (Inl e, fs') \<Rightarrow> (case osCreateTemp A (hPaths h) fs ''termcp-relay-cred-*.tmp'' of
          (Inl e', fs1) \<Rightarrow> e' = e \<and> fs' = fs
        | (Inr f, fs1) \<Rightarrow> nodes fs f = None
            \<and> (faults fs OpChmod f = Some e \<and> nodes fs' = (nodes fs)(f \<mapsto> FileNode [] perm0600)
               \<or> faults fs OpChmod f = None \<and> faults fs OpWriteFD f = Some e
                 \<and> nodes fs' = (nodes fs)(f \<mapsto> FileNode (take (shortWrite fs f) pw) perm0600)))"
proof -
  obtain r fs' where wr: "writeCredentialFileWindows A (hPaths h) fs pw = (r, fs')" by fastforce
  show ?thesis
  proof (cases r)
    case (Inl e)
    from writeCredential_fails[OF wr[unfolded Inl]] wr Inl assms(1) show ?thesis
      by (auto simp: writeCredentialFile_def split: prod.splits sum.splits)
  next
    case (Inr f)
    note ok = wr[unfolded Inr]
    from writeCredential_ok[OF ok] readCredential_written[OF ok assms(2,3)] ok assms(1) show ?thesis
      by (simp add: writeCredentialFile_def readCredentialFile_def)
  qed
qed

definition winHost :: hostEnv where
  "winHost = \<lparr>hGOOS = Windows, hPaths = unixPaths None, hCase = asciiTable, hGetenv = (\<lambda>v. []),
     hEnviron = [], hLookPath = (\<lambda>n. Inl ErrNotExist)\<rparr>"

definition winDemo :: "string winAPI" where
  "winDemo = \<lparr>waPtrBytes = 8, waElevated = False, waLogonUser = (\<lambda>d a p ty pr. if p = ''pw'' then None else Some 1326),
     waOpenToken = None, waTokenUser = Inr ''S-1'', waAccountOf = (\<lambda>sid. Inr (''bob'', ''LAB'')), waComputerName = ''PC'', waExecutable = Inr ''relay.exe'',
     waTempName = (\<lambda>fs pat. Inr ''t.tmp''), waShell = (\<lambda>info fs. (ShellExited 0, fs)),
     waSIDSize = (\<lambda>q. (Some (Errno 122), 28)), waLookupSID = Inr, waOpenPolicy = (\<lambda>n a. 0), waAddRights = (\<lambda>H s r. 0),
     waEnumRights = (\<lambda>H s. (0, [])),
     waOpenSCM = None, waOpenService = (\<lambda>H n a. None), waServiceStatus = (\<lambda>H n. Inr (4, 0)),
     waServiceConfig = (\<lambda>H n. (1, Inr ''LocalSystem''))\<rparr>"

theorem credential_handoff_witness:
  "\<exists>fs'. writeCredentialFile winHost winDemo plainFS ''s3cret'' = (Inr ''t.tmp'', fs')
     \<and> nodes fs' ''t.tmp'' = Some (FileNode ''s3cret'' perm0600) \<and> readCredentialFile winHost fs' ''t.tmp'' = (Inr ''s3cret'', plainFS)"
proof -
  have w: "onWindows winHost" by (simp add: onWindows_def winHost_def)
  have d: "unixDir ''t.tmp'' = ''.''" by code_simp
  obtain fs' where wr: "writeCredentialFile winHost winDemo plainFS ''s3cret'' = (Inr ''t.tmp'', fs')"
    by (simp add: writeCredentialFile_def onWindows_def winHost_def writeCredentialFileWindows_def osCreateTemp_def
        winDemo_def osOpenExcl_def plainFS_def parentOK_def d osChmod_def osWriteString_def)
  with credential_handoff[OF w, where fs = plainFS and A = winDemo and pw = "''s3cret''"] show ?thesis by (simp add: plainFS_def)
qed

text \<open>Account names: DOMAIN and account are split at the last backslash, the domain ''.'' and a
  missing one both mean the local machine, and the security lookup is then always asked
  for the account on that machine, never for a bare name.\<close>
theorem account_names:
  assumes "TrimSpace (d @ [CHR 0x5C] @ a) = d @ [CHR 0x5C] @ a" and "CHR 0x5C \<notin> set a"
    and "TrimSpace a = a" and "computer \<noteq> []"
  shows "splitAccount (d @ [CHR 0x5C] @ a) = (if d = ''.'' then [] else d, a) \<and> splitAccount a = ([], a)
    \<and> sidQueryName computer a = computer @ [CHR 0x5C] @ a
    \<and> sidQueryName computer (d @ [CHR 0x5C] @ a)
        = (if d = [] \<or> d = ''.'' then computer else d) @ [CHR 0x5C] @ a"
proof -
  note 1 = splitAccount_domain[OF assms(1,2)]
  have 2: "splitAccount a = ([], a)" using splitAccount_bare[of a] assms(2,3) by simp
  show ?thesis unfolding sidQueryName_def Let_def 1 2 using assms(4) by simp
qed

theorem account_names_witness:
  "sidQueryName ''PC'' ''bob'' = ''PC'' @ [CHR 0x5C] @ ''bob''
   \<and> sidQueryName ''PC'' (''LAB'' @ [CHR 0x5C] @ ''bob'') = ''LAB'' @ [CHR 0x5C] @ ''bob''"
proof -
  have "TrimSpace (''LAB'' @ [CHR 0x5C] @ ''bob'') = ''LAB'' @ [CHR 0x5C] @ ''bob''" "TrimSpace ''bob'' = ''bob''" by code_simp+
  from account_names[OF this(1) _ this(2), of "''PC''"] show ?thesis by simp
qed

text \<open>What the SCM query reports is consistent: a service that is not there is neither running
  nor annotated, and only an installed service that stopped with an error code, other
  than never having been started, carries one.\<close>
lemma windows_query_consistent:
  assumes "queryServiceWindows A hist name = Inr st"
  shows "stName st = name
     \<and> (\<not> stInstalled st \<longrightarrow> \<not> stRunning st \<and> stDetail st = [])
     \<and> (stDetail st \<noteq> [] \<longrightarrow> \<not> stRunning st
          \<and> (\<exists>code. waServiceStatus A hist name = Inr (1, code) \<and> code \<noteq> 0 \<and> code \<noteq> 1077))"
proof (cases "waServiceStatus A hist name")
  case (Inl e)
  with assms show ?thesis
    by (auto simp: queryServiceWindows_def Let_def split: option.splits if_splits)
next
  case (Inr sc)
  obtain state code where sc: "sc = (state, code)" by (cases sc)
  consider (absent) "st = \<lparr>stName = name, stInstalled = False, stRunning = False, stDetail = []\<rparr>"
    | (there) "st = \<lparr>stName = name, stInstalled = True, stRunning = (state \<in> {4, 2, 5}),
         stDetail = (if state = 1 \<and> code \<noteq> 0 \<and> code \<noteq> errServiceNeverStarted
            then ''last start failed with Win32 error '' @ decimal (unat code) @ ''; check the Event Log'' else [])\<rparr>"
    using assms Inr sc by (auto simp: queryServiceWindows_def Let_def split: option.splits if_splits)
  then show ?thesis
  proof cases
    case there
    then show ?thesis using Inr sc by (auto simp: errServiceNeverStarted_def split: if_splits)
  qed simp
qed

text \<open>
  A Windows that checks the sizes it is told, against the documented ones: 112 bytes
  (60 with pointers of four bytes) for \<open>SHELLEXECUTEINFOW\<close>, 48 (24) for
  \<open>LSA_OBJECT_ATTRIBUTES\<close>. A call with any other size is refused.
\<close>

definition checksSizes :: "'sid winAPI \<Rightarrow> 'sid winAPI" where
  "checksSizes A = A\<lparr>
     waShell := (\<lambda>info fs. if sxSize info = (if waPtrBytes A = 4 then 60 else 112) then waShell A info fs
                          else (ShellFailed (Errno 87), fs)),
     waOpenPolicy := (\<lambda>n access. if n = (if waPtrBytes A = 4 then 24 else 48) then waOpenPolicy A n access
                          else 0xC000000D)\<rparr>"

lemma checked_calls:
  assumes "waPtrBytes A = 4 \<or> waPtrBytes A = 8"
  shows "shellExecuteEx (checksSizes A) verb exe args fs = shellExecuteEx A verb exe args fs"
    and "openLocalPolicy (checksSizes A) access = openLocalPolicy A access"
    and "osCreateTemp (checksSizes A) P fs pat = osCreateTemp A P fs pat"
    and "lookupAccountSID (checksSizes A) acct = lookupAccountSID A acct"
proof -
  have s: "structSize 4 shellExecuteInfoType = 60" "structSize 8 shellExecuteInfoType = 112"
    "structSize 4 lsaObjectAttributesType = 24" "structSize 8 lsaObjectAttributesType = 48" by code_simp+
  have p: "waPtrBytes (checksSizes A) = waPtrBytes A" by (simp add: checksSizes_def)
  have f: "waTempName (checksSizes A) = waTempName A" "waComputerName (checksSizes A) = waComputerName A"
    "waSIDSize (checksSizes A) = waSIDSize A" "waLookupSID (checksSizes A) = waLookupSID A" by (simp_all add: checksSizes_def)
  have sz: "(word_of_nat (structSize (waPtrBytes A) shellExecuteInfoType) :: 32 word) = (if waPtrBytes A = 4 then 60 else 112)"
    using assms by (auto simp: s)
  have sh: "waShell (checksSizes A) \<lparr>sxSize = word_of_nat (structSize (waPtrBytes A) shellExecuteInfoType),
         sxMask = m, sxVerb = v, sxFile = x, sxParams = ps, sxShow = w\<rparr> fs
       = waShell A \<lparr>sxSize = word_of_nat (structSize (waPtrBytes A) shellExecuteInfoType),
         sxMask = m, sxVerb = v, sxFile = x, sxParams = ps, sxShow = w\<rparr> fs" for m v x ps w
    unfolding sz by (simp add: checksSizes_def)
  show "shellExecuteEx (checksSizes A) verb exe args fs = shellExecuteEx A verb exe args fs"
    by (simp only: shellExecuteEx_def p sh)
  show "openLocalPolicy (checksSizes A) access = openLocalPolicy A access"
    using assms by (auto simp: openLocalPolicy_def checksSizes_def Let_def s)
  show "osCreateTemp (checksSizes A) P fs pat = osCreateTemp A P fs pat"
    by (simp only: osCreateTemp_def f)
  show "lookupAccountSID (checksSizes A) acct = lookupAccountSID A acct"
    by (simp only: lookupAccountSID_def f)
qed

text \<open>C19: No call is refused for the size it names: against a Windows that checks the size of
  \<open>SHELLEXECUTEINFOW\<close> and of \<open>LSA_OBJECT_ATTRIBUTES\<close>, with pointers of four bytes or of eight,
  starting an elevated copy, granting the logon right and asking for it do what they do
  without the check. And the fields of the three structures handed over lie where Windows
  looks for them.\<close>
theorem windows_structures:
  assumes "waPtrBytes A = 4 \<or> waPtrBytes A = 8"
  shows "relaunchElevated h (checksSizes A) fs args = relaunchElevated h A fs args
    \<and> grantServiceLogonRight h (checksSizes A) hist acct = grantServiceLogonRight h A hist acct
    \<and> serviceLogonRightHeld h (checksSizes A) hist acct = serviceLogonRightHeld h A hist acct
    \<and> fieldOffsets (waPtrBytes A) 0 shellExecuteInfoType =
        (if waPtrBytes A = 4 then [0, 4, 8, 12, 16, 20, 24, 28, 32, 36, 40, 44, 48, 52, 56]
         else [0, 4, 8, 16, 24, 32, 40, 48, 56, 64, 72, 80, 88, 96, 104])
    \<and> fieldOffsets (waPtrBytes A) 0 lsaObjectAttributesType =
        (if waPtrBytes A = 4 then [0, 4, 8, 12, 16, 20] else [0, 8, 16, 24, 32, 40])
    \<and> fieldOffsets (waPtrBytes A) 0 lsaUnicodeStringType = (if waPtrBytes A = 4 then [0, 2, 4] else [0, 2, 8])"
proof -
  note calls = checked_calls[OF assms]
  have e: "waExecutable (checksSizes A) = waExecutable A" "waAddRights (checksSizes A) = waAddRights A"
      "waEnumRights (checksSizes A) = waEnumRights A" by (simp_all add: checksSizes_def)
  have "relaunchElevated h (checksSizes A) fs args = relaunchElevated h A fs args"
    by (simp only: relaunchElevated_def relaunchElevatedWindows_def calls e)
  moreover have "grantServiceLogonRight h (checksSizes A) hist acct = grantServiceLogonRight h A hist acct"
    by (simp only: grantServiceLogonRight_def calls e)
  moreover have "serviceLogonRightHeld h (checksSizes A) hist acct = serviceLogonRightHeld h A hist acct"
    by (simp only: serviceLogonRightHeld_def calls e)
  moreover have "fieldOffsets 4 0 shellExecuteInfoType = [0, 4, 8, 12, 16, 20, 24, 28, 32, 36, 40, 44, 48, 52, 56]"
    "fieldOffsets 8 0 shellExecuteInfoType = [0, 4, 8, 16, 24, 32, 40, 48, 56, 64, 72, 80, 88, 96, 104]"
    "fieldOffsets 4 0 lsaObjectAttributesType = [0, 4, 8, 12, 16, 20]"
    "fieldOffsets 8 0 lsaObjectAttributesType = [0, 8, 16, 24, 32, 40]"
    "fieldOffsets 4 0 lsaUnicodeStringType = [0, 2, 4]" "fieldOffsets 8 0 lsaUnicodeStringType = [0, 2, 8]"
    by code_simp+
  ultimately show ?thesis using assms by auto
qed

theorem windows_structures_witness:
  "relaunchElevated winHost (checksSizes winDemo) plainFS [''service''] = relaunchElevated winHost winDemo plainFS [''service'']
   \<and> fst (relaunchElevated winHost (checksSizes winDemo) plainFS [''service'']) = Inr 0"
proof -
  have d: "unixDir ''t.tmp'' = ''.''" by code_simp
  have u: "utf16Err ''runas'' = None" "utf16Err ''relay.exe'' = None"
    "utf16Err (joinArgs ([''service''] @ [elevatedOutputFlag, ''t.tmp''])) = None" by code_simp+
  have run: "fst (relaunchElevated winHost winDemo plainFS [''service'']) = Inr 0"
    using u(3) by (simp add: relaunchElevated_def onWindows_def winHost_def relaunchElevatedWindows_def osCreateTemp_def
        winDemo_def osOpenExcl_def plainFS_def parentOK_def d shellExecuteEx_def u goInt_def Let_def)
  have "waPtrBytes winDemo = 4 \<or> waPtrBytes winDemo = 8" by (simp add: winDemo_def)
  from windows_structures[OF this, of winHost plainFS "[''service'']"] run show ?thesis by simp
qed

text \<open>C20: The counted string made for Windows is exact as long as its length fits sixteen bits: both
  lengths are the true numbers of bytes, without and with the final NUL, and there is no
  other NUL in the buffer. One unit more and the maximum length wraps to zero. The name of
  the logon right, the one string the program passes, is far below the limit.\<close>
theorem lsa_string_exact:
  assumes "UTF16FromString s = Inr u"
  shows "luBuffer (lsaString u) = u \<and> last u = 0 \<and> 0 \<notin> set (butlast u)
    \<and> (if length u \<le> 32767
       then unat (luLength (lsaString u)) = 2 * (length u - 1) \<and> unat (luMaximumLength (lsaString u)) = 2 * length u
       else length u = 32768 \<longrightarrow> luMaximumLength (lsaString u) = 0)
    \<and> (\<exists>r. UTF16FromString seServiceLogonRight = Inr r \<and> luLength (lsaString r) = 38 \<and> luMaximumLength (lsaString r) = 40)"
proof -
  have "UTF16FromString seServiceLogonRight = Inr (map (\<lambda>c. word_of_nat (of_char c)) seServiceLogonRight @ [0])"
    by (simp add: UTF16FromString_def utf16Err_def seServiceLogonRight_def utf16Rune_def)
  then have "\<exists>r. UTF16FromString seServiceLogonRight = Inr r \<and> luLength (lsaString r) = 38 \<and> luMaximumLength (lsaString r) = 40"
    by (simp add: lsaString_def seServiceLogonRight_def)
  moreover have n: "n < 65536 \<Longrightarrow> unat (word_of_nat n :: 16 word) = n" for n
    by (simp add: unat_of_nat)
  have "if length u \<le> 32767
       then unat (luLength (lsaString u)) = 2 * (length u - 1) \<and> unat (luMaximumLength (lsaString u)) = 2 * length u
       else length u = 32768 \<longrightarrow> luMaximumLength (lsaString u) = 0"
  proof (cases "length u \<le> 32767")
    case True
    then show ?thesis
      using n[of "(length u - 1) * 2"] n[of "length u * 2"]
      by (simp only: lsaString_def lsaUnicodeString.select_convs if_True) (simp del: of_nat_mult of_nat_diff)
  next
    case False
    then show ?thesis by (simp add: lsaString_def)
  qed
  moreover have "luBuffer (lsaString u) = u" by (simp add: lsaString_def)
  ultimately show ?thesis
    using UTF16FromString_units[OF assms] by blast
qed

theorem lsa_string_exact_witness:
  "unat (luLength (lsaString [66, 0])) = 2 \<and> unat (luMaximumLength (lsaString [66, 0])) = 4"
proof -
  have "UTF16FromString ''B'' = Inr [66, 0]" by (simp add: UTF16FromString_def utf16Err_def utf16Rune_def)
  from lsa_string_exact[OF this] show ?thesis by simp
qed

end
