(* ===== verification/Go_Fmt.thy ===== *)
theory Go_Fmt
  imports Go_Unicode
begin

text \<open>
  The part of \<open>fmt\<close> the program's messages need: the verb \<open>%q\<close>, which is \<open>strconv.Quote\<close>. Which
  runes from 128 up are printable is a table of the library, the argument \<open>isPrint\<close>.
\<close>

definition hexDigit :: "nat \<Rightarrow> char" where
  "hexDigit d = char_of (if d < 10 then 48 + d else 87 + d)"

text \<open>The last \<open>k\<close> digits of a number, base sixteen.\<close>

fun hexDigits :: "nat \<Rightarrow> nat \<Rightarrow> string" where
  "hexDigits 0 n = []"
| "hexDigits (Suc k) n = hexDigits k (n div 16) @ [hexDigit (n mod 16)]"

definition printable :: "(nat \<Rightarrow> bool) \<Rightarrow> nat \<Rightarrow> bool" where
  "printable isPrint r = (if r < 0x80 then 0x20 \<le> r \<and> r < 0x7F else isPrint r)"

definition escapedRune :: "(nat \<Rightarrow> bool) \<Rightarrow> nat \<Rightarrow> string" where
  "escapedRune isPrint r =
     (if r = 0x22 \<or> r = 0x5C then [CHR 0x5C, char_of r]
      else if printable isPrint r then map char_of (encodeRune r)
      else if r = 7 then CHR 0x5C # ''a''
      else if r = 8 then CHR 0x5C # ''b''
      else if r = 12 then CHR 0x5C # ''f''
      else if r = 10 then CHR 0x5C # ''n''
      else if r = 13 then CHR 0x5C # ''r''
      else if r = 9 then CHR 0x5C # ''t''
      else if r = 11 then CHR 0x5C # ''v''
      else if r < 0x20 \<or> r = 0x7F then CHR 0x5C # CHR ''x'' # hexDigits 2 r
      else if r < 0x10000 then CHR 0x5C # CHR ''u'' # hexDigits 4 r
      else CHR 0x5C # CHR ''U'' # hexDigits 8 r)"

text \<open>A byte that starts no valid sequence is written as a number.\<close>

function quoteBytes :: "(nat \<Rightarrow> bool) \<Rightarrow> nat list \<Rightarrow> string" where
  "quoteBytes isPrint [] = []"
| "quoteBytes isPrint (b # bs) =
     (if b < 0x80 then escapedRune isPrint b @ quoteBytes isPrint bs
      else case decodeMulti b bs of
             None \<Rightarrow> CHR 0x5C # CHR ''x'' # hexDigits 2 b @ quoteBytes isPrint bs
           | Some (r, rest) \<Rightarrow> escapedRune isPrint r @ quoteBytes isPrint rest)"
  by pat_completeness auto
termination
  by (relation "measure (\<lambda>(p, bs). length bs)") (auto dest!: decodeMulti_shorter sym[of "Some _"])

definition Quote :: "(nat \<Rightarrow> bool) \<Rightarrow> string \<Rightarrow> string" where
  "Quote isPrint s = CHR 0x22 # quoteBytes isPrint (map of_char s) @ [CHR 0x22]"

section \<open>The text of an error\<close>

text \<open>
  \<open>err.Error()\<close>: the contexts and hints of the program around the text of the leaf, which for
  an error of a library is the library's (\<open>leaf\<close>).
\<close>

fun fragText :: "(nat \<Rightarrow> bool) \<Rightarrow> frag \<Rightarrow> string" where
  "fragText isPrint (Txt s) = s"
| "fragText isPrint (Quoted s) = Quote isPrint s"

definition fragsText :: "(nat \<Rightarrow> bool) \<Rightarrow> frag list \<Rightarrow> string" where
  "fragsText isPrint fs = concat (map (fragText isPrint) fs)"

fun errorText :: "(nat \<Rightarrow> bool) \<Rightarrow> (goerr \<Rightarrow> string) \<Rightarrow> goerr \<Rightarrow> string" where
  "errorText isPrint leaf (Wrapped fs e) = fragsText isPrint fs @ '': '' @ errorText isPrint leaf e"
| "errorText isPrint leaf (Hinted e fs) = errorText isPrint leaf e @ fragsText isPrint fs"
| "errorText isPrint leaf (Msg fs) = fragsText isPrint fs"
| "errorText isPrint leaf e = leaf e"

section \<open>Quoted text is one line of plain bytes\<close>

text \<open>
  Whatever the bytes, the quoted text holds no control byte below 32: a name cannot forge a
  second line of output.
\<close>

lemma hexDigit_plain: "d < 16 \<Longrightarrow> 0x20 \<le> (of_char (hexDigit d) :: nat)"
  by (simp add: hexDigit_def)

lemma hexDigits_plain: "list_all (\<lambda>c. 0x20 \<le> (of_char c :: nat)) (hexDigits k n)"
  by (induction k arbitrary: n) (simp_all add: hexDigit_plain)

lemma encodeRune_plain:
  "0x20 \<le> r \<Longrightarrow> list_all (\<lambda>b. 0x20 \<le> b \<and> b < 256) (encodeRune r)"
  by (auto simp: encodeRune_def)

lemma escapedRune_plain:
  assumes "printable isPrint r \<Longrightarrow> 0x20 \<le> r"
  shows "list_all (\<lambda>c. 0x20 \<le> (of_char c :: nat)) (escapedRune isPrint r)"
  using assms encodeRune_plain[of r] hexDigits_plain
  by (auto simp: escapedRune_def list_all_iff)

lemma quoteBytes_plain: "list_all (\<lambda>c. 0x20 \<le> (of_char c :: nat)) (quoteBytes isPrint bs)"
proof (induction isPrint bs rule: quoteBytes.induct)
  case (2 isPrint b bs)
  have e: "list_all (\<lambda>c. 0x20 \<le> (of_char c :: nat)) (escapedRune isPrint r)" for r
    by (rule escapedRune_plain) (auto simp: printable_def split: if_splits)
  show ?case using 2 e hexDigits_plain by (auto split: option.split simp del: hexDigits.simps)
qed simp

lemma Quote_plain: "list_all (\<lambda>c. 0x20 \<le> (of_char c :: nat)) (Quote isPrint s)"
  using quoteBytes_plain by (simp add: Quote_def)

end
