(* ===== verification/Relay_Cli.thy ===== *)
theory Relay_Cli
  imports Relay_Windows Relay_Config Relay_Program Go_Fmt
begin

text \<open>
  \<open>internal/service/cli.go\<close> with \<open>Query\<close> of \<open>service.go\<close> and \<open>status_other.go\<close>: the service
  commands. A command is a function on the state of the command line tool; what it does to
  the host's services is the history of the calls it makes, what it says is a list of
  notes (their wording is in \<open>Relay_Text\<close>). The service manager, the library
  \<open>kardianos/service\<close>, is \<open>smAPI\<close>.
\<close>

section \<open>The tool's state and its surroundings\<close>

datatype message =
    NUsage
  | NUsageError
  | NError goerr
  | NPrompt string
  | NTryAgain nat
  | NElevating
  | NReplay string
  | NElevateError goerr
  | NFlagsRefused "string list"
  | NExclusive
  | NUnknownAction string
  | NInstalled options
  | NGrantWarning string goerr
  | NGranted string
  | NNotInstalled string
  | NStopped string
  | NRemoved string
  | NStarted string
  | NRestarted string
  | NNoManager string string
  | NStatus svcStatus string
  | NAccount string
  | NLacksRight string
  | NCheckHint string

record cliState =
  clFS :: fsys
  clIn :: stdinState
  clHist :: svcHistory
  clNotes :: "message list"

text \<open>
  What surrounds a command: beside the host, Windows and the service manager, the text of a
  library's error (\<open>ceLeafText\<close>), what the \<open>flag\<close> package says of arguments it refuses (\<open>ceFlagText\<close>) and
  which runes are printable (\<open>cePrint\<close>). \<open>kardianos/service\<close>: making a service value, the calls that change the service, and
  whether it runs; each may depend on the calls made before.
\<close>

record smAPI =
  smNew :: "kConfig \<Rightarrow> goerr option"
  smCall :: "svcHistory \<Rightarrow> svcCall \<Rightarrow> kConfig \<Rightarrow> goerr option"
  smStatus :: "svcHistory \<Rightarrow> string \<Rightarrow> bool res"

record 'sid cliEnv =
  ceHost :: hostEnv
  ceWin :: "'sid winAPI"
  ceSM :: smAPI
  ceConsts :: kConsts
  ceDecode :: tomlDecoder
  ceLeafText :: "goerr \<Rightarrow> string"
  ceFlagText :: "string list \<Rightarrow> string"
  cePrint :: "nat \<Rightarrow> bool"

definition errText :: "'sid cliEnv \<Rightarrow> goerr \<Rightarrow> string" where
  "errText C e = errorText (cePrint C) (ceLeafText C) e"

definition tell :: "message \<Rightarrow> cliState \<Rightarrow> cliState" where
  "tell n s = s\<lparr>clNotes := clNotes s @ [n]\<rparr>"

definition failWith :: "goerr \<Rightarrow> cliState \<Rightarrow> int \<times> cliState" where
  "failWith err s = (1, tell (NError err) s)"

definition svcDo :: "'sid cliEnv \<Rightarrow> kConfig \<Rightarrow> svcCall \<Rightarrow> cliState \<Rightarrow> goerr option \<times> cliState" where
  "svcDo C cfg call s = (smCall (ceSM C) (clHist s) call cfg, s\<lparr>clHist := clHist s @ [call]\<rparr>)"

section \<open>Status queries\<close>

definition nameConfig :: "string \<Rightarrow> kConfig" where
  "nameConfig name = \<lparr>kcName = name, kcDisplayName = [], kcDescription = [], kcArguments = [],
     kcWorkingDirectory = [], kcUserName = [], kcOption = Map.empty\<rparr>"

definition queryServiceOther :: "'sid cliEnv \<Rightarrow> svcHistory \<Rightarrow> string \<Rightarrow> svcStatus res" where
  "queryServiceOther C hist name =
     (let st = \<lparr>stName = name, stInstalled = False, stRunning = False, stDetail = []\<rparr> in
      case smNew (ceSM C) (nameConfig name) of
        Some err \<Rightarrow> Inl err
      | None \<Rightarrow>
         (case smStatus (ceSM C) hist name of
            Inl err \<Rightarrow>
              if errors_Is err ErrNotInstalled then Inr st
              else if Contains (errText C err) ''failed state'' then
                Inr (st\<lparr>stInstalled := True,
                  stDetail := ''unit is in a failed state; inspect with: systemctl status '' @ name\<rparr>)
              else Inl err
          | Inr running \<Rightarrow> Inr (st\<lparr>stInstalled := True, stRunning := running\<rparr>)))"

definition queryService :: "'sid cliEnv \<Rightarrow> svcHistory \<Rightarrow> string \<Rightarrow> svcStatus res" where
  "queryService C hist name =
     (if onWindows (ceHost C) then queryServiceWindows (ceWin C) hist name else queryServiceOther C hist name)"

definition Query :: "'sid cliEnv \<Rightarrow> svcHistory \<Rightarrow> string \<Rightarrow> svcStatus res" where
  "Query C hist name =
     (let name = (if TrimSpace name = [] then relayName else name) in queryService C hist (TrimSpace name))"

definition newService :: "'sid cliEnv \<Rightarrow> options \<Rightarrow> kConfig res" where
  "newService C o' =
     (case validateOptions (ceHost C) o' of
        Some err \<Rightarrow> Inl err
      | None \<Rightarrow> (let cfg = kserviceConfig (ceConsts C) (ceHost C) o' in
                case smNew (ceSM C) cfg of Some err \<Rightarrow> Inl err | None \<Rightarrow> Inr cfg))"

section \<open>Accounts\<close>

definition builtinServiceAccount :: "caseTable \<Rightarrow> string \<Rightarrow> bool" where
  "builtinServiceAccount U name =
     (ToUpper U (TrimSpace name) \<in> set [''LOCALSYSTEM'', ''NT AUTHORITY'' @ [CHR 0x5C] @ ''SYSTEM'', ''SYSTEM'',
        ''LOCALSERVICE'', ''NT AUTHORITY'' @ [CHR 0x5C] @ ''LOCALSERVICE'',
        ''NETWORKSERVICE'', ''NT AUTHORITY'' @ [CHR 0x5C] @ ''NETWORKSERVICE''])"

text \<open>
  \<open>promptVerifiedPassword\<close>, from attempt \<open>i\<close> of three. The prompt is shown when the password is
  read from a console or a terminal (\<open>asked\<close>).
\<close>

definition attempts :: nat where "attempts = 3"

definition asked :: "'sid cliEnv \<Rightarrow> string \<Rightarrow> cliState \<Rightarrow> cliState" where
  "asked C user s =
     (if onWindows (ceHost C) \<and> \<not> siPiped (clIn s) \<and> (siConin (clIn s) = Some True \<or> siTerminal (clIn s))
      then tell (NPrompt user) s else s)"

function promptVerifiedFrom :: "'sid cliEnv \<Rightarrow> string \<Rightarrow> nat \<Rightarrow> cliState \<Rightarrow> (string \<times> bool) \<times> cliState" where
  "promptVerifiedFrom C user i s =
     (if attempts < i then (([], False), s)
      else case promptPassword (ceHost C) (clIn s) of
        (Inl err, inp) \<Rightarrow> (([], False), tell (NError err) ((asked C user s)\<lparr>clIn := inp\<rparr>))
      | (Inr pw, inp) \<Rightarrow>
          let s1 = (asked C user s)\<lparr>clIn := inp\<rparr> in
          case verifyLogon (ceHost C) (ceWin C) user pw of
            Some err \<Rightarrow>
              let s2 = tell (NError err) s1;
                  s3 = (if i < attempts then tell (NTryAgain (i + 1)) s2 else s2)
              in promptVerifiedFrom C user (i + 1) s3
          | None \<Rightarrow> ((pw, True), s1))"
  by pat_completeness auto
termination
  by (relation "measure (\<lambda>(C, user, i, s). Suc attempts - i)") auto

declare promptVerifiedFrom.simps [simp del]

definition promptVerifiedPassword :: "'sid cliEnv \<Rightarrow> string \<Rightarrow> cliState \<Rightarrow> (string \<times> bool) \<times> cliState" where
  "promptVerifiedPassword C user s = promptVerifiedFrom C user 1 s"

definition resolveAccount ::
    "'sid cliEnv \<Rightarrow> string \<Rightarrow> options \<Rightarrow> cliState \<Rightarrow> goerr option \<times> options \<times> cliState" where
  "resolveAccount C credPath o' s =
     (if \<not> onWindows (ceHost C) then (None, o', s)
      else if credPath \<noteq> [] then
        (case readCredentialFile (ceHost C) (clFS s) credPath of
           (Inl err, fs) \<Rightarrow> (Some err, o', s\<lparr>clFS := fs\<rparr>)
         | (Inr pw, fs) \<Rightarrow> (None, o'\<lparr>opPassword := pw, opNeedsCredential := False\<rparr>, s\<lparr>clFS := fs\<rparr>))
      else
        let U = hCase (ceHost C); user = TrimSpace (opUserName o') in
        if user = [] \<or> opSystem o' \<or> builtinServiceAccount U user then
          (if builtinServiceAccount U user \<and> \<not> EqualFold user ''system''
              \<and> \<not> EqualFold user (''NT AUTHORITY'' @ [CHR 0x5C] @ ''SYSTEM'') \<and> \<not> EqualFold user ''LocalSystem''
           then (None, o'\<lparr>opPassword := []\<rparr>, s)
           else (None, o'\<lparr>opUserName := [], opPassword := []\<rparr>, s))
        else
          case (if EqualFold user ''current'' then
                  (case currentUserToken (ceHost C) (ceWin C) of
                     Inl err \<Rightarrow> Inl (Wrapped [Txt ''determine current account''] err)
                   | Inr token \<Rightarrow> Inr (token, o'\<lparr>opUserName := token\<rparr>))
                else Inr (user, o')) of
            Inl err \<Rightarrow> (Some err, o', s)
          | Inr (account, o1) \<Rightarrow>
              (case promptVerifiedPassword C account s of
                 ((pw, ok), s1) \<Rightarrow>
                   if \<not> ok then (Some (Msg [Txt (''no valid password supplied for '' @ account)]), o1, s1)
                   else (None, o1\<lparr>opPassword := pw, opNeedsCredential := True\<rparr>, s1)))"

section \<open>Preparing an installation\<close>

definition resolveConfigPath :: "pathOps \<Rightarrow> fsys \<Rightarrow> string \<Rightarrow> string res" where
  "resolveConfigPath P fs p0 =
     (let p = (if TrimSpace p0 = [] then ''config.toml'' else p0) in
      bindR (wrapR [Txt ''resolve config path''] (fpAbs P p)) (\<lambda>a.
        case osStat fs a of Inl err \<Rightarrow> Inl (Hinted (Wrapped [Txt ''config '', Quoted a] err)
            [Txt (CHR 0x0A # ''hint: create one with: termcp-relay init '' @ p)]) | Inr st \<Rightarrow> Inr a))"

text \<open>
  The paths a service must remember; the first half of \<open>prepareInstall\<close>: the log file, the
  working directory, and all together, after the configuration has been loaded.
\<close>

definition installLogFile :: "hostEnv \<Rightarrow> string \<Rightarrow> string \<Rightarrow> string res" where
  "installLogFile h cfgPath logFile =
     (let P = hPaths h;
          l = (if logFile = [] \<and> onWindows h then fpJoin P [fpDir P cfgPath, relayName @ ''.log''] else logFile)
      in if l \<noteq> [] then wrapR [Txt ''resolve --log-file''] (fpAbs P l) else Inr l)"

definition installWorkDir :: "hostEnv \<Rightarrow> string \<Rightarrow> string res" where
  "installWorkDir h workDir =
     (let d = (if TrimSpace workDir = [] then
                 (case osUserHomeDir h of
                    Inr home \<Rightarrow> if TrimSpace home \<noteq> [] then home else workDir
                  | Inl e \<Rightarrow> workDir)
               else workDir)
      in if TrimSpace d \<noteq> [] then wrapR [Txt ''resolve --work-dir''] (fpAbs (hPaths h) d) else Inr d)"

definition installPaths :: "'sid cliEnv \<Rightarrow> fsys \<Rightarrow> options \<Rightarrow> options res" where
  "installPaths C fs o0 =
     (let h = ceHost C; P = hPaths h in
      bindR (resolveConfigPath P fs (opConfigPath o0)) (\<lambda>a.
       bindR (wrapR [Txt ''config '', Quoted a, Txt '' is not usable''] (Load P (ceDecode C) fs a)) (\<lambda>cfg.
        bindR (installLogFile h a (opLogFile o0)) (\<lambda>l.
         bindR (installWorkDir h (opWorkDir o0)) (\<lambda>w.
          Inr (o0\<lparr>opConfigPath := a, opLogFile := l, opWorkDir := w\<rparr>))))))"

definition prepareInstall ::
    "'sid cliEnv \<Rightarrow> string \<Rightarrow> options \<Rightarrow> cliState \<Rightarrow> options res \<times> cliState" where
  "prepareInstall C credPath o0 s =
     (case installPaths C (clFS s) o0 of
        Inl err \<Rightarrow> (Inl err, s)
      | Inr o1 \<Rightarrow>
          (case resolveAccount C credPath o1 s of
             (Some err, o2, s1) \<Rightarrow> (Inl err, s1)
           | (None, o2, s1) \<Rightarrow> (Inr o2, s1)))"

section \<open>Elevation\<close>

definition requiresAdmin :: "string \<Rightarrow> bool" where
  "requiresAdmin action = (action \<in> set [''install'', ''uninstall'', ''start'', ''stop'', ''restart''])"

text \<open>The exit code when the caller should stop with it, and the state.\<close>

definition maybeElevate ::
    "'sid cliEnv \<Rightarrow> string \<Rightarrow> options \<Rightarrow> bool \<Rightarrow> cliState \<Rightarrow> int option \<times> cliState" where
  "maybeElevate C action o' isElevatedChild s =
     (let h = ceHost C; A = ceWin C in
      if isElevatedChild \<or> \<not> requiresAdmin action \<or> elevated h A then (None, s)
      else if action \<noteq> ''install''
              \<and> (case Query C (clHist s) (serviceName o') of Inr st \<Rightarrow> \<not> stInstalled st | Inl e \<Rightarrow> False)
      then (None, s)
      else
        let s1 = tell NElevating s; child = childArgs action o';
            finish = (\<lambda>args s2. case relaunchElevated h A (clFS s2) args of
               (Inl err, replay, fs) \<Rightarrow> (Some 1, tell (NElevateError err) (tell (NReplay replay) (s2\<lparr>clFS := fs\<rparr>)))
             | (Inr code, replay, fs) \<Rightarrow> (Some code, tell (NReplay replay) (s2\<lparr>clFS := fs\<rparr>)))
        in if opNeedsCredential o' then
             (case writeCredentialFile h A (clFS s1) (opPassword o') of
                (Inl err, fs) \<Rightarrow> (Some 1, tell (NError err) (s1\<lparr>clFS := fs\<rparr>))
              | (Inr credFile, fs) \<Rightarrow>
                  (case finish (child @ [credentialFlag, credFile]) (s1\<lparr>clFS := fs\<rparr>) of
                     (code, s3) \<Rightarrow> (code, s3\<lparr>clFS := snd (osRemove (clFS s3) credFile)\<rparr>)))
           else finish child s1)"

section \<open>Installing\<close>

definition install :: "'sid cliEnv \<Rightarrow> options \<Rightarrow> cliState \<Rightarrow> int \<times> cliState" where
  "install C o' s =
     (case newService C o' of
        Inl err \<Rightarrow> failWith err s
      | Inr cfg \<Rightarrow>
          (case svcDo C cfg CallInstall s of
             (Some err, s1) \<Rightarrow>
               failWith (if osIsPermission err then Hinted err [Txt (CHR 0x0A # ''hint: installing a service needs root on Linux/macOS or an Administrator shell on Windows'')]
                         else if Contains (ToLower (hCase (ceHost C)) (errText C err)) ''already exists''
                         then Hinted err [Txt (CHR 0x0A # ''hint: a previous install is still registered; check with '' @ [CHR 0x27]
                           @ ''termcp-relay service status'' @ [CHR 0x27] @ '' and remove it with '' @ [CHR 0x27]
                           @ ''termcp-relay service uninstall'' @ [CHR 0x27] @ '' first'')]
                         else if opUserName o' \<noteq> [] \<and> logonFailure (ceHost C) err
                         then Hinted err [Txt (CHR 0x0A # ''hint: the Windows account password was rejected; rerun with the correct --user account/password'')]
                         else err) s1
           | (None, s1) \<Rightarrow>
               let s2 = (if opUserName o' \<noteq> [] \<and> \<not> builtinServiceAccount (hCase (ceHost C)) (opUserName o') then
                           (case grantServiceLogonRight (ceHost C) (ceWin C) (clHist s1) (opUserName o') of
                              (Some err, hist) \<Rightarrow> tell (NGrantWarning (opUserName o') err) (s1\<lparr>clHist := hist\<rparr>)
                            | (None, hist) \<Rightarrow> s1\<lparr>clHist := hist\<rparr>)
                         else s1)
               in (0, tell (NInstalled o') s2)))"

section \<open>Controlling\<close>

definition grantLogonRightAndRetry ::
    "'sid cliEnv \<Rightarrow> kConfig \<Rightarrow> string \<Rightarrow> goerr \<Rightarrow> cliState \<Rightarrow> goerr option \<times> cliState" where
  "grantLogonRightAndRetry C cfg name startErr s =
     (let h = ceHost C; A = ceWin C in
      case serviceAccountName h A (clHist s) name of
        Inl e \<Rightarrow> (Some startErr, s)
      | Inr acct \<Rightarrow>
          if acct = [] \<or> builtinServiceAccount (hCase h) acct then (Some startErr, s)
          else if serviceLogonRightHeld h A (clHist s) acct = Inr True then (Some startErr, s)
          else (case grantServiceLogonRight h A (clHist s) acct of
                  (Some e, hist) \<Rightarrow> (Some startErr, s\<lparr>clHist := hist\<rparr>)
                | (None, hist) \<Rightarrow>
                    (case svcDo C cfg CallStart (s\<lparr>clHist := hist\<rparr>) of
                       (Some e, s1) \<Rightarrow> (Some startErr, s1)
                     | (None, s1) \<Rightarrow> (None, tell (NGranted acct) s1))))"

definition hasSystemctl :: "fsys \<Rightarrow> bool" where
  "hasSystemctl fs = (case osStat fs ''/run/systemd/system'' of Inl e \<Rightarrow> False | Inr st \<Rightarrow> True)"

definition cliDirExists :: "fsys \<Rightarrow> string \<Rightarrow> bool" where
  "cliDirExists fs p = (case osStat fs p of Inl e \<Rightarrow> False | Inr st \<Rightarrow> isDir st)"

definition manualCheckHint :: "hostEnv \<Rightarrow> fsys \<Rightarrow> string \<Rightarrow> string" where
  "manualCheckHint h fs name =
     (case hGOOS h of
        Windows \<Rightarrow> ''sc query '' @ name
      | Darwin \<Rightarrow> ''launchctl list | grep '' @ name
      | Linux \<Rightarrow> if hasSystemctl fs then ''systemctl status '' @ name
                else if cliDirExists fs ''/etc/init.d'' then ''/etc/init.d/'' @ name @ '' status''
                else []
      | OtherOS \<Rightarrow> [])"

definition printStatus :: "'sid cliEnv \<Rightarrow> options \<Rightarrow> cliState \<Rightarrow> int \<times> cliState" where
  "printStatus C o' s =
     (let h = ceHost C; A = ceWin C; hist = clHist s in
      case Query C hist (serviceName o') of
        Inl err \<Rightarrow> if errors_Is err ErrNoServiceSystem
                   then (0, tell (NNoManager (serviceName o') (opConfigPath o')) s)
                   else failWith err s
      | Inr st \<Rightarrow>
          let s1 = tell (NStatus st (opConfigPath o')) s;
              s2 = (if stInstalled st then
                      (let s' = (case serviceAccountName h A hist (serviceName o') of
                                   Inl e \<Rightarrow> s1
                                 | Inr acct \<Rightarrow>
                                     if acct = [] then s1
                                     else let sa = tell (NAccount acct) s1 in
                                       if \<not> builtinServiceAccount (hCase h) acct
                                          \<and> serviceLogonRightHeld h A hist acct = Inr False
                                       then tell (NLacksRight acct) sa else sa);
                           hint = manualCheckHint h (clFS s) (stName st)
                       in if hint \<noteq> [] then tell (NCheckHint hint) s' else s')
                    else s1)
          in (0, s2))"

definition doUninstall :: "'sid cliEnv \<Rightarrow> kConfig \<Rightarrow> string \<Rightarrow> cliState \<Rightarrow> int \<times> cliState" where
  "doUninstall C cfg name s =
     (let (stopErr, s1) =
            (if smStatus (ceSM C) (clHist s) (kcName cfg) = Inr True then
               (case svcDo C cfg CallStop s of
                  (Some err, s') \<Rightarrow> (Some err, s')
                | (None, s') \<Rightarrow> (None, tell (NStopped name) s'))
             else (None, s))
      in case stopErr of
           Some err \<Rightarrow> failWith (Wrapped [Txt ''stop running service before uninstall''] err) s1
         | None \<Rightarrow> (case svcDo C cfg CallUninstall s1 of
               (Some err, s2) \<Rightarrow> failWith err s2
             | (None, s2) \<Rightarrow> (0, tell (NRemoved name) s2)))"

definition doStart :: "'sid cliEnv \<Rightarrow> kConfig \<Rightarrow> string \<Rightarrow> cliState \<Rightarrow> int \<times> cliState" where
  "doStart C cfg name s =
     (let (err, s1) =
            (case svcDo C cfg CallStart s of
               (None, s') \<Rightarrow> (None, s')
             | (Some e, s') \<Rightarrow>
                 if logonFailure (ceHost C) e then grantLogonRightAndRetry C cfg name e s' else (Some e, s'))
      in case err of
           None \<Rightarrow> (0, tell (NStarted name) s1)
         | Some e \<Rightarrow> failWith (if logonFailure (ceHost C) e
                              then Hinted e [Txt (CHR 0x0A # ''hint: the SCM could not log on the service account; its password is wrong or stale. Reinstall to update it: termcp-relay service install --user <account> ...'')] else e) s1)"

definition doSimple :: "'sid cliEnv \<Rightarrow> kConfig \<Rightarrow> svcCall \<Rightarrow> message \<Rightarrow> cliState \<Rightarrow> int \<times> cliState" where
  "doSimple C cfg call said s =
     (case svcDo C cfg call s of
        (Some err, s1) \<Rightarrow> failWith err s1
      | (None, s1) \<Rightarrow> (0, tell said s1))"

definition control :: "'sid cliEnv \<Rightarrow> string \<Rightarrow> options \<Rightarrow> cliState \<Rightarrow> int \<times> cliState" where
  "control C action o' s =
     (let name = serviceName o' in
      if action = ''status'' then printStatus C o' s
      else case newService C o' of
        Inl err \<Rightarrow> failWith err s
      | Inr cfg \<Rightarrow>
          if action \<in> set [''uninstall'', ''start'', ''stop'', ''restart'']
             \<and> (case Query C (clHist s) name of Inr st \<Rightarrow> \<not> stInstalled st | Inl e \<Rightarrow> False)
          then (0, tell (NNotInstalled name) s)
          else if action = ''uninstall'' then doUninstall C cfg name s
          else if action = ''start'' then doStart C cfg name s
          else if action = ''stop'' then doSimple C cfg CallStop (NStopped name) s
          else if action = ''restart'' then doSimple C cfg CallRestart (NRestarted name) s
          else (0, s))"

section \<open>Command\<close>

definition runAction :: "'sid cliEnv \<Rightarrow> string \<Rightarrow> options \<Rightarrow> bool \<Rightarrow> string \<Rightarrow> cliState \<Rightarrow> int \<times> cliState" where
  "runAction C action o0 isElevatedChild credPath s =
     (if action = ''install'' then
        (case prepareInstall C credPath o0 s of
           (Inl err, s1) \<Rightarrow> failWith err s1
         | (Inr o1, s1) \<Rightarrow>
             (case maybeElevate C action o1 isElevatedChild s1 of
                (Some code, s2) \<Rightarrow> (code, s2)
              | (None, s2) \<Rightarrow> install C o1 s2))
      else if action \<in> set [''uninstall'', ''start'', ''stop'', ''restart'', ''status''] then
        (case maybeElevate C action o0 isElevatedChild s of
           (Some code, s1) \<Rightarrow> (code, s1)
         | (None, s1) \<Rightarrow> control C action o0 s1)
      else (2, tell (NUnknownAction action) s))"

definition Command :: "'sid cliEnv \<Rightarrow> string list \<Rightarrow> cliState \<Rightarrow> int \<times> cliState" where
  "Command C args0 s0 =
     (let (isElevatedChild, fs, out, args, credPath) = openCommand (hPaths (ceHost C)) (clFS s0) args0;
          s = s0\<lparr>clFS := fs\<rparr>
      in case args of
           [] \<Rightarrow> (2, tell NUsageError s)
         | action # flags \<Rightarrow>
             if action \<in> set [''help'', ''-h'', ''--help''] then (0, tell NUsage s)
             else case serviceOptions flags of
               Inl code \<Rightarrow> (int code, tell (case parseFlags serviceFormal serviceDefaults flags of
                   Inl c \<Rightarrow> NFlagsRefused flags | Inr vr \<Rightarrow> NExclusive) s)
             | Inr o' \<Rightarrow> runAction C action o' isElevatedChild credPath s)"

end
