(* ===== verification/Relay_Cli_Facts.thy ===== *)
theory Relay_Cli_Facts
  imports Relay_Cli Relay_Windows_Facts
begin

text \<open>
  What the service commands do to the machine: what they change and in which order, what an
  unprivileged process cannot change, where a password goes, and that the elevated copy
  repeats its parent's preparation.
\<close>

section \<open>Frames\<close>

lemma tell_simps [simp]:
  "clFS (tell n s) = clFS s" "clIn (tell n s) = clIn s" "clHist (tell n s) = clHist s"
  by (simp_all add: tell_def)

lemma failWith_simps [simp]: "fst (failWith e s) = 1" "clHist (snd (failWith e s)) = clHist s"
  by (simp_all add: failWith_def)

lemma asked_simps [simp]:
  "clFS (asked C user s) = clFS s" "clIn (asked C user s) = clIn s" "clHist (asked C user s) = clHist s"
  by (simp_all add: asked_def)

lemma promptVerifiedFrom_hist:
  "clHist (snd (promptVerifiedFrom C user i s)) = clHist s \<and> clFS (snd (promptVerifiedFrom C user i s)) = clFS s"
proof (induction C user i s rule: promptVerifiedFrom.induct)
  case (1 C user i s)
  show ?case
  proof (cases "attempts < i")
    case True
    then show ?thesis by (simp add: promptVerifiedFrom.simps)
  next
    case False
    obtain r inp where p: "promptPassword (ceHost C) (clIn s) = (r, inp)" by fastforce
    show ?thesis
    proof (cases r)
      case (Inl e)
      with False p show ?thesis by (simp add: promptVerifiedFrom.simps)
    next
      case (Inr pw)
      show ?thesis
      proof (cases "verifyLogon (ceHost C) (ceWin C) user pw")
        case None
        with False p Inr show ?thesis by (simp add: promptVerifiedFrom.simps)
      next
        case (Some e)
        from 1[OF False p[symmetric] Inr refl Some refl refl] False p Inr Some show ?thesis
          by (subst (1 2) promptVerifiedFrom.simps) (simp add: Let_def)
      qed
    qed
  qed
qed

text \<open>The password that comes out was checked, and at most three were asked for.\<close>

lemma promptVerifiedFrom_ok:
  assumes "promptVerifiedFrom C user i s = ((pw, True), s')"
  shows "verifyLogon (ceHost C) (ceWin C) user pw = None"
  using assms
proof (induction C user i s rule: promptVerifiedFrom.induct)
  case (1 C user i s)
  show ?case
  proof (cases "attempts < i")
    case True
    with 1(2) show ?thesis by (simp add: promptVerifiedFrom.simps)
  next
    case False
    obtain r inp where p: "promptPassword (ceHost C) (clIn s) = (r, inp)" by fastforce
    show ?thesis
    proof (cases r)
      case (Inl e)
      with False p 1(2) show ?thesis by (simp add: promptVerifiedFrom.simps)
    next
      case (Inr pw')
      show ?thesis
      proof (cases "verifyLogon (ceHost C) (ceWin C) user pw'")
        case None
        with False p Inr 1(2) show ?thesis by (simp add: promptVerifiedFrom.simps)
      next
        case (Some e)
        from 1(2) False p Inr Some show ?thesis
          by (intro 1(1)[OF False p[symmetric] Inr refl Some refl refl])
            (simp add: promptVerifiedFrom.simps[of C user i s] Let_def)
      qed
    qed
  qed
qed

text \<open>Each prompt takes at most one line or one typed password.\<close>

definition endsLine :: "string res \<Rightarrow> bool" where
  "endsLine r = (case r of Inl e \<Rightarrow> True | Inr chunk \<Rightarrow> CHR 0x0A \<in> set chunk)"

definition inputLeft :: "stdinState \<Rightarrow> nat" where
  "inputLeft s = length (filter endsLine (siReads s)) + length (siTyped s)"

lemma readLine_input:
  "readLine rs acc = (x, rest) \<Longrightarrow> length (filter endsLine rs) \<le> Suc (length (filter endsLine rest))
     \<and> length (filter endsLine rest) \<le> length (filter endsLine rs)"
  by (induction rs acc rule: readLine.induct) (auto simp: endsLine_def split: if_splits)

lemma promptPassword_input:
  "promptPassword h s = (r, s') \<Longrightarrow> inputLeft s \<le> Suc (inputLeft s') \<and> inputLeft s' \<le> inputLeft s"
  by (auto simp: promptPassword_def promptPasswordWindows_def readTyped_def inputLeft_def
      dest!: readLine_input split: if_splits list.splits prod.splits)

lemma promptVerifiedFrom_input:
  "inputLeft (clIn s) \<le> inputLeft (clIn (snd (promptVerifiedFrom C user i s))) + (Suc attempts - i)"
proof (induction C user i s rule: promptVerifiedFrom.induct)
  case (1 C user i s)
  show ?case
  proof (cases "attempts < i")
    case True
    then show ?thesis by (simp add: promptVerifiedFrom.simps)
  next
    case False
    obtain r inp where p: "promptPassword (ceHost C) (clIn s) = (r, inp)" by fastforce
    note inp = promptPassword_input[OF p]
    show ?thesis
    proof (cases r)
      case (Inl e)
      with False p inp show ?thesis by (simp add: promptVerifiedFrom.simps) linarith
    next
      case (Inr pw)
      show ?thesis
      proof (cases "verifyLogon (ceHost C) (ceWin C) user pw")
        case None
        with False p Inr inp show ?thesis by (simp add: promptVerifiedFrom.simps) linarith
      next
        case (Some e)
        let ?s1 = "(asked C user s)\<lparr>clIn := inp\<rparr>"
        let ?s3 = "if i < attempts then tell (NTryAgain (i + 1)) (tell (NError e) ?s1) else tell (NError e) ?s1"
        have "inputLeft (clIn ?s3) \<le> inputLeft (clIn (snd (promptVerifiedFrom C user (i + 1) ?s3))) + (Suc attempts - (i + 1))"
          by (rule 1[OF False p[symmetric] Inr refl Some refl refl])
        moreover have "promptVerifiedFrom C user i s = promptVerifiedFrom C user (i + 1) ?s3"
          using False p Inr Some by (simp add: promptVerifiedFrom.simps[of C user i s] Let_def)
        ultimately show ?thesis using inp False by auto
      qed
    qed
  qed
qed

lemma readCredentialFile_ok_any: "resolveAccount C credPath o' s = (e, o1, s1) \<Longrightarrow> clHist s1 = clHist s"
  using promptVerifiedFrom_hist[of C _ 1 s]
  by (auto simp: resolveAccount_def promptVerifiedPassword_def Let_def split: if_splits sum.splits prod.splits)
    (metis snd_conv)+

lemma prepareInstall_hist: "clHist (snd (prepareInstall C credPath o' s)) = clHist s"
  using readCredentialFile_ok_any
  by (auto simp: prepareInstall_def split: sum.split prod.split option.split)

lemma maybeElevate_hist: "clHist (snd (maybeElevate C action o' child s)) = clHist s"
  by (auto simp: maybeElevate_def Let_def split: sum.splits prod.splits option.splits)

section \<open>The calls of an action\<close>

definition notInstalled :: "'sid cliEnv \<Rightarrow> svcHistory \<Rightarrow> string \<Rightarrow> bool" where
  "notInstalled C hist name = (case Query C hist name of Inr st \<Rightarrow> \<not> stInstalled st | Inl e \<Rightarrow> False)"

lemma svcDo_simps [simp]:
  "fst (svcDo C cfg c s) = smCall (ceSM C) (clHist s) c cfg"
  "snd (svcDo C cfg c s) = s\<lparr>clHist := clHist s @ [c]\<rparr>"
  by (simp_all add: svcDo_def)

lemma svcDo_eq: "svcDo C cfg c s = (smCall (ceSM C) (clHist s) c cfg, s\<lparr>clHist := clHist s @ [c]\<rparr>)"
  by (simp add: svcDo_def)

lemma control_absent:
  assumes "notInstalled C (clHist s) (serviceName o')" and "action \<in> {''uninstall'', ''start'', ''stop'', ''restart''}"
  shows "control C action o' s =
     (case newService C o' of Inl err \<Rightarrow> failWith err s | Inr cfg \<Rightarrow> (0, tell (NNotInstalled (serviceName o')) s))"
  using assms by (auto simp: control_def notInstalled_def Let_def split: sum.splits)

lemma printStatus_frame:
  "clHist (snd (printStatus C o' s)) = clHist s \<and> clFS (snd (printStatus C o' s)) = clFS s
   \<and> clIn (snd (printStatus C o' s)) = clIn s"
  by (simp add: printStatus_def Let_def failWith_def split: sum.split)

lemma printStatus_code:
  "fst (printStatus C o' s) =
     (case Query C (clHist s) (serviceName o') of
        Inl err \<Rightarrow> if errors_Is err ErrNoServiceSystem then 0 else 1
      | Inr st \<Rightarrow> 0)"
  by (simp add: printStatus_def Let_def failWith_def split: sum.split)

lemma doUninstall_calls:
  "doUninstall C cfg name s = (code, s') \<Longrightarrow>
   (if smStatus (ceSM C) (clHist s) (kcName cfg) = Inr True then
      (if smCall (ceSM C) (clHist s) CallStop cfg = None
       then clHist s' = clHist s @ [CallStop, CallUninstall]
            \<and> (code = 0 \<longleftrightarrow> smCall (ceSM C) (clHist s @ [CallStop]) CallUninstall cfg = None)
       else clHist s' = clHist s @ [CallStop] \<and> code = 1)
    else clHist s' = clHist s @ [CallUninstall]
         \<and> (code = 0 \<longleftrightarrow> smCall (ceSM C) (clHist s) CallUninstall cfg = None))"
  by (auto simp: doUninstall_def svcDo_eq failWith_def Let_def split: if_splits option.splits)

lemma grant_history:
  "grantServiceLogonRight h A hist acct = (e, hist') \<Longrightarrow> hist' = hist \<or> hist' = hist @ [CallGrant acct] \<and> onWindows h"
  by (auto simp: grantServiceLogonRight_def Let_def split: if_splits sum.splits)

lemma grant_ok_history:
  "grantServiceLogonRight h A hist acct = (None, hist') \<Longrightarrow> onWindows h \<Longrightarrow> hist' = hist @ [CallGrant acct]"
  by (auto simp: grantServiceLogonRight_def Let_def split: if_splits sum.splits)

lemma retry_history:
  assumes "grantLogonRightAndRetry C cfg name e s = (r, s')" and "onWindows (ceHost C)"
  shows "clHist s' = clHist s \<and> r = Some e
    \<or> (\<exists>a. clHist s' = clHist s @ [CallGrant a] \<and> r = Some e)
    \<or> (\<exists>a. clHist s' = clHist s @ [CallGrant a, CallStart] \<and> \<not> builtinServiceAccount (hCase (ceHost C)) a
          \<and> r = (if smCall (ceSM C) (clHist s @ [CallGrant a]) CallStart cfg = None then None else Some e))"
proof (cases "\<exists>a. serviceAccountName (ceHost C) (ceWin C) (clHist s) name = Inr a \<and> a \<noteq> []
    \<and> \<not> builtinServiceAccount (hCase (ceHost C)) a \<and> serviceLogonRightHeld (ceHost C) (ceWin C) (clHist s) a \<noteq> Inr True")
  case False
  with assms(1) have "r = Some e \<and> s' = s"
    by (auto simp: grantLogonRightAndRetry_def Let_def split: sum.splits if_splits)
  then show ?thesis by simp
next
  case True
  then obtain a where a: "serviceAccountName (ceHost C) (ceWin C) (clHist s) name = Inr a" "a \<noteq> []"
    "\<not> builtinServiceAccount (hCase (ceHost C)) a" "serviceLogonRightHeld (ceHost C) (ceWin C) (clHist s) a \<noteq> Inr True"
    by blast
  obtain g hist where g: "grantServiceLogonRight (ceHost C) (ceWin C) (clHist s) a = (g, hist)" by fastforce
  show ?thesis
  proof (cases g)
    case (Some x)
    with assms(1) a g have "r = Some e" "clHist s' = hist"
      by (simp_all add: grantLogonRightAndRetry_def Let_def) auto
    with grant_history[OF g] show ?thesis by auto
  next
    case None
    with grant_ok_history[OF _ assms(2)] g have h: "hist = clHist s @ [CallGrant a]" by simp
    with assms(1) a g None
    have "clHist s' = clHist s @ [CallGrant a, CallStart]
        \<and> r = (if smCall (ceSM C) (clHist s @ [CallGrant a]) CallStart cfg = None then None else Some e)"
      by (auto simp: grantLogonRightAndRetry_def Let_def svcDo_eq split: option.splits)
    with a(3) show ?thesis by blast
  qed
qed

lemma doStart_history:
  assumes "doStart C cfg name s = (code, s')"
  shows "let first = smCall (ceSM C) (clHist s) CallStart cfg in
     (if first \<noteq> None \<and> logonFailure (ceHost C) (the first)
      then \<exists>more. clHist s' = clHist s @ CallStart # more
           \<and> (more = [] \<and> code = 1 \<or> (\<exists>a. more = [CallGrant a] \<and> code = 1)
              \<or> (\<exists>a. more = [CallGrant a, CallStart] \<and> \<not> builtinServiceAccount (hCase (ceHost C)) a
                 \<and> (code = 0 \<longleftrightarrow> smCall (ceSM C) (clHist s @ [CallStart, CallGrant a]) CallStart cfg = None)))
      else clHist s' = clHist s @ [CallStart] \<and> (code = 0 \<longleftrightarrow> first = None))"
proof (cases "smCall (ceSM C) (clHist s) CallStart cfg")
  case None
  with assms show ?thesis by (auto simp: doStart_def svcDo_eq)
next
  case (Some e)
  show ?thesis
  proof (cases "logonFailure (ceHost C) e")
    case False
    with assms Some show ?thesis by (auto simp: doStart_def svcDo_eq failWith_def Let_def)
  next
    case True
    then have w: "onWindows (ceHost C)" by (simp add: logonFailure_def)
    let ?s1 = "s\<lparr>clHist := clHist s @ [CallStart]\<rparr>"
    obtain r s2 where g: "grantLogonRightAndRetry C cfg name e ?s1 = (r, s2)" by fastforce
    have fin: "(code, s') = (case r of None \<Rightarrow> (0, tell (NStarted name) s2)
        | Some e \<Rightarrow> failWith (if logonFailure (ceHost C) e
            then Hinted e [Txt (CHR 0x0A # ''hint: the SCM could not log on the service account; its password is wrong or stale. Reinstall to update it: termcp-relay service install --user <account> ...'')] else e) s2)"
      using assms Some True g by (simp add: doStart_def svcDo_eq)
    then have h: "clHist s' = clHist s2" and c: "code = 0 \<longleftrightarrow> r = None"
      by (auto simp: failWith_def split: option.splits)
    have c1: "r \<noteq> None \<Longrightarrow> code = 1" using fin by (auto simp: failWith_def split: option.splits)
    from retry_history[OF g w] show ?thesis
      unfolding Let_def Some using True h c c1
      by (auto split: if_splits)
  qed
qed

lemma install_history:
  "install C o' s = (code, s') \<Longrightarrow>
   (case newService C o' of
      Inl err \<Rightarrow> code = 1 \<and> clHist s' = clHist s
    | Inr cfg \<Rightarrow>
        if smCall (ceSM C) (clHist s) CallInstall cfg = None
        then code = 0 \<and> (clHist s' = clHist s @ [CallInstall]
             \<or> clHist s' = clHist s @ [CallInstall, CallGrant (opUserName o')]
               \<and> opUserName o' \<noteq> [] \<and> \<not> builtinServiceAccount (hCase (ceHost C)) (opUserName o'))
        else code = 1 \<and> clHist s' = clHist s @ [CallInstall])"
proof (cases "newService C o'")
  case (Inr cfg)
  let ?s1 = "s\<lparr>clHist := clHist s @ [CallInstall]\<rparr>"
  assume i: "install C o' s = (code, s')"
  show ?thesis
  proof (cases "smCall (ceSM C) (clHist s) CallInstall cfg")
    case (Some e)
    with i Inr show ?thesis by (auto simp: install_def svcDo_eq failWith_def)
  next
    case None
    obtain g hist where g: "grantServiceLogonRight (ceHost C) (ceWin C) (clHist ?s1) (opUserName o') = (g, hist)"
      by fastforce
    from None i Inr g grant_history[OF g] show ?thesis
      by (cases g) (auto simp: install_def svcDo_eq Let_def split: if_splits)
  qed
qed (auto simp: install_def failWith_def)

section \<open>An unprivileged process\<close>

lemma maybeElevate_asks:
  assumes "onWindows (ceHost C)" and "\<not> waElevated (ceWin C)" and "requiresAdmin action"
    and "action = ''install'' \<or> \<not> notInstalled C (clHist s) (serviceName o')"
  shows "fst (maybeElevate C action o' False s) \<noteq> None"
  using assms
  by (auto simp: maybeElevate_def elevated_def notInstalled_def Let_def split: sum.splits prod.splits)

lemma maybeElevate_passes:
  assumes "\<not> requiresAdmin action \<or> action \<noteq> ''install'' \<and> notInstalled C (clHist s) (serviceName o')"
  shows "maybeElevate C action o' False s = (None, s)
     \<or> fst (maybeElevate C action o' False s) \<noteq> None \<and> requiresAdmin action"
  using assms by (auto simp: maybeElevate_def notInstalled_def Let_def split: sum.splits)

lemma runAction_unelevated:
  assumes w: "onWindows (ceHost C)" "\<not> waElevated (ceWin C)"
  shows "clHist (snd (runAction C action o' False cred s)) = clHist s"
proof -
  consider (install) "action = ''install''" | (status) "action = ''status''"
    | (change) "action \<in> set [''uninstall'', ''start'', ''stop'', ''restart'']"
    | (other) "action \<notin> set [''install'', ''uninstall'', ''start'', ''stop'', ''restart'', ''status'']"
    by auto
  then show ?thesis
  proof cases
    case install
    obtain r s1 where p: "prepareInstall C cred o' s = (r, s1)" by fastforce
    with prepareInstall_hist[of C cred o' s] have h: "clHist s1 = clHist s" by simp
    show ?thesis
    proof (cases r)
      case (Inl e)
      with install p h show ?thesis by (simp add: runAction_def)
    next
      case (Inr o1)
      obtain c s2 where m: "maybeElevate C ''install'' o1 False s1 = (c, s2)" by fastforce
      from maybeElevate_asks[OF w, of "''install''" s1 o1] m obtain code where "c = Some code"
        by (auto simp: requiresAdmin_def)
      with install p Inr m h maybeElevate_hist[of C "''install''" o1 False s1] show ?thesis
        by (simp add: runAction_def)
    qed
  next
    case status
    have "maybeElevate C ''status'' o' False s = (None, s)"
      by (simp add: maybeElevate_def requiresAdmin_def)
    with status printStatus_frame[of C o' s] show ?thesis by (simp add: runAction_def control_def)
  next
    case change
    obtain c s1 where m: "maybeElevate C action o' False s = (c, s1)" by fastforce
    with maybeElevate_hist[of C action o' False s] have h: "clHist s1 = clHist s" by simp
    have r: "runAction C action o' False cred s = (case c of Some code \<Rightarrow> (code, s1) | None \<Rightarrow> control C action o' s1)"
      using change m by (auto simp: runAction_def)
    show ?thesis
    proof (cases c)
      case (Some code)
      with r h show ?thesis by simp
    next
      case None
      have req: "requiresAdmin action" "action \<noteq> ''install''" using change by (auto simp: requiresAdmin_def)
      have "notInstalled C (clHist s) (serviceName o')"
        using maybeElevate_asks[OF w req(1)] None m by fastforce
      moreover from this maybeElevate_passes[of action C s o'] req None m have "s1 = s" by auto
      ultimately have "clHist (snd (control C action o' s1)) = clHist s"
        using change by (subst control_absent) (auto split: sum.split)
      with r None show ?thesis by simp
    qed
  next
    case other
    then show ?thesis by (simp add: runAction_def)
  qed
qed

section \<open>The password stays off the command line\<close>

text \<open>Two file systems that differ in the contents of files only.\<close>

definition sameShape :: "fsys \<Rightarrow> fsys \<Rightarrow> bool" where
  "sameShape fs fs' \<longleftrightarrow> faults fs = faults fs' \<and> (\<forall>q. map_option isDir (nodes fs q) = map_option isDir (nodes fs' q))"

definition namesByShape :: "'sid winAPI \<Rightarrow> bool" where
  "namesByShape A \<longleftrightarrow> (\<forall>fs fs' pat. sameShape fs fs' \<longrightarrow> waTempName A fs pat = waTempName A fs' pat)"

lemma sameShape_absent: "sameShape fs fs' \<Longrightarrow> nodes fs q = None \<longleftrightarrow> nodes fs' q = None"
  by (metis sameShape_def map_option_is_None)

lemma sameShape_dirExists:
  assumes "sameShape fs fs'"
  shows "dirExists fs q = dirExists fs' q"
proof -
  have "map_option isDir (nodes fs q) = map_option isDir (nodes fs' q)" using assms by (simp add: sameShape_def)
  then show ?thesis by (cases "nodes fs q"; cases "nodes fs' q") (simp_all add: dirExists_def)
qed

lemma sameShape_parentOK: "sameShape fs fs' \<Longrightarrow> parentOK P fs q = parentOK P fs' q"
  by (simp add: parentOK_def sameShape_dirExists)

lemma sameShape_faults: "sameShape fs fs' \<Longrightarrow> faults fs = faults fs'"
  by (simp add: sameShape_def)

lemma sameShape_openExcl:
  assumes "sameShape fs fs'"
  shows "fst (osOpenExcl P fs f m) = fst (osOpenExcl P fs' f m)"
  using sameShape_absent[OF assms, of f] sameShape_parentOK[OF assms, of P f] sameShape_faults[OF assms]
  by (cases "nodes fs f"; cases "nodes fs' f") (auto simp: osOpenExcl_def split: option.split)

lemma sameShape_create:
  assumes "sameShape fs fs'" and "namesByShape A"
  shows "fst (osCreateTemp A P fs pat) = fst (osCreateTemp A P fs' pat)"
proof -
  have n: "waTempName A fs pat = waTempName A fs' pat" using assms by (simp add: namesByShape_def)
  show ?thesis
  proof (cases "waTempName A fs' pat")
    case (Inr f)
    with n sameShape_openExcl[OF assms(1), of P f perm0600] show ?thesis
      by (cases "osOpenExcl P fs f perm0600"; cases "osOpenExcl P fs' f perm0600")
        (simp add: osCreateTemp_def split: option.split)
  qed (use n in \<open>simp add: osCreateTemp_def\<close>)
qed

text \<open>An observer of what the shell is given: the child's outcome is a function of it alone.\<close>

definition observing :: "(shellInfo \<Rightarrow> shellOut) \<Rightarrow> 'sid winAPI \<Rightarrow> 'sid winAPI" where
  "observing obs A = A\<lparr>waShell := (\<lambda>info fs. (obs info, fs))\<rparr>"

lemma observing_shell: "fst (shellExecuteEx (observing obs A) verb file args fs) = fst (shellExecuteEx (observing obs A) verb file args fs')"
  by (simp add: shellExecuteEx_def observing_def split: option.split shellOut.split)

lemma observing_relaunch:
  assumes "sameShape fs fs'" and "namesByShape A"
  shows "fst (relaunchElevatedWindows (observing obs A) P fs args) = fst (relaunchElevatedWindows (observing obs A) P fs' args)"
proof -
  let ?A = "observing obs A"
  have n: "namesByShape ?A" using assms(2) by (simp add: namesByShape_def observing_def)
  obtain r1 f1 r2 f2 where c: "osCreateTemp ?A P fs ''termcp-relay-elevated-*.log'' = (r1, f1)"
      "osCreateTemp ?A P fs' ''termcp-relay-elevated-*.log'' = (r2, f2)" by fastforce
  with sameShape_create[OF assms(1) n, of P "''termcp-relay-elevated-*.log''"] have r: "r1 = r2" by simp
  show ?thesis
  proof (cases "waExecutable ?A")
    case (Inl e)
    then show ?thesis by (simp add: relaunchElevatedWindows_def)
  next
    case (Inr exe)
    show ?thesis
    proof (cases r2)
      case (Inl e)
      with c r Inr show ?thesis by (simp add: relaunchElevatedWindows_def)
    next
      case (Inr report)
      obtain x1 g1 x2 g2 where sh: "shellExecuteEx ?A ''runas'' exe (args @ [elevatedOutputFlag, report]) f1 = (x1, g1)"
          "shellExecuteEx ?A ''runas'' exe (args @ [elevatedOutputFlag, report]) f2 = (x2, g2)" by fastforce
      with observing_shell[of obs A "''runas''" exe "args @ [elevatedOutputFlag, report]" f1 f2] have "x1 = x2" by simp
      with c r Inr \<open>waExecutable ?A = Inr exe\<close> sh show ?thesis
        by (cases x2) (simp_all add: relaunchElevatedWindows_def Let_def)
    qed
  qed
qed

lemma writeCredential_password:
  assumes "writeCredentialFileWindows A P fs p = (r, fs1)" and "writeCredentialFileWindows A P fs p' = (r', fs2)"
  shows "r = r' \<and> (case r of Inr f \<Rightarrow> sameShape fs1 fs2 | Inl e \<Rightarrow> True)"
proof -
  have "r = r'"
    using assms by (auto simp: writeCredentialFileWindows_def osWriteString_def split: sum.splits prod.splits option.splits node.splits)
  then show ?thesis
    using writeCredential_ok[of A P fs p _ fs1] writeCredential_ok[of A P fs p' _ fs2] assms
    by (auto simp: sameShape_def split: sum.splits)
qed

section \<open>Properties\<close>

definition labCli :: "string cliEnv" where
  "labCli = \<lparr>ceHost = winHost, ceWin = winDemo,
     ceSM = \<lparr>smNew = (\<lambda>c. None), smCall = (\<lambda>H c cfg. if c = CallStart \<and> H = [] then Some (Errno 1069) else None),
       smStatus = (\<lambda>H n. Inr True)\<rparr>,
     ceConsts = \<lparr>kOnFailure = ''OnFailure'', kOnFailureRestart = ''restart'', kOnFailureDelayDuration = ''delay''\<rparr>,
     ceDecode = pwDecoder, ceLeafText = (\<lambda>e. []), ceFlagText = (\<lambda>a. []), cePrint = (\<lambda>r. False)\<rparr>"

definition labOptions :: "string \<Rightarrow> options" where
  "labOptions path = \<lparr>opName = [], opConfigPath = path, opLogLevel = [], opLogFile = [], opWorkDir = [],
     opSystem = False, opUserName = [], opPassword = [], opNeedsCredential = False\<rparr>"

definition labState :: cliState where
  "labState = \<lparr>clFS = plainFS, clIn = \<lparr>siPiped = True, siReads = [], siConin = None, siTerminal = False, siTyped = []\<rparr>,
     clHist = [], clNotes = []\<rparr>"

lemma lab_there: "\<not> notInstalled labCli [] (serviceName demoInstall)" "\<exists>cfg. newService labCli demoInstall = Inr cfg"
proof -
  have n: "TrimSpace ''lab'' = ''lab''" by code_simp
  show "\<not> notInstalled labCli [] (serviceName demoInstall)"
    by (simp add: notInstalled_def Query_def serviceName_def demoInstall_def n queryService_def labCli_def onWindows_def
        winHost_def queryServiceWindows_def winDemo_def utf16Err_def Let_def)
  show "\<exists>cfg. newService labCli demoInstall = Inr cfg"
    by (simp add: newService_def labCli_def validateOptions_def winHost_def Let_def)
qed

text \<open>C5: On Windows a process without administrator rights changes nothing itself: whatever
  command it is given, it makes no call that changes a service or an account's rights; it
  asks for elevation or reports.\<close>
theorem unprivileged_changes_nothing:
  assumes "onWindows (ceHost C)" and "\<not> waElevated (ceWin C)" and "elevatedOutputFlag \<notin> set args"
  shows "clHist (snd (Command C args s)) = clHist s"
proof -
  have "\<not> hasFlag args elevatedOutputFlag" using assms(3) by (simp add: hasFlag_iff)
  then have o: "fst (openCommand (hPaths (ceHost C)) (clFS s) args) = False"
    by (simp add: openCommand_def Let_def split: prod.split)
  obtain fs out as cred where oc: "openCommand (hPaths (ceHost C)) (clFS s) args = (False, fs, out, as, cred)"
    using o by (metis prod_cases5 fst_conv)
  show ?thesis
  proof (cases as)
    case (Cons action flags)
    show ?thesis
    proof (cases "serviceOptions flags")
      case (Inr o')
      with oc Cons runAction_unelevated[OF assms(1,2), of action o' cred "s\<lparr>clFS := fs\<rparr>"] show ?thesis
        by (simp add: Command_def Let_def)
    qed (use oc Cons in \<open>simp add: Command_def Let_def\<close>)
  qed (use oc in \<open>simp add: Command_def Let_def\<close>)
qed

theorem unprivileged_changes_nothing_witness:
  "clHist (snd (Command labCli [''uninstall'', ''--name'', ''lab''] labState)) = []"
proof -
  have "onWindows (ceHost labCli)" "\<not> waElevated (ceWin labCli)" "elevatedOutputFlag \<notin> set [''uninstall'', ''--name'', ''lab'']"
    by (simp_all add: labCli_def onWindows_def winHost_def winDemo_def elevatedOutputFlag_def)
  from unprivileged_changes_nothing[OF this, of labState] show ?thesis by (simp add: labState_def)
qed

text \<open>Asking for the status changes neither services nor files nor input, never asks for
  elevation, and fails only when the query itself fails on a host with a service manager.\<close>
theorem status_changes_nothing:
  "clHist (snd (runAction C ''status'' o' child cred s)) = clHist s
   \<and> clFS (snd (runAction C ''status'' o' child cred s)) = clFS s
   \<and> clIn (snd (runAction C ''status'' o' child cred s)) = clIn s
   \<and> fst (runAction C ''status'' o' child cred s) =
       (case Query C (clHist s) (serviceName o') of
          Inl err \<Rightarrow> if errors_Is err ErrNoServiceSystem then 0 else 1
        | Inr st \<Rightarrow> 0)"
proof -
  have "runAction C ''status'' o' child cred s = printStatus C o' s"
    by (simp add: runAction_def maybeElevate_def requiresAdmin_def control_def)
  then show ?thesis using printStatus_frame[of C o' s] printStatus_code[of C o' s] by simp
qed

text \<open>C6: Uninstalling an installed service stops it first when it runs, and removes it only if
  that worked; nothing else is called, and the command succeeds exactly when the removal
  did.\<close>
theorem uninstall_stops_first:
  assumes "control C ''uninstall'' o' s = (code, s')" and "newService C o' = Inr cfg"
    and "\<not> notInstalled C (clHist s) (serviceName o')"
  shows "\<exists>calls. clHist s' = clHist s @ calls
     \<and> (if smStatus (ceSM C) (clHist s) (kcName cfg) = Inr True then
          (if smCall (ceSM C) (clHist s) CallStop cfg = None
           then calls = [CallStop, CallUninstall]
                \<and> (code = 0) = (smCall (ceSM C) (clHist s @ [CallStop]) CallUninstall cfg = None)
           else calls = [CallStop] \<and> code = 1)
        else calls = [CallUninstall] \<and> (code = 0) = (smCall (ceSM C) (clHist s) CallUninstall cfg = None))"
proof -
  have "doUninstall C cfg (serviceName o') s = (code, s')"
    using assms by (simp add: control_def notInstalled_def Let_def)
  from doUninstall_calls[OF this] show ?thesis
    by (intro exI[of _ "if smStatus (ceSM C) (clHist s) (kcName cfg) = Inr True then
          (if smCall (ceSM C) (clHist s) CallStop cfg = None then [CallStop, CallUninstall] else [CallStop])
        else [CallUninstall]"]) (auto split: if_splits)
qed

theorem uninstall_stops_first_witness:
  "\<exists>code s'. control labCli ''uninstall'' demoInstall labState = (code, s') \<and> clHist s' = [CallStop, CallUninstall]"
proof -
  obtain code s' cfg where c: "control labCli ''uninstall'' demoInstall labState = (code, s')"
      "newService labCli demoInstall = Inr cfg" using lab_there(2) by fastforce
  have h: "clHist labState = []" by (simp add: labState_def)
  from uninstall_stops_first[OF c] lab_there(1) c(1) show ?thesis
    by (simp add: h) (simp add: labCli_def)
qed

text \<open>C7: Starting calls start once, unless Windows reports a logon failure: then the right to log
  on as a service may be granted, to an account that is not built in, and start is
  called at most once more. The command succeeds exactly when the last start did.\<close>
theorem start_retries_once:
  assumes "control C ''start'' o' s = (code, s')" and "newService C o' = Inr cfg"
    and "\<not> notInstalled C (clHist s) (serviceName o')" and "first = smCall (ceSM C) (clHist s) CallStart cfg"
  shows "\<exists>more. clHist s' = clHist s @ CallStart # more
     \<and> (if first = None \<or> \<not> logonFailure (ceHost C) (the first) then more = [] \<and> (code = 0) = (first = None)
        else more = [] \<and> code = 1 \<or> (\<exists>a. more = [CallGrant a] \<and> code = 1)
           \<or> (\<exists>a. more = [CallGrant a, CallStart] \<and> \<not> builtinServiceAccount (hCase (ceHost C)) a
                \<and> (code = 0) = (smCall (ceSM C) (clHist s @ [CallStart, CallGrant a]) CallStart cfg = None)))"
proof -
  have "doStart C cfg (serviceName o') s = (code, s')"
    using assms by (simp add: control_def notInstalled_def Let_def)
  from doStart_history[OF this] show ?thesis
    unfolding Let_def assms(4)[symmetric] by (cases "first = None \<or> \<not> logonFailure (ceHost C) (the first)") auto
qed

theorem start_retries_once_witness:
  "\<exists>code s' more. control labCli ''start'' demoInstall labState = (code, s') \<and> clHist s' = CallStart # more"
proof -
  obtain code s' cfg where c: "control labCli ''start'' demoInstall labState = (code, s')"
      "newService labCli demoInstall = Inr cfg" using lab_there(2) by fastforce
  have h: "clHist labState = []" by (simp add: labState_def)
  from start_retries_once[OF c _ refl] lab_there(1) c(1) show ?thesis by (auto simp: h)
qed

text \<open>A configuration that does not load costs nothing: the installation reports it and ends
  with status 1, before a password is asked for, elevation requested or anything called.\<close>
lemma broken_config_costs_nothing:
  assumes "resolveConfigPath (hPaths (ceHost C)) (clFS s) (opConfigPath o') = Inr a"
    and "Load (hPaths (ceHost C)) (ceDecode C) (clFS s) a = Inl e"
  shows "runAction C ''install'' o' child cred s = (1, tell (NError (Wrapped [Txt ''config '', Quoted a, Txt '' is not usable''] e)) s)"
  using assms by (simp add: runAction_def prepareInstall_def installPaths_def failWith_def Let_def)

text \<open>C22: The account password is on no command line: no observer of the elevated copy's command
  line can tell two passwords apart, and the service's own arguments do not hold it.\<close>
theorem password_not_on_command_line:
  assumes "namesByShape A"
  shows "fst (maybeElevate (C\<lparr>ceWin := observing obs A\<rparr>) action (o'\<lparr>opPassword := p\<rparr>) child s)
      = fst (maybeElevate (C\<lparr>ceWin := observing obs A\<rparr>) action (o'\<lparr>opPassword := p'\<rparr>) child s)
    \<and> kcArguments (kserviceConfig K h (o'\<lparr>opPassword := p\<rparr>)) = kcArguments (kserviceConfig K h (o'\<lparr>opPassword := p'\<rparr>))"
proof -
  let ?A = "observing obs A" and ?C = "C\<lparr>ceWin := observing obs A\<rparr>"
  have n: "namesByShape ?A" using assms by (simp add: namesByShape_def observing_def)
  have ca: "childArgs action (o'\<lparr>opPassword := x\<rparr>) = childArgs action o'" for x by (simp add: childArgs_def)
  have sn: "serviceName (o'\<lparr>opPassword := x\<rparr>) = serviceName o'" for x by (simp add: serviceName_def)
  have fst_case: "fst (case r of (Inl err, replay, fs) \<Rightarrow> (Some 1, f err replay fs) | (Inr code, replay, fs) \<Rightarrow> (Some code, g code replay fs))
      = (case fst r of Inl e \<Rightarrow> Some 1 | Inr code \<Rightarrow> Some code)" for r :: "int res \<times> string \<times> fsys" and f g
    by (cases r) (auto split: sum.split)
  have "fst (maybeElevate ?C action (o'\<lparr>opPassword := p\<rparr>) child s) = fst (maybeElevate ?C action (o'\<lparr>opPassword := p'\<rparr>) child s)"
  proof (cases "child \<or> \<not> requiresAdmin action \<or> elevated (ceHost C) ?A
      \<or> action \<noteq> ''install'' \<and> notInstalled ?C (clHist s) (serviceName o')")
    case True
    then show ?thesis by (auto simp: maybeElevate_def notInstalled_def sn Let_def)
  next
    case False
    then have w: "onWindows (ceHost C)" by (auto simp: elevated_def split: if_splits)
    have m: "fst (maybeElevate ?C action (o'\<lparr>opPassword := x\<rparr>) child s) =
       (if opNeedsCredential o' then
          (case writeCredentialFileWindows ?A (hPaths (ceHost C)) (clFS s) x of
             (Inl err, fs) \<Rightarrow> Some 1
           | (Inr f, fs) \<Rightarrow> (case fst (relaunchElevatedWindows ?A (hPaths (ceHost C)) fs (childArgs action o' @ [credentialFlag, f])) of
                Inl e \<Rightarrow> Some 1 | Inr code \<Rightarrow> Some code))
        else (case fst (relaunchElevatedWindows ?A (hPaths (ceHost C)) (clFS s) (childArgs action o')) of
                Inl e \<Rightarrow> Some 1 | Inr code \<Rightarrow> Some code))" for x
      using False w
      by (auto simp: maybeElevate_def notInstalled_def sn ca Let_def relaunchElevated_def writeCredentialFile_def
          split: prod.split sum.split)
    show ?thesis
    proof (cases "opNeedsCredential o'")
      case False
      then show ?thesis by (simp add: m)
    next
      case True
      obtain r fs1 r' fs2 where wr: "writeCredentialFileWindows ?A (hPaths (ceHost C)) (clFS s) p = (r, fs1)"
          "writeCredentialFileWindows ?A (hPaths (ceHost C)) (clFS s) p' = (r', fs2)" by fastforce
      have r: "r = r'" "case r of Inr f \<Rightarrow> sameShape fs1 fs2 | Inl e \<Rightarrow> True"
        using writeCredential_password[OF wr] by blast+
      show ?thesis
      proof (cases r')
        case (Inl e)
        with True r wr show ?thesis by (simp add: m)
      next
        case (Inr f)
        with r observing_relaunch[OF _ assms, of fs1 fs2 obs "hPaths (ceHost C)" "childArgs action o' @ [credentialFlag, f]"]
        show ?thesis using True wr by (simp add: m)
      qed
    qed
  qed
  then show ?thesis by (simp add: kserviceConfig_args)
qed

theorem password_not_on_command_line_witness:
  "fst (maybeElevate (labCli\<lparr>ceWin := observing (\<lambda>info. ShellExited (word_of_nat (length (the (sxParams info))))) winDemo\<rparr>) ''install''
       (demoInstall\<lparr>opPassword := ''a''\<rparr>) False labState)
   = fst (maybeElevate (labCli\<lparr>ceWin := observing (\<lambda>info. ShellExited (word_of_nat (length (the (sxParams info))))) winDemo\<rparr>) ''install''
       (demoInstall\<lparr>opPassword := ''another one''\<rparr>) False labState)"
proof -
  have "namesByShape winDemo" by (simp add: namesByShape_def winDemo_def)
  from password_not_on_command_line[OF this] show ?thesis by blast
qed

end
