(* ===== verification/Relay_Text.thy ===== *)
theory Relay_Text
  imports Relay_Cli Go_Fmt
begin

text \<open>
  What the program prints: the usage texts of \<open>main.go\<close> and \<open>cli.go\<close>, and the text of every
  message of the service commands, with \<open>%q\<close> as \<open>Quote\<close>. From the texts follows what an
  elevated copy leaves in the file its output is redirected to.
\<close>

section \<open>Usage\<close>

definition mainUsage :: string where
  \<open>mainUsage = unlines
     [''termcp-relay '' @ [CHR 0xE2, CHR 0x80, CHR 0x94] @ '' standalone SSH daemon'',
      [],
      ''Usage:'',
      ''  termcp-relay [flags]              Start the SSH server.'',
      ''  termcp-relay init [config-path]   Write a template config.toml (refuses to overwrite).'',
      ''  termcp-relay service <action>     Install/remove/control the system service.'',
      ''  termcp-relay version              Print the build version.'',
      ''  termcp-relay help, -h, --help     Show this help.'',
      [],
      ''Flags:'',
      ''  --config path   Path to config.toml (default "config.toml").'',
      ''  --log-level lvl Override server.log_level: debug | info | warn | error.'',
      ''  --log-file path Append logs to this file (in addition to stderr).'',
      [],
      ''The host key and authorized_keys paths in config.toml are resolved relative to'',
      ''the config file'' @ [CHR 0x27] @ ''s directory, so co-locate them with config.toml.'',
      [],
      ''Run "termcp-relay service help" for service management (install, status, ...).'']\<close>

definition serviceUsage :: string where
  \<open>serviceUsage = unlines
     [''termcp-relay service '' @ [CHR 0xE2, CHR 0x80, CHR 0x94] @ '' install/remove the relay as a system service'',
      [],
      ''Usage:'',
      ''  termcp-relay service install   [flags]   Register and enable the service.'',
      ''  termcp-relay service uninstall [flags]   Stop and remove the service.'',
      ''  termcp-relay service start     [flags]   Start the installed service.'',
      ''  termcp-relay service stop      [flags]   Stop the running service.'',
      ''  termcp-relay service restart   [flags]   Restart the service.'',
      ''  termcp-relay service status    [flags]   Show whether it is installed/running.'',
      ''  termcp-relay service help                Show this help.'',
      [],
      ''Flags:'',
      ''  --config path    Path to config.toml (default "config.toml").'',
      ''                   Stored as an absolute path at install time, because the'',
      ''                   service manager starts the process in a different directory.'',
      ''  --log-file path  Append logs to this file (in addition to stderr).'',
      ''                   Required to see logs on Windows, where services have no'',
      ''                   console. Defaults to <config dir>/termcp-relay.log on Windows.'',
      ''  --work-dir path  Working directory for SSH sessions. Defaults to the'',
      ''                   installing user'' @ [CHR 0x27] @ ''s home (e.g. C:'' @ [CHR 0x5C] @ ''Users'' @ [CHR 0x5C] @ ''<you> on Windows),'',
      ''                   so clients drop into your files instead of System32. Can'',
      ''                   also be set via server.work_dir in config.toml.'',
      ''  --log-level lvl  Override server.log_level: debug | info | warn | error.'',
      ''  --system         Run as the platform system account: LocalSystem on Windows,'',
      ''                   root on Unix. This is already the default.'',
      ''  --user name      Run as a dedicated account instead of LocalSystem/root.'',
      ''                   On Windows, non-built-in accounts prompt for their password.'',
      ''  --name name      Service name (default "termcp-relay"), for multiple instances.'',
      [],
      ''Service backends: Windows SCM; systemd / Upstart / SysV / OpenRC on Linux;'',
      ''launchd on macOS.'',
      [],
      ''Service account: defaults to LocalSystem on Windows (like nssm) and root on'',
      ''Linux/macOS, so installation is unattended and needs no password. Use --user'',
      ''to isolate into a dedicated lower-privileged account if desired. SSH sessions'',
      ''start in --work-dir (by default your user home) so running commands feels'',
      ''just like a local login.'',
      [],
      ''Privileges: install/uninstall/start/stop/restart need an elevated account. On'',
      ''Windows the command re-launches itself through the UAC prompt (config is'',
      ''validated first, so a typo costs no prompt); on Linux/macOS run it with sudo.'',
      ''status never needs privileges and works everywhere.'',
      [],
      ''Check the current state at any time:'',
      ''  termcp-relay service status'']\<close>

section \<open>Messages\<close>

definition line :: "string \<Rightarrow> string" where
  "line s = s @ [CHR 0x0A]"

text \<open>The command line of a service command for the same service, as the messages give it.\<close>

definition followUp :: "string \<Rightarrow> options \<Rightarrow> string" where
  "followUp action o' = ''termcp-relay service '' @ action @ nameFlag o'"

definition dash :: string where "dash = [CHR 0xE2, CHR 0x80, CHR 0x94]"

text \<open>What \<open>install\<close> reports.\<close>

definition installedText :: "'sid cliEnv \<Rightarrow> options \<Rightarrow> string" where
  \<open>installedText C o' =
     (let acct = accountDisplay (ceHost C) o' in
      line (''installed service '' @ Quote (cePrint C) (serviceName o'))
      @ line (''  config:   '' @ opConfigPath o')
      @ (if opLogFile o' \<noteq> [] then line (''  log file: '' @ opLogFile o') else [])
      @ line (''  run as:   '' @ acct)
      @ (if opWorkDir o' \<noteq> [] then line (''  work dir: '' @ opWorkDir o' @ '' (SSH sessions start here)'') else [])
      @ line [] @ line (''warning: SSH clients get a shell as '' @ acct @ '' '' @ dash @ '' that account'' @ [CHR 0x27] @ ''s rights are the'')
      @ line (''         shell'' @ [CHR 0x27] @ ''s rights. Use key auth and bind to a trusted interface.'')
      @ line [] @ line (''start it with:  '' @ followUp ''start'' o')
      @ line (''check it with:  '' @ followUp ''status'' o'))\<close>

definition statusText :: "'sid cliEnv \<Rightarrow> svcStatus \<Rightarrow> string \<Rightarrow> string" where
  \<open>statusText C st cfgPath =
     (let q = ''service '' @ Quote (cePrint C) (stName st) in
      if \<not> stInstalled st then line (q @ '': not installed'')
        @ line (''install it with: termcp-relay service install --config '' @ cfgPath)
      else if stRunning st then line (q @ '': installed, running'')
      else if stDetail st \<noteq> [] then line (q @ '': installed, not running ('' @ stDetail st @ '')'')
      else line (q @ '': installed, stopped''))\<close>

fun messageText :: "'sid cliEnv \<Rightarrow> message \<Rightarrow> string" where
  \<open>messageText C NUsage = serviceUsage\<close>
| \<open>messageText C NUsageError = serviceUsage\<close>
| \<open>messageText C (NError err) = line (''service: '' @ errText C err)\<close>
| \<open>messageText C (NPrompt user) = line (''password for service account '' @ Quote (cePrint C) user
     @ '' (verified now; stored by Windows): '')\<close>
| \<open>messageText C (NTryAgain i) = line (''try again ('' @ decimal i @ ''/'' @ decimal attempts @ '')'')\<close>
| \<open>messageText C NElevating = line ''administrator privileges are required; asking for elevation (UAC)...''\<close>
| \<open>messageText C (NReplay text) = text\<close>
| \<open>messageText C (NElevateError err) = line (''service: '' @ errText C err)
     @ line ''hint: open an Administrator terminal and rerun the command''\<close>
| \<open>messageText C (NFlagsRefused flags) = ceFlagText C flags\<close>
| \<open>messageText C NExclusive = line ''service: --system and --user are mutually exclusive''\<close>
| \<open>messageText C (NUnknownAction action) =
     line (''service: unknown action '' @ Quote (cePrint C) action) @ line [] @ serviceUsage\<close>
| \<open>messageText C (NInstalled o') = installedText C o'\<close>
| \<open>messageText C (NGrantWarning user err) =
     line (''service: warning: failed to grant SeServiceLogonRight to '' @ user @ '': '' @ errText C err)\<close>
| \<open>messageText C (NGranted acct) = line (''granted SeServiceLogonRight ("Log on as a service") to '' @ acct)\<close>
| \<open>messageText C (NNotInstalled name) = line (''service '' @ Quote (cePrint C) name @ '' is not installed'')\<close>
| \<open>messageText C (NStopped name) = line (''stopped service '' @ Quote (cePrint C) name)\<close>
| \<open>messageText C (NRemoved name) = line (''removed service '' @ Quote (cePrint C) name)\<close>
| \<open>messageText C (NStarted name) = line (''started service '' @ Quote (cePrint C) name)\<close>
| \<open>messageText C (NRestarted name) = line (''restarted service '' @ Quote (cePrint C) name)\<close>
| \<open>messageText C (NNoManager name cfgPath) =
     line (''service '' @ Quote (cePrint C) name @ '': unknown '' @ dash
           @ '' no supported service manager detected on this host'')
     @ line (''run the relay in the foreground instead: termcp-relay --config '' @ cfgPath)\<close>
| \<open>messageText C (NStatus st cfgPath) = statusText C st cfgPath\<close>
| \<open>messageText C (NAccount acct) = line (''configured account:     '' @ acct)\<close>
| \<open>messageText C (NLacksRight acct) =
     line (''warning: '' @ acct @ '' lacks SeServiceLogonRight ("Log on as a service");'')
     @ line ''         the SCM will refuse to start it until granted.''
     @ line ''         fix it by starting once: termcp-relay service start (will auto-grant)''\<close>
| \<open>messageText C (NCheckHint hint) = line (''check it directly with: '' @ hint)\<close>

definition notesText :: "'sid cliEnv \<Rightarrow> message list \<Rightarrow> string" where
  "notesText C notes = concat (map (messageText C) notes)"

section \<open>An elevated copy as a process\<close>

text \<open>
  The whole run of a copy: its command, and its output in the file \<open>redirectElevatedOutput\<close>
  opened. The second component is what is left for the terminal.
\<close>

definition copyProcess :: "'sid cliEnv \<Rightarrow> string list \<Rightarrow> cliState \<Rightarrow> int \<times> string \<times> cliState" where
  "copyProcess C args s =
     (let (isElevatedChild, fs, out, rest, credPath) = openCommand (hPaths (ceHost C)) (clFS s) args;
          (code, s1) = Command C args s;
          text = notesText C (drop (length (clNotes s)) (clNotes s1))
      in case out of
           None \<Rightarrow> (code, text, s1)
         | Some f \<Rightarrow> (code, [], s1\<lparr>clFS := snd (osWriteString (clFS s1) f text)\<rparr>))"

text \<open>
  \<open>ShellExecuteExW\<close> on the program with a \<open>service\<close> command line: \<open>main\<close> hands what follows
  \<open>service\<close> to \<open>Command\<close>; the caller waits for the process and reads its exit code.
\<close>

definition copyShell :: "'sid cliEnv \<Rightarrow> cliState \<Rightarrow> string \<Rightarrow> fsys \<Rightarrow> shellOut \<times> fsys" where
  "copyShell C s0 params fs =
     (case copyProcess C (tl (commandLineToArgv params)) (s0\<lparr>clFS := fs\<rparr>) of
        (code, text, s1) \<Rightarrow> (ShellExited (word_of_int code), clFS s1))"

end
