(* ===== verification/Relay_Handoff.thy ===== *)
theory Relay_Handoff
  imports Relay_Cli_Facts Relay_Text
begin

text \<open>
  Preparing an installation twice: the unprivileged parent resolves paths and the account, and
  its elevated copy, which starts from the parent's options and with the handoff files on
  disk, prepares the same installation.
\<close>

section \<open>Files added on the side\<close>

text \<open>A file system with more in it; and a TOML decoder that looks at the file it is given only.\<close>

definition extends :: "fsys \<Rightarrow> fsys \<Rightarrow> bool" where
  "extends fs fs' \<longleftrightarrow> faults fs' = faults fs \<and> (\<forall>q n. nodes fs q = Some n \<longrightarrow> nodes fs' q = Some n)"

definition readsOnlyItsFile :: "tomlDecoder \<Rightarrow> bool" where
  "readsOnlyItsFile dec \<longleftrightarrow>
     (\<forall>fs fs' a d. nodes fs a = nodes fs' a \<and> faults fs = faults fs' \<longrightarrow> dec fs a d = dec fs' a d)"

lemma extends_refl [simp]: "extends fs fs"
  by (simp add: extends_def)

lemma extends_trans: "extends fs fs1 \<Longrightarrow> extends fs1 fs2 \<Longrightarrow> extends fs fs2"
  by (auto simp: extends_def)

lemma extends_stat: "extends fs fs' \<Longrightarrow> osStat fs q = Inr n \<Longrightarrow> osStat fs' q = Inr n"
  by (auto simp: extends_def osStat_def split: option.splits)

lemma extends_new: "nodes fs f = None \<Longrightarrow> extends fs (setNode fs f n)"
  by (auto simp: extends_def)

lemma Load_extends:
  assumes "extends fs fs'" and "readsOnlyItsFile dec" and "Load P dec fs path = Inr c"
    and there: "\<And>a. fpAbs P (if blank path then ''config.toml'' else path) = Inr a \<Longrightarrow> nodes fs a \<noteq> None"
  shows "Load P dec fs' path = Inr c"
proof -
  from assms(3) obtain a s ac where l: "fpAbs P (if blank path then ''config.toml'' else path) = Inr a"
      "dec fs a (cServer Defaults, cAuth Defaults) = Inr (s, ac)"
      "c = normalize P (Defaults\<lparr>cConfigDir := fpDir P a, cServer := s, cAuth := ac\<rparr>)"
      "Validate fs c = None" by (auto simp: Load_eq_Inr)
  from there[OF l(1)] assms(1) have "nodes fs a = nodes fs' a" "faults fs = faults fs'"
    by (auto simp: extends_def)
  with assms(2) l(2) have d: "dec fs' a (cServer Defaults, cAuth Defaults) = Inr (s, ac)"
    by (metis readsOnlyItsFile_def)
  have "statErr fs q = None \<Longrightarrow> statErr fs' q = None" for q
    using extends_stat[OF assms(1), of q] by (auto simp: statErr_def split: sum.splits)
  with l(4) have "Validate fs' c = None" by (auto simp: Validate_None_iff simp del: normalize_fields)
  with l(1,3) d show ?thesis by (auto simp: Load_eq_Inr)
qed

section \<open>Resolved paths stay\<close>

lemma installPaths_eq:
  "installPaths C fs o0 = Inr o1 \<longleftrightarrow>
     (\<exists>a cfg l w. resolveConfigPath (hPaths (ceHost C)) fs (opConfigPath o0) = Inr a
        \<and> Load (hPaths (ceHost C)) (ceDecode C) fs a = Inr cfg
        \<and> installLogFile (ceHost C) a (opLogFile o0) = Inr l \<and> installWorkDir (ceHost C) (opWorkDir o0) = Inr w
        \<and> o1 = o0\<lparr>opConfigPath := a, opLogFile := l, opWorkDir := w\<rparr>)"
  by (auto simp: installPaths_def Let_def bindR_eq_Inr)

lemma resolveConfigPath_ok:
  "resolveConfigPath P fs p = Inr a \<Longrightarrow>
   fpAbs P (if TrimSpace p = [] then ''config.toml'' else p) = Inr a \<and> (\<exists>n. osStat fs a = Inr n)"
proof -
  assume "resolveConfigPath P fs p = Inr a"
  then obtain x where x: "fpAbs P (if TrimSpace p = [] then ''config.toml'' else p) = Inr x"
      "(case osStat fs x of Inl err \<Rightarrow> Inl (Hinted (Wrapped [Txt ''config '', Quoted x] err)
          [Txt (CHR 0x0A # ''hint: create one with: termcp-relay init '' @ (if TrimSpace p = [] then ''config.toml'' else p))]) | Inr st \<Rightarrow> Inr x) = Inr a"
    unfolding resolveConfigPath_def Let_def bindR_eq_Inr wrapR_eq_Inr by blast
  then show ?thesis by (cases "osStat fs x") auto
qed

lemma osStat_there: "osStat fs a = Inr n \<Longrightarrow> nodes fs a = Some n"
  by (auto simp: osStat_def split: option.splits)

context path_laws begin

lemma resolveConfigPath_again:
  assumes "resolveConfigPath P fs p = Inr a" and "extends fs fs'"
  shows "resolveConfigPath P fs' a = Inr a"
proof -
  from resolveConfigPath_ok[OF assms(1)] obtain n where a: "fpAbs P (if TrimSpace p = [] then ''config.toml'' else p) = Inr a"
      "osStat fs a = Inr n" by blast
  then have "TrimSpace a \<noteq> []" "fpAbs P a = Inr a"
    using abs_isAbs abs_idem isAbs_nonblank by blast+
  with extends_stat[OF assms(2) a(2)] show ?thesis by (simp add: resolveConfigPath_def)
qed

lemma installLogFile_again:
  assumes "installLogFile h a l0 = Inr l" and "hPaths h = P" and "fpIsAbs P a"
  shows "installLogFile h a l = Inr l"
proof -
  have j: "fpJoin P [fpDir P a, q] \<noteq> []" for q
    using join_isAbs[OF dir_isAbs[OF assms(3)], of q] isAbs_nonblank by fastforce
  consider l1 where "fpAbs P l1 = Inr l" | "l = []" "\<not> onWindows h"
    using assms(1,2) j by (auto simp: installLogFile_def Let_def split: if_splits)
  then show ?thesis
  proof cases
    case 1
    then have "fpAbs P l = Inr l" "l \<noteq> []" using abs_idem abs_isAbs isAbs_nonblank by force+
    then show ?thesis using assms(2) by (simp add: installLogFile_def Let_def)
  next
    case 2
    then show ?thesis by (simp add: installLogFile_def)
  qed
qed

lemma installWorkDir_again:
  assumes "installWorkDir h w0 = Inr w" and "hPaths h = P"
  shows "installWorkDir h w = Inr w"
proof -
  consider w1 where "fpAbs P w1 = Inr w" | "w = w0" "TrimSpace w0 = []"
    using assms by (auto simp: installWorkDir_def Let_def split: if_splits sum.splits)
  then show ?thesis
  proof cases
    case 1
    then have "fpAbs P w = Inr w" "TrimSpace w \<noteq> []" using abs_idem abs_isAbs isAbs_nonblank by blast+
    then show ?thesis using assms(2) by (simp add: installWorkDir_def Let_def)
  next
    case 2
    with assms(1) show ?thesis by simp
  qed
qed

lemma Load_again:
  assumes "Load P dec fs a = Inr cfg" and "fpAbs P p = Inr a" and "osStat fs a = Inr n"
    and "extends fs fs'" and "readsOnlyItsFile dec"
  shows "Load P dec fs' a = Inr cfg"
proof (rule Load_extends[OF assms(4,5,1)])
  have "\<not> blank a" unfolding blank_def using abs_isAbs[OF assms(2)] by (rule isAbs_nonblank)
  then show "nodes fs b \<noteq> None" if "fpAbs P (if blank a then ''config.toml'' else a) = Inr b" for b
    using that abs_idem[OF assms(2)] osStat_there[OF assms(3)] by simp
qed

text \<open>
  Options that were resolved resolve to themselves, also when other options (the account and
  its password, the name) have changed and files have appeared.
\<close>

lemma installPaths_again:
  assumes "installPaths C fs o0 = Inr o1" and P: "hPaths (ceHost C) = P"
    and "extends fs fs'" and "readsOnlyItsFile (ceDecode C)" and C': "ceHost C' = ceHost C" "ceDecode C' = ceDecode C"
    and o2: "opConfigPath o2 = opConfigPath o1" "opLogFile o2 = opLogFile o1" "opWorkDir o2 = opWorkDir o1"
  shows "installPaths C' fs' o2 = Inr o2"
proof -
  from assms(1) obtain a cfg l w where i: "resolveConfigPath P fs (opConfigPath o0) = Inr a"
      "Load P (ceDecode C) fs a = Inr cfg" "installLogFile (ceHost C) a (opLogFile o0) = Inr l"
      "installWorkDir (ceHost C) (opWorkDir o0) = Inr w"
      "o1 = o0\<lparr>opConfigPath := a, opLogFile := l, opWorkDir := w\<rparr>"
    unfolding installPaths_eq P by blast
  from resolveConfigPath_ok[OF i(1)] obtain p n where a: "fpAbs P p = Inr a" "osStat fs a = Inr n" by blast
  have "resolveConfigPath P fs' a = Inr a" by (rule resolveConfigPath_again[OF i(1) assms(3)])
  moreover have "Load P (ceDecode C) fs' a = Inr cfg" by (rule Load_again[OF i(2) a assms(3,4)])
  moreover have "installLogFile (ceHost C) a l = Inr l"
    by (rule installLogFile_again[OF i(3) P abs_isAbs[OF a(1)]])
  moreover have "installWorkDir (ceHost C) w = Inr w" by (rule installWorkDir_again[OF i(4) P])
  ultimately show ?thesis
    unfolding installPaths_eq C' P using i(5) o2 by (intro exI[of _ a] exI[of _ cfg] exI[of _ l] exI[of _ w]) simp
qed

end

section \<open>Accounts, twice\<close>

text \<open>What a parent decides about the account.\<close>

definition systemAccount :: "string \<Rightarrow> bool" where
  "systemAccount user \<longleftrightarrow> EqualFold user ''system''
     \<or> EqualFold user (''NT AUTHORITY'' @ [CHR 0x5C] @ ''SYSTEM'') \<or> EqualFold user ''LocalSystem''"

lemma resolveAccount_parent:
  assumes "onWindows (ceHost C)" and "resolveAccount C [] o' s = (None, o1, s1)"
  obtains (system) "o1 = o'\<lparr>opUserName := [], opPassword := []\<rparr>" "s1 = s"
  | (builtin) "o1 = o'\<lparr>opPassword := []\<rparr>" "s1 = s" "\<not> systemAccount (TrimSpace (opUserName o'))"
      "builtinServiceAccount (hCase (ceHost C)) (TrimSpace (opUserName o'))"
  | (named) account pw where "verifyLogon (ceHost C) (ceWin C) account pw = None"
      "o1 = o'\<lparr>opUserName := (if EqualFold (TrimSpace (opUserName o')) ''current'' then account else opUserName o'),
               opPassword := pw, opNeedsCredential := True\<rparr>"
      "if EqualFold (TrimSpace (opUserName o')) ''current'' then currentUserToken (ceHost C) (ceWin C) = Inr account
       else account = TrimSpace (opUserName o')"
      "clFS s1 = clFS s" "clHist s1 = clHist s" "inputLeft (clIn s) \<le> inputLeft (clIn s1) + 3"
proof -
  let ?u = "TrimSpace (opUserName o')" and ?U = "hCase (ceHost C)"
  show ?thesis
  proof (cases "?u = [] \<or> opSystem o' \<or> builtinServiceAccount ?U ?u")
    case True
    show ?thesis
    proof (cases "builtinServiceAccount ?U ?u \<and> \<not> systemAccount ?u")
      case b: True
      with assms True have "o1 = o'\<lparr>opPassword := []\<rparr>" "s1 = s"
        by (simp_all add: resolveAccount_def Let_def systemAccount_def)
      with b show ?thesis by (intro builtin) simp_all
    next
      case False
      then have c: "(builtinServiceAccount ?U ?u \<and> \<not> EqualFold ?u ''system''
          \<and> \<not> EqualFold ?u (''NT AUTHORITY'' @ [CHR 0x5C] @ ''SYSTEM'') \<and> \<not> EqualFold ?u ''LocalSystem'') = False"
        unfolding systemAccount_def by blast
      have "o1 = o'\<lparr>opUserName := [], opPassword := []\<rparr>" "s1 = s"
        using assms True unfolding resolveAccount_def Let_def c by simp_all
      then show ?thesis by (intro system)
    qed
  next
    case False
    let ?acct = "if EqualFold ?u ''current'' then
                  (case currentUserToken (ceHost C) (ceWin C) of
                     Inl err \<Rightarrow> Inl (Wrapped [Txt ''determine current account''] err)
                   | Inr token \<Rightarrow> Inr (token, o'\<lparr>opUserName := token\<rparr>))
                else Inr (?u, o')"
    from False assms obtain account ox where ax: "?acct = Inr (account, ox)"
      by (cases ?acct) (auto simp: resolveAccount_def Let_def simp del: if_split)
    obtain pw ok s2 where pv: "promptVerifiedPassword C account s = ((pw, ok), s2)" by (metis prod_cases3 prod.collapse)
    with False assms ax have ok: "ok" "o1 = ox\<lparr>opPassword := pw, opNeedsCredential := True\<rparr>" "s1 = s2"
      by (auto simp: resolveAccount_def Let_def simp del: if_split split: if_split_asm)
    have v: "verifyLogon (ceHost C) (ceWin C) account pw = None"
      using pv ok(1) promptVerifiedFrom_ok by (simp add: promptVerifiedPassword_def)
    have fr: "clFS s1 = clFS s \<and> clHist s1 = clHist s \<and> inputLeft (clIn s) \<le> inputLeft (clIn s1) + 3"
      using pv ok(3) promptVerifiedFrom_hist[of C account 1 s] promptVerifiedFrom_input[of s C account 1]
      by (simp add: promptVerifiedPassword_def attempts_def)
    show ?thesis
    proof (cases "EqualFold ?u ''current''")
      case True
      with ax have t: "currentUserToken (ceHost C) (ceWin C) = Inr account" "ox = o'\<lparr>opUserName := account\<rparr>"
        by (auto split: sum.splits)
      show ?thesis by (rule named[OF v]) (use True t ok fr in simp_all)
    next
      case False
      with ax have t: "account = ?u" "ox = o'" by auto
      show ?thesis by (rule named[OF v]) (use False t ok fr in simp_all)
    qed
  qed
qed

text \<open>What its elevated copy decides, with and without a credential file.\<close>

lemma resolveAccount_child_file:
  assumes "onWindows (ceHost C)" and "cred \<noteq> []" and "readCredentialFile (ceHost C) (clFS s) cred = (Inr pw, fs)"
  shows "resolveAccount C cred o' s = (None, o'\<lparr>opPassword := pw, opNeedsCredential := False\<rparr>, s\<lparr>clFS := fs\<rparr>)"
  using assms by (simp add: resolveAccount_def)

lemma resolveAccount_child_system:
  assumes "onWindows (ceHost C)" and "opUserName o' = []"
  shows "resolveAccount C [] o' s = (None, o'\<lparr>opPassword := []\<rparr>, s)"
proof -
  have "\<not> builtinServiceAccount U []" for U
    by (simp add: builtinServiceAccount_def)
  then show ?thesis using assms by (simp add: resolveAccount_def Let_def)
qed

lemma resolveAccount_child_builtin:
  assumes "onWindows (ceHost C)" and "builtinServiceAccount (hCase (ceHost C)) (TrimSpace (opUserName o'))"
    and "\<not> systemAccount (TrimSpace (opUserName o'))"
  shows "resolveAccount C [] o' s = (None, o'\<lparr>opPassword := []\<rparr>, s)"
  using assms by (simp add: resolveAccount_def Let_def systemAccount_def)

section \<open>The copy prepares what its parent prepared\<close>

text \<open>The options as the copy's command line can carry them.\<close>

abbreviation carried :: "options \<Rightarrow> options" where
  "carried o' \<equiv> o'\<lparr>opName := (if opName o' = [] then relayName else opName o'), opPassword := [], opNeedsCredential := False\<rparr>"

lemma prepareInstall_ok:
  assumes "prepareInstall C cred o0 s = (Inr o1, s1)"
  obtains op where "installPaths C (clFS s) o0 = Inr op" "resolveAccount C cred op s = (None, o1, s1)"
  using assms by (auto simp: prepareInstall_def split: sum.splits prod.splits option.splits)

lemma prepareInstall_intro:
  assumes "installPaths C (clFS s) o0 = Inr op" and "resolveAccount C cred op s = (None, o1, s1)"
  shows "prepareInstall C cred o0 s = (Inr o1, s1)"
  using assms by (simp add: prepareInstall_def)

lemma serviceOptions_fresh:
  assumes "serviceOptions flags = Inr o0"
  shows "opNeedsCredential o0 = False" and "opPassword o0 = []" and "opSystem o0 \<longrightarrow> opUserName o0 = []"
  using assms by (auto simp: serviceOptions_def Let_def split: sum.splits prod.splits if_splits)

text \<open>
  The file system of the copy, with the handoff files, extends the parent's; reading the
  credential file gives the password and removes it.
\<close>

lemma handoff_files:
  assumes wr: "writeCredentialFileWindows A P fs pw = (Inr cred, fs1)"
    and rep: "osCreateTemp A P fs1 pat = (Inr report, fs2)"
    and "faults fs OpRead cred = None" and "faults fs OpRemove cred = None" and "faults fs OpWrite report = None"
  shows "osWriteFile P fs2 report [] perm0600 = (None, fs2)" and "extends fs fs2"
    and "readCredentialFileWindows fs2 cred = (Inr pw, setNode fs report (FileNode [] perm0600))"
proof -
  from writeCredential_ok[OF wr] have f1: "nodes fs cred = None" "fs1 = setNode fs cred (FileNode pw perm0600)" by simp_all
  from osCreateTemp_ok[OF rep] have f2: "nodes fs1 report = None" "fs2 = setNode fs1 report (FileNode [] perm0600)" by simp_all
  have ne: "report \<noteq> cred" using f1(2) f2(1) by auto
  show "osWriteFile P fs2 report [] perm0600 = (None, fs2)"
    using f1 f2 assms(5) by (simp add: osOpenTrunc_def setNode_def)
  have "extends fs1 fs2" unfolding f2(2) by (rule extends_new[OF f2(1)])
  moreover have "extends fs fs1" unfolding f1(2) by (rule extends_new[OF f1(1)])
  ultimately show "extends fs fs2" using extends_trans by blast
  have "osReadFile fs2 cred = Inr pw" using f1 f2 ne assms(3) by (simp add: osReadFile_def)
  moreover have "snd (osRemove fs2 cred) = setNode fs report (FileNode [] perm0600)"
    using assms(4) f1 f2 ne by (simp add: osRemove_def setNode_def fun_upd_twist[of cred report] fun_upd_idem)
  ultimately show "readCredentialFileWindows fs2 cred = (Inr pw, setNode fs report (FileNode [] perm0600))"
    by (simp add: readCredentialFileWindows_def Let_def)
qed

lemma report_file:
  assumes rep: "osCreateTemp A P fs pat = (Inr report, fs2)" and "faults fs OpWrite report = None"
  shows "osWriteFile P fs2 report [] perm0600 = (None, fs2)" and "extends fs fs2"
    and "fs2 = setNode fs report (FileNode [] perm0600)"
proof -
  from osCreateTemp_ok[OF rep] show f2': "fs2 = setNode fs report (FileNode [] perm0600)" by simp
  from osCreateTemp_ok[OF rep] have f2: "nodes fs report = None" "fs2 = setNode fs report (FileNode [] perm0600)" by simp_all
  show "osWriteFile P fs2 report [] perm0600 = (None, fs2)"
    using f2 assms(2) by (simp add: osOpenTrunc_def setNode_def)
  show "extends fs fs2" unfolding f2(2) by (rule extends_new[OF f2(1)])
qed

text \<open>The preparation in the copy, on the options its command line carried.\<close>

lemma prepareInstall_copy:
  assumes w: "onWindows (ceHost C)" and pl: "path_laws (hPaths (ceHost C))" and dec: "readsOnlyItsFile (ceDecode C)"
    and C': "ceHost C' = ceHost C" "ceDecode C' = ceDecode C"
    and fresh: "opNeedsCredential o0 = False"
    and prep: "prepareInstall C [] o0 s = (Inr o1, s1)"
    and ext: "extends (clFS s) (clFS sc)"
    and rd: "if opNeedsCredential o1 then cred \<noteq> [] \<and> readCredentialFile (ceHost C) (clFS sc) cred = (Inr (opPassword o1), fs3)
             else cred = [] \<and> fs3 = clFS sc"
  shows "prepareInstall C' cred (carried o1) sc =
     (Inr (o1\<lparr>opName := (if opName o1 = [] then relayName else opName o1), opNeedsCredential := False\<rparr>), sc\<lparr>clFS := fs3\<rparr>)"
proof -
  from prepareInstall_ok[OF prep] obtain op where op: "installPaths C (clFS s) o0 = Inr op"
      "resolveAccount C [] op s = (None, o1, s1)" .
  have fresh': "opNeedsCredential op = False" using op(1) fresh by (auto simp: installPaths_eq)
  have same: "opConfigPath o1 = opConfigPath op" "opLogFile o1 = opLogFile op" "opWorkDir o1 = opWorkDir op"
    using op(2) by (cases rule: resolveAccount_parent[OF w op(2)]; simp)+
  have paths: "installPaths C' (clFS sc) (carried o1) = Inr (carried o1)"
    using path_laws.installPaths_again[OF pl op(1) refl ext dec C', of "carried o1"] same by simp
  have w': "onWindows (ceHost C')" using w C' by simp
  show ?thesis
  proof (rule prepareInstall_intro[OF paths], cases rule: resolveAccount_parent[OF w op(2)])
    case 1
    with fresh' rd have "cred = []" "fs3 = clFS sc" "opUserName o1 = []" by simp_all
    with 1 resolveAccount_child_system[OF w', of "carried o1"] fresh'
    show "resolveAccount C' cred (carried o1) sc = (None, o1\<lparr>opName := (if opName o1 = [] then relayName else opName o1),
        opNeedsCredential := False\<rparr>, sc\<lparr>clFS := fs3\<rparr>)" by simp
  next
    case 2
    with fresh' rd have "cred = []" "fs3 = clFS sc" "opUserName o1 = opUserName op" by simp_all
    with 2 resolveAccount_child_builtin[OF w', of "carried o1"] fresh' C'(1)
    show "resolveAccount C' cred (carried o1) sc = (None, o1\<lparr>opName := (if opName o1 = [] then relayName else opName o1),
        opNeedsCredential := False\<rparr>, sc\<lparr>clFS := fs3\<rparr>)" by simp
  next
    case (3 account pw)
    with rd have "cred \<noteq> []" "readCredentialFile (ceHost C') (clFS sc) cred = (Inr (opPassword o1), fs3)"
      using C' by simp_all
    from resolveAccount_child_file[OF w' this, of "carried o1"]
    show "resolveAccount C' cred (carried o1) sc = (None, o1\<lparr>opName := (if opName o1 = [] then relayName else opName o1),
        opNeedsCredential := False\<rparr>, sc\<lparr>clFS := fs3\<rparr>)" by simp
  qed
qed

text \<open>
  Given the parent's command line (through Windows' quoting and splitting), the credential
  file and the output file, the copy parses and prepares the same paths, account and
  verified password, and what is left of the files is the one for the output.
\<close>

lemma install_copy_agrees:
  assumes w: "onWindows (ceHost C)" and pl: "path_laws (hPaths (ceHost C))" and dec: "readsOnlyItsFile (ceDecode C)"
    and C': "ceHost C' = ceHost C" "ceDecode C' = ceDecode C"
    and parse: "serviceOptions flags0 = Inr o0" and prep: "prepareInstall C [] o0 s = (Inr o1, s1)"
    and hidden: "set (childArgs ''install'' o1) \<inter> {elevatedOutputFlag, credentialFlag} = {}"
    and names: "report \<noteq> credentialFlag" "cred \<noteq> elevatedOutputFlag"
    and credFile: "if opNeedsCredential o1
       then cred \<noteq> [] \<and> writeCredentialFile (ceHost C) A (clFS s1) (opPassword o1) = (Inr cred, fs1)
       else cred = [] \<and> fs1 = clFS s1"
    and rep: "osCreateTemp A (hPaths (ceHost C)) fs1 pat = (Inr report, fs2)"
    and nofault: "faults (clFS s) OpRead cred = None" "faults (clFS s) OpRemove cred = None"
      "faults (clFS s) OpWrite report = None"
    and argv: "argv = commandLineToArgv (joinArgs (childArgs ''install'' o1
       @ (if opNeedsCredential o1 then [credentialFlag, cred] else []) @ [elevatedOutputFlag, report]))"
    and copy: "clFS sc = fs2"
    and fs3: "fs3 = setNode (clFS s) report (FileNode [] perm0600)"
  shows "\<exists>flags o2. openCommand (hPaths (ceHost C)) fs2 (tl argv) = (True, fs2, Some report, ''install'' # flags, cred)
     \<and> serviceOptions flags = Inr o2
     \<and> prepareInstall C' cred o2 sc =
         (Inr (o1\<lparr>opName := (if opName o1 = [] then relayName else opName o1), opNeedsCredential := False\<rparr>), sc\<lparr>clFS := fs3\<rparr>)
     \<and> clFS s1 = clFS s \<and> clHist s1 = clHist s \<and> (opSystem o1 \<longrightarrow> opUserName o1 = [])"
proof -
  let ?P = "hPaths (ceHost C)"
  note fresh = serviceOptions_fresh[OF parse]
  from prepareInstall_ok[OF prep] obtain op where op: "installPaths C (clFS s) o0 = Inr op"
      "resolveAccount C [] op s = (None, o1, s1)" .
  have s1: "clFS s1 = clFS s" "clHist s1 = clHist s" using op(2) by (cases rule: resolveAccount_parent[OF w op(2)]; simp)+
  have opS: "opSystem op = opSystem o0" "opUserName op = opUserName o0" "opNeedsCredential op = False"
    using op(1) fresh by (auto simp: installPaths_eq)
  have account: "opSystem o1 \<longrightarrow> opUserName o1 = []"
  proof -
    have z: "\<not> EqualFold [] ''current''" by code_simp
    show ?thesis using op(2) fresh(3) opS by (cases rule: resolveAccount_parent[OF w op(2)]) (auto simp: z split: if_splits)
  qed
  have "osWriteFile ?P fs2 report [] perm0600 = (None, fs2) \<and> extends (clFS s) fs2
      \<and> (if opNeedsCredential o1 then cred \<noteq> [] \<and> readCredentialFile (ceHost C) fs2 cred = (Inr (opPassword o1), fs3)
             else cred = [] \<and> fs3 = fs2)"
  proof (cases "opNeedsCredential o1")
    case True
    with credFile w s1 have wr: "writeCredentialFileWindows A ?P (clFS s) (opPassword o1) = (Inr cred, fs1)" "cred \<noteq> []"
      by (simp_all add: writeCredentialFile_def)
    from handoff_files[OF wr(1) rep nofault] fs3 True wr(2) w show ?thesis by (simp add: readCredentialFile_def)
  next
    case False
    with credFile s1 have "fs1 = clFS s" "cred = []" by simp_all
    with report_file[of A ?P "clFS s" pat report fs2] rep nofault(3) False fs3 show ?thesis by simp
  qed
  then have files: "osWriteFile ?P fs2 report [] perm0600 = (None, fs2)" "extends (clFS s) fs2"
      "if opNeedsCredential o1 then cred \<noteq> [] \<and> readCredentialFile (ceHost C) fs2 cred = (Inr (opPassword o1), fs3)
             else cred = [] \<and> fs3 = fs2" by blast+
  have cr: "(if opNeedsCredential o1 then cred else []) = cred" using credFile by (simp split: if_splits)
  from elevation_readback[OF hidden names account refl argv files(1)] obtain flags where
    "openCommand ?P fs2 (tl argv) = (True, fs2, Some report, ''install'' # flags, cred)"
    "serviceOptions flags = Inr (carried o1)" unfolding cr by blast
  moreover have "prepareInstall C' cred (carried o1) sc =
     (Inr (o1\<lparr>opName := (if opName o1 = [] then relayName else opName o1), opNeedsCredential := False\<rparr>), sc\<lparr>clFS := fs3\<rparr>)"
    by (rule prepareInstall_copy[OF w pl dec C' fresh(1) prep]) (use files copy in simp_all)
  ultimately show ?thesis using s1 account by blast
qed

section \<open>A concrete installation\<close>

definition setupHost :: hostEnv where
  "setupHost = winHost\<lparr>hPaths := unixPaths (Some [])\<rparr>"

text \<open>The parent's \<open>ShellExecuteExW\<close> starts a copy, in surroundings of its own.\<close>

definition setupCopy :: "string cliEnv" where
  "setupCopy = labCli\<lparr>ceHost := setupHost\<rparr>"

definition setupWin :: "string winAPI" where
  "setupWin = winDemo\<lparr>waTempName := (\<lambda>fs pat. Inr (if nodes fs ''t1'' = None then ''t1'' else ''t2'')),
     waShell := (\<lambda>info. copyShell setupCopy labState (the (sxParams info)))\<rparr>"

definition setupCli :: "string cliEnv" where
  "setupCli = labCli\<lparr>ceHost := setupHost, ceWin := setupWin\<rparr>"

definition setupFS :: fsys where
  "setupFS = setNode plainFS ''/c.toml'' (FileNode [] 0)"

definition setupState :: cliState where
  "setupState = labState\<lparr>clFS := setupFS, clIn := (clIn labState)\<lparr>siReads := [Inr (''pw'' @ [CHR 0x0D, CHR 0x0A])]\<rparr>\<rparr>"

definition setupOptions :: options where
  "setupOptions = (labOptions ''/c.toml'')\<lparr>opName := relayName, opUserName := ''bob''\<rparr>"

definition setupResolved :: options where
  "setupResolved = setupOptions\<lparr>opLogFile := ''/termcp-relay.log''\<rparr>"

lemma setup_parse: "serviceOptions [''--config'', ''/c.toml'', ''--user'', ''bob''] = Inr setupOptions"
proof -
  have "[''--user'', ''bob''] = optFlag ''user'' ''bob'' @ []" by (simp add: optFlag_def)
  then show ?thesis
    unfolding serviceOptions_def read_service_config
    by (simp only: read_service) (simp add: serviceDefaults_def Let_def setupOptions_def labOptions_def)
qed

lemma setup_paths: "installPaths setupCli setupFS setupOptions = Inr setupResolved"
proof -
  have p: "unixAbs (Some []) ''/c.toml'' = Inr ''/c.toml''" "unixDir ''/c.toml'' = ''/''" "TrimSpace ''/c.toml'' \<noteq> []"
      "unixJoin [''/'', relayName @ ''.log''] = ''/termcp-relay.log''"
      "unixAbs (Some []) ''/termcp-relay.log'' = Inr ''/termcp-relay.log''"
    by code_simp+
  have h: "hPaths (ceHost setupCli) = unixPaths (Some [])" "onWindows (ceHost setupCli)" "ceDecode setupCli = pwDecoder"
      "osUserHomeDir (ceHost setupCli) = Inl (LibErr ''home directory is not defined'')"
    by (simp_all add: setupCli_def setupHost_def winHost_def onWindows_def labCli_def osUserHomeDir_def)
  have 1: "resolveConfigPath (unixPaths (Some [])) setupFS ''/c.toml'' = Inr ''/c.toml''"
    by (simp add: resolveConfigPath_def p osStat_def setupFS_def plainFS_def)
  have 2: "installLogFile (ceHost setupCli) ''/c.toml'' [] = Inr ''/termcp-relay.log''"
    using p by (simp add: installLogFile_def h Let_def)
  have 3: "installWorkDir (ceHost setupCli) [] = Inr []" by (simp add: installWorkDir_def h)
  show ?thesis
    unfolding installPaths_eq h
    using 1 2 3 Load_example[of setupFS] by (simp add: setupOptions_def labOptions_def setupResolved_def)
qed

lemma setup_account:
  "resolveAccount setupCli [] setupResolved setupState
      = (None, setupResolved\<lparr>opPassword := ''pw'', opNeedsCredential := True\<rparr>, setupState\<lparr>clIn := clIn labState\<rparr>)"
proof -
  have t: "TrimSpace ''bob'' = ''bob''" "\<not> builtinServiceAccount asciiTable ''bob''" "\<not> EqualFold ''bob'' ''current''"
      "splitAccount ''bob'' = ([], ''bob'')" "TrimRightSet (''pw'' @ [CHR 0x0D, CHR 0x0A]) [CHR 0x0D, CHR 0x0A] = ''pw''"
    by code_simp+
  have h: "onWindows (ceHost setupCli)" "hCase (ceHost setupCli) = asciiTable" "ceWin setupCli = setupWin"
    by (simp_all add: setupCli_def setupHost_def winHost_def onWindows_def)
  have pr: "promptPassword (ceHost setupCli) (clIn setupState) = (Inr ''pw'', clIn labState)"
    using t(5) by (simp add: promptPassword_def h promptPasswordWindows_def setupState_def labState_def)
  have v: "verifyLogon (ceHost setupCli) (ceWin setupCli) ''bob'' ''pw'' = None"
    by (simp add: verifyLogon_def h verifyLogonWindows_def t utf16Err_def setupWin_def winDemo_def)
  have q: "asked setupCli ''bob'' setupState = setupState"
    by (simp add: asked_def setupState_def labState_def)
  have "promptVerifiedPassword setupCli ''bob'' setupState = ((''pw'', True), setupState\<lparr>clIn := clIn labState\<rparr>)"
    unfolding promptVerifiedPassword_def
    by (subst promptVerifiedFrom.simps) (simp add: attempts_def pr v q)
  moreover have "opUserName setupResolved = ''bob''" "\<not> opSystem setupResolved"
    by (simp_all add: setupResolved_def setupOptions_def labOptions_def)
  ultimately show ?thesis using t h by (simp add: resolveAccount_def Let_def)
qed

section \<open>Properties\<close>

text \<open>C10: What the account resolver settles on Windows without a handoff file: LocalSystem or a
  built-in account, without a password; or an account together with a password that
  Windows accepted for it, after at most three attempts.\<close>
theorem account_password_verified:
  assumes "onWindows (ceHost C)" and "resolveAccount C [] o' s = (None, o1, s1)" and "user = TrimSpace (opUserName o')"
  shows "clHist s1 = clHist s \<and> clFS s1 = clFS s \<and> inputLeft (clIn s) \<le> inputLeft (clIn s1) + 3
     \<and> (opUserName o1 = [] \<and> opPassword o1 = []
        \<or> builtinServiceAccount (hCase (ceHost C)) user \<and> opUserName o1 = opUserName o' \<and> opPassword o1 = []
        \<or> opNeedsCredential o1 \<and> (\<exists>account. verifyLogon (ceHost C) (ceWin C) account (opPassword o1) = None
            \<and> (if EqualFold user ''current''
               then currentUserToken (ceHost C) (ceWin C) = Inr account \<and> opUserName o1 = account
               else account = user \<and> opUserName o1 = opUserName o')))"
  using assms(2)
proof (cases rule: resolveAccount_parent[OF assms(1,2)])
  case (3 account pw)
  then show ?thesis using assms(3) by (auto split: if_splits)
qed (use assms(3) in auto)

theorem account_password_verified_witness:
  "\<exists>o1 s1. resolveAccount setupCli [] setupResolved setupState = (None, o1, s1)
     \<and> verifyLogon (ceHost setupCli) (ceWin setupCli) ''bob'' (opPassword o1) = None \<and> opUserName o1 = ''bob''"
proof -
  have h: "onWindows (ceHost setupCli)" by (simp add: setupCli_def setupHost_def winHost_def onWindows_def)
  have u: "opUserName setupResolved = ''bob''" "TrimSpace ''bob'' = ''bob''" "\<not> EqualFold ''bob'' ''current''"
    by (simp add: setupResolved_def setupOptions_def) code_simp+
  from account_password_verified[OF h setup_account refl] setup_account show ?thesis by (auto simp: u)
qed

text \<open>An installation remembers absolute paths (the configuration, the log file and the working
  directory when there are any), and preparing it again, from the result, with other files
  added meanwhile, changes nothing.\<close>
theorem install_paths_absolute_stable:
  assumes "path_laws (hPaths (ceHost C))" and "installPaths C fs o0 = Inr o1"
    and "readsOnlyItsFile (ceDecode C)" and "extends fs fs'"
  shows "fpIsAbs (hPaths (ceHost C)) (opConfigPath o1)
     \<and> (opLogFile o1 = [] \<or> fpIsAbs (hPaths (ceHost C)) (opLogFile o1))
     \<and> (blank (opWorkDir o1) \<or> fpIsAbs (hPaths (ceHost C)) (opWorkDir o1))
     \<and> installPaths C fs' o1 = Inr o1"
proof -
  from assms(2) obtain a cfg l w where i: "resolveConfigPath (hPaths (ceHost C)) fs (opConfigPath o0) = Inr a"
      "installLogFile (ceHost C) a (opLogFile o0) = Inr l" "installWorkDir (ceHost C) (opWorkDir o0) = Inr w"
      "o1 = o0\<lparr>opConfigPath := a, opLogFile := l, opWorkDir := w\<rparr>"
    unfolding installPaths_eq by blast
  note abs = path_laws.abs_isAbs[OF assms(1)]
  have "fpIsAbs (hPaths (ceHost C)) a" using resolveConfigPath_ok[OF i(1)] abs by blast
  moreover have "l = [] \<or> fpIsAbs (hPaths (ceHost C)) l"
    using i(2) abs by (auto simp: installLogFile_def Let_def split: if_splits)
  moreover have "blank w \<or> fpIsAbs (hPaths (ceHost C)) w"
    using i(3) abs by (auto simp: installWorkDir_def blank_def Let_def split: if_splits sum.splits)
  moreover have "installPaths C fs' o1 = Inr o1"
    by (rule path_laws.installPaths_again[OF assms(1,2) refl assms(4,3) refl refl refl refl refl])
  ultimately show ?thesis using i(4) by simp
qed

lemma pwDecoder_reads: "readsOnlyItsFile (ceDecode setupCli)"
  by (simp add: readsOnlyItsFile_def setupCli_def labCli_def pwDecoder_def)

lemma setup_laws: "path_laws (hPaths (ceHost setupCli))"
  by (simp add: setupCli_def setupHost_def unix.path_laws_axioms)

theorem install_paths_absolute_stable_witness:
  "installPaths setupCli setupFS setupResolved = Inr setupResolved"
  using install_paths_absolute_stable[OF setup_laws setup_paths pwDecoder_reads extends_refl] by blast

end
