(* ===== verification/Relay_Elevation.thy ===== *)
theory Relay_Elevation
  imports Relay_Handoff
begin

text \<open>
  A service command and its elevated copy as one: the unprivileged parent, the file the copy
  writes its output to, the copy itself, which is the same program reading the command line
  its parent made, and what the parent shows and returns in the end.
\<close>

section \<open>What a controlling command leaves alone\<close>

lemma grantLogonRightAndRetry_frame:
  "clFS (snd (grantLogonRightAndRetry C cfg name e s)) = clFS s \<and> clIn (snd (grantLogonRightAndRetry C cfg name e s)) = clIn s"
  by (simp add: grantLogonRightAndRetry_def Let_def svcDo_eq split: sum.split prod.split option.split)

lemma doStart_frame:
  "clFS (snd (doStart C cfg name s)) = clFS s \<and> clIn (snd (doStart C cfg name s)) = clIn s"
proof (cases "smCall (ceSM C) (clHist s) CallStart cfg")
  case None
  then show ?thesis by (simp add: doStart_def svcDo_eq)
next
  case (Some e)
  obtain r s2 where g: "grantLogonRightAndRetry C cfg name e (s\<lparr>clHist := clHist s @ [CallStart]\<rparr>) = (r, s2)" by fastforce
  with grantLogonRightAndRetry_frame[of C cfg name e "s\<lparr>clHist := clHist s @ [CallStart]\<rparr>"]
  have "clFS s2 = clFS s" "clIn s2 = clIn s" by simp_all
  with Some g show ?thesis
    by (simp add: doStart_def svcDo_eq failWith_def Let_def split: option.split)
qed

lemma control_frame:
  assumes "action \<in> {''uninstall'', ''start'', ''stop'', ''restart''}"
  shows "clFS (snd (control C action o' s)) = clFS s \<and> clIn (snd (control C action o' s)) = clIn s"
proof -
  have "clFS (snd (doUninstall C cfg name s)) = clFS s \<and> clIn (snd (doUninstall C cfg name s)) = clIn s" for cfg name
    by (simp add: doUninstall_def svcDo_eq failWith_def Let_def split: option.split)
  moreover have "clFS (snd (doSimple C cfg c m s)) = clFS s \<and> clIn (snd (doSimple C cfg c m s)) = clIn s" for cfg c m
    by (simp add: doSimple_def svcDo_eq failWith_def split: option.split)
  ultimately show ?thesis
    using assms by (auto simp: doStart_frame control_def Let_def failWith_def split: sum.split)
qed

lemma doStart_code: "fst (doStart C cfg name s) \<in> {0, 1}"
  by (auto simp: doStart_def failWith_def split: prod.split option.split)

lemma control_code: "action \<noteq> ''status'' \<Longrightarrow> fst (control C action o' s) \<in> {0, 1}"
  using doStart_code[of C _ _ s]
  by (auto simp: control_def Let_def failWith_def doUninstall_def doSimple_def split: sum.split prod.split option.split)

lemma install_frame:
  "fst (install C o' s) \<in> {0, 1} \<and> clFS (snd (install C o' s)) = clFS s"
  by (auto simp: install_def svcDo_eq failWith_def Let_def split: sum.split prod.split option.split)

text \<open>A controlling command looks at the service's definition and name only.\<close>

lemma control_definition:
  assumes "action \<noteq> ''status''" and "serviceName o1 = serviceName o2"
    and "kserviceConfig (ceConsts C) (ceHost C) o1 = kserviceConfig (ceConsts C) (ceHost C) o2"
    and "opPassword o1 = opPassword o2"
  shows "control C action o1 s = control C action o2 s"
proof -
  have "newService C o1 = newService C o2" using assms(3,4) by (simp add: newService_def validateOptions_def)
  with assms(1,2) show ?thesis by (simp add: control_def)
qed

lemma serviceName_carried:
  "serviceName (o'\<lparr>opName := (if opName o' = [] then relayName else opName o'), opPassword := p, opNeedsCredential := n\<rparr>) = serviceName o'"
proof -
  have "TrimSpace relayName = relayName" by code_simp
  then show ?thesis by (simp add: serviceName_def)
qed

lemma control_carried:
  assumes "action \<noteq> ''status''" and "opPassword o' = []"
  shows "control C action (o'\<lparr>opName := (if opName o' = [] then relayName else opName o'),
      opPassword := [], opNeedsCredential := False\<rparr>) s = control C action o' s"
  using assms
  by (intro control_definition) (simp_all only: serviceName_carried kserviceConfig_def, simp_all add: Let_def)

section \<open>Starting copies\<close>

text \<open>Windows, asked with the verb \<open>runas\<close> to run this program on a \<open>service\<close> command line, runs it.\<close>

definition startsCopies :: "'sid cliEnv \<Rightarrow> 'sid cliEnv \<Rightarrow> cliState \<Rightarrow> bool" where
  "startsCopies C C' s0 \<longleftrightarrow>
     (\<forall>info p args fs. sxVerb info = ''runas'' \<and> waExecutable (ceWin C) = Inr (sxFile info)
        \<and> sxParams info = Some p \<and> commandLineToArgv p = ''service'' # args \<longrightarrow>
        waShell (ceWin C) info fs = copyShell C' s0 p fs)"

text \<open>The copy's run: where its output goes and what becomes of it.\<close>

lemma copyProcess_writes:
  assumes oc: "openCommand (hPaths (ceHost C)) (clFS s) args = (True, fs, Some report, action # flags, cred)"
    and "action \<notin> set [''help'', ''-h'', ''--help'']" and "serviceOptions flags = Inr o'"
    and "runAction C action o' True cred (s\<lparr>clFS := fs\<rparr>) = (code, t)"
  shows "copyProcess C args s =
     (code, [], t\<lparr>clFS := snd (osWriteString (clFS t) report (notesText C (drop (length (clNotes s)) (clNotes t))))\<rparr>)"
proof -
  have "Command C args s = (code, t)" using assms by (simp add: Command_def Let_def)
  then show ?thesis by (simp add: copyProcess_def oc Let_def)
qed

lemma runAction_copy_control:
  assumes "action \<in> {''uninstall'', ''start'', ''stop'', ''restart''}"
  shows "runAction C action o' True cred s = control C action o' s"
proof -
  have h: "action \<noteq> ''install''" "action \<in> set [''uninstall'', ''start'', ''stop'', ''restart'', ''status'']" using assms by auto
  show ?thesis unfolding runAction_def if_not_P[OF h(1)] if_P[OF h(2)] by (simp add: maybeElevate_def)
qed

lemma runAction_copy_install:
  assumes "prepareInstall C cred o' s = (Inr o1, s1)"
  shows "runAction C ''install'' o' True cred s = install C o1 s1"
  using assms by (simp add: runAction_def maybeElevate_def)

text \<open>The parent: a file for the output, the copy, the output read back, the file removed.\<close>

lemma report_written:
  assumes "nodes fs report = None" and "fs1 = setNode fs report (FileNode [] perm0600)" and "\<forall>op. faults fs op report = None"
  shows "osReadFile (snd (osWriteString fs1 report text)) report = Inr text"
    and "snd (osRemove (snd (osWriteString fs1 report text)) report) = fs"
proof -
  have w: "snd (osWriteString fs1 report text) = setNode fs report (FileNode text perm0600)"
    using assms by (simp add: osWriteString_def setNode_def)
  show "osReadFile (snd (osWriteString fs1 report text)) report = Inr text"
    unfolding w using assms by (simp add: osReadFile_def)
  show "snd (osRemove (snd (osWriteString fs1 report text)) report) = fs"
    unfolding w using assms by (simp add: osRemove_def setNode_def fun_upd_idem)
qed

lemma relaunch_copy:
  assumes exe: "waExecutable A = Inr exe"
    and rep: "osCreateTemp A P fs ''termcp-relay-elevated-*.log'' = (Inr report, fs1)"
    and nul: "CHR 0x00 \<notin> set exe" "CHR 0x00 \<notin> set (joinArgs (args @ [elevatedOutputFlag, report]))"
    and shell: "\<And>info. sxVerb info = ''runas'' \<Longrightarrow> sxFile info = exe \<Longrightarrow>
       sxParams info = Some (joinArgs (args @ [elevatedOutputFlag, report])) \<Longrightarrow>
       waShell A info fs1 = (ShellExited (word_of_int code), fs2)"
    and code: "code \<in> {0, 1}" and rd: "osReadFile fs2 report = Inr text"
  shows "relaunchElevatedWindows A P fs args = (Inr code, text, snd (osRemove fs2 report))"
proof -
  have u: "goInt n (word_of_int code) = code" for n using code by (auto simp: goInt_def)
  have v: "utf16Err ''runas'' = None" by (simp add: utf16Err_def)
  have sh: "shellExecuteEx A ''runas'' exe (args @ [elevatedOutputFlag, report]) fs1 = (Inr code, fs2)"
    using nul by (simp add: shellExecuteEx_def v utf16Err_def shell u)
  show ?thesis by (simp add: relaunchElevatedWindows_def exe rep sh rd)
qed

text \<open>What a user types is not a copy's command line.\<close>

lemma Command_typed:
  assumes "set (action # flags) \<inter> {elevatedOutputFlag, credentialFlag} = {}"
    and "action \<notin> set [''help'', ''-h'', ''--help'']" and "serviceOptions flags = Inr o'"
  shows "Command C (action # flags) s = runAction C action o' False [] s"
proof -
  have n: "elevatedOutputFlag \<notin> set (action # flags)" "credentialFlag \<notin> set (action # flags)" using assms(1) by auto
  have "\<not> hasFlag (action # flags) elevatedOutputFlag" using n(1) unfolding hasFlag_iff .
  then have "openCommand (hPaths (ceHost C)) (clFS s) (action # flags) = (False, clFS s, None, action # flags, [])"
    unfolding openCommand_def Let_def takeCredentialArg_def redirect_id[OF n(1)] prod.case takeCredential_id[OF n(2)] by simp
  with assms(2,3) show ?thesis by (simp add: Command_def Let_def)
qed

section \<open>Preparing needs no elevation\<close>

abbreviation withShell :: "(shellInfo \<Rightarrow> fsys \<Rightarrow> shellOut \<times> fsys) \<Rightarrow> 'sid cliEnv \<Rightarrow> 'sid cliEnv" where
  "withShell W C \<equiv> C\<lparr>ceWin := (ceWin C)\<lparr>waShell := W\<rparr>\<rparr>"

lemma verifyLogon_shell: "verifyLogon h (A\<lparr>waShell := W\<rparr>) user pw = verifyLogon h A user pw"
  by (simp add: verifyLogon_def verifyLogonWindows_def Let_def split: prod.split cong: option.case_cong)

lemma currentUserToken_shell: "currentUserToken h (A\<lparr>waShell := W\<rparr>) = currentUserToken h A"
  by (simp add: currentUserToken_def currentUserTokenWindows_def cong: option.case_cong)

lemma asked_shell: "asked (withShell W C) user s = asked C user s"
  by (simp add: asked_def)

lemma promptVerifiedFrom_shell: "promptVerifiedFrom (withShell W C) user i s = promptVerifiedFrom C user i s"
proof (induction C user i s rule: promptVerifiedFrom.induct)
  case (1 C user i s)
  obtain r inp where p: "promptPassword (ceHost C) (clIn s) = (r, inp)" by fastforce
  show ?case
  proof (cases "attempts < i \<or> (\<exists>e. r = Inl e)")
    case True
    then show ?thesis using p by (subst (1 2) promptVerifiedFrom.simps) (auto simp: asked_shell)
  next
    case False
    then obtain pw where r: "\<not> attempts < i" "r = Inr pw" by (cases r) auto
    note again = 1[OF r(1) p[symmetric] r(2) refl _ refl refl]
    show ?thesis using p r again
      by (subst (1 2) promptVerifiedFrom.simps) (simp add: verifyLogon_shell asked_shell Let_def split: option.split)
  qed
qed

lemma prepareInstall_shell: "prepareInstall (withShell W C) cred o0 s = prepareInstall C cred o0 s"
proof -
  have p: "installPaths (withShell W C) fs o0 = installPaths C fs o0" for fs by (simp add: installPaths_def)
  have h: "ceHost (withShell W C) = ceHost C" "ceWin (withShell W C) = (ceWin C)\<lparr>waShell := W\<rparr>" by simp_all
  have r: "resolveAccount (withShell W C) cred o1 s = resolveAccount C cred o1 s" for o1
    unfolding resolveAccount_def promptVerifiedPassword_def promptVerifiedFrom_shell h currentUserToken_shell by (rule refl)
  show ?thesis unfolding prepareInstall_def p r by (rule refl)
qed

text \<open>Preparing asks and complains, nothing else.\<close>

lemma asked_notes:
  obtains shown where "clNotes (asked C user s) = clNotes s @ shown" "NElevating \<notin> set shown"
proof (cases "asked C user s = s")
  case True
  then show ?thesis using that[of "[]"] by simp
next
  case False
  then show ?thesis using that[of "[NPrompt user]"] by (simp add: asked_def tell_def split: if_splits)
qed

lemma promptVerifiedFrom_notes:
  "\<exists>new. clNotes (snd (promptVerifiedFrom C user i s)) = clNotes s @ new \<and> NElevating \<notin> set new"
proof (induction C user i s rule: promptVerifiedFrom.induct)
  case (1 C user i s)
  obtain shown where shown: "clNotes (asked C user s) = clNotes s @ shown" "NElevating \<notin> set shown"
    by (rule asked_notes)
  obtain r inp where p: "promptPassword (ceHost C) (clIn s) = (r, inp)" by fastforce
  show ?case
  proof (cases "attempts < i \<or> (\<exists>e. r = Inl e)")
    case True
    then show ?thesis using p shown by (subst promptVerifiedFrom.simps) (auto simp: tell_def)
  next
    case False
    then obtain pw where r: "\<not> attempts < i" "r = Inr pw" by (cases r) auto
    note again = 1[OF r(1) p[symmetric] r(2) refl _ refl refl]
    show ?thesis using p r again shown
      by (subst promptVerifiedFrom.simps) (fastforce simp: tell_def Let_def split: option.split)
  qed
qed

lemma prepareInstall_typed:
  assumes "prepareInstall C [] o0 s = (r, s1)"
  shows "clFS s1 = clFS s" and "clHist s1 = clHist s" and "\<exists>new. clNotes s1 = clNotes s @ new \<and> NElevating \<notin> set new"
proof -
  have n: "\<exists>new. clNotes s = clNotes s @ new \<and> NElevating \<notin> set new" by simp
  have pv: "promptVerifiedPassword C user s = (x, s2) \<Longrightarrow> clFS s2 = clFS s \<and> clHist s2 = clHist s
      \<and> (\<exists>new. clNotes s2 = clNotes s @ new \<and> NElevating \<notin> set new)" for user x s2
    using promptVerifiedFrom_hist[of C user 1 s] promptVerifiedFrom_notes[of C user 1 s]
    by (simp add: promptVerifiedPassword_def)
  have ra: "resolveAccount C [] o1 s = (e, o2, s2) \<Longrightarrow> clFS s2 = clFS s \<and> clHist s2 = clHist s
      \<and> (\<exists>new. clNotes s2 = clNotes s @ new \<and> NElevating \<notin> set new)" for o1 e o2 s2
    using pv n by (auto simp: resolveAccount_def Let_def split: if_splits sum.splits prod.splits)
  from assms ra n
  have "clFS s1 = clFS s \<and> clHist s1 = clHist s \<and> (\<exists>new. clNotes s1 = clNotes s @ new \<and> NElevating \<notin> set new)"
    by (auto simp: prepareInstall_def split: sum.splits prod.splits option.splits)
  then show "clFS s1 = clFS s" and "clHist s1 = clHist s" and "\<exists>new. clNotes s1 = clNotes s @ new \<and> NElevating \<notin> set new"
    by blast+
qed

section \<open>Properties\<close>

text \<open>C11: A controlling command typed into an unprivileged Windows terminal does what it would have
  done with administrator rights: its copy, started with the command line the parent
  built, runs the very command (same service, same options), the parent shows what the
  copy had to say and returns its exit code, the services are changed by the copy only,
  and no file is left behind. (The copy is the same program with its own surroundings
  \<open>C'\<close>; no option is the name of a hidden flag; names and paths hold no NUL byte.)\<close>
theorem elevated_control_end_to_end:
  fixes C C' :: "'sid cliEnv"
  assumes w: "onWindows (ceHost C)" "\<not> waElevated (ceWin C)" "ceHost C' = ceHost C"
    and act: "action \<in> {''uninstall'', ''start'', ''stop'', ''restart''}"
    and parse: "serviceOptions flags = Inr o'"
    and hidden: "set (action # flags) \<inter> {elevatedOutputFlag, credentialFlag} = {}"
      "set (childArgs action o') \<inter> {elevatedOutputFlag, credentialFlag} = {}"
    and there: "\<not> notInstalled C (clHist s) (serviceName o')"
    and exe: "waExecutable (ceWin C) = Inr exe" "CHR 0x00 \<notin> set exe"
    and rep: "osCreateTemp (ceWin C) (hPaths (ceHost C)) (clFS s) ''termcp-relay-elevated-*.log'' = (Inr report, fs1)"
      "report \<noteq> credentialFlag" "CHR 0x00 \<notin> set (joinArgs (childArgs action o' @ [elevatedOutputFlag, report]))"
    and nofault: "\<forall>op. faults (clFS s) op report = None"
    and starts: "startsCopies C C' s0"
    and run: "control C' action o' (s0\<lparr>clFS := fs1\<rparr>) = (code, t)"
  shows "Command C (action # flags) s =
     (code, s\<lparr>clNotes := clNotes s @ [NElevating, NReplay (notesText C' (drop (length (clNotes s0)) (clNotes t)))]\<rparr>)"
proof -
  let ?P = "hPaths (ceHost C)" and ?args = "childArgs action o' @ [elevatedOutputFlag, report]"
  let ?o = "o'\<lparr>opName := (if opName o' = [] then relayName else opName o'), opPassword := [], opNeedsCredential := False\<rparr>"
  let ?text = "notesText C' (drop (length (clNotes s0)) (clNotes t))"
  note fresh = serviceOptions_fresh[OF parse]
  have h: "action \<notin> set [''help'', ''-h'', ''--help'']" "action \<noteq> ''install''" "action \<noteq> ''status''"
      "action \<in> set [''uninstall'', ''start'', ''stop'', ''restart'', ''status'']" using act by auto
  have wr: "osWriteFile ?P fs1 report [] perm0600 = (None, fs1)"
    using report_file(1)[OF rep(1)] nofault by simp
  have none: "[] = (if opNeedsCredential o' then [credentialFlag, []] else [])" using fresh by simp
  have argv: "commandLineToArgv (joinArgs ?args) = ''service'' # tl ?args"
    by (simp add: argv_joinArgs childArgs_def)
  from elevation_readback[OF hidden(2) rep(2) _ fresh(3) none refl wr] fresh(1)
  obtain flags' where rb: "openCommand ?P fs1 (tl ?args) = (True, fs1, Some report, action # flags', [])"
      "serviceOptions flags' = Inr ?o"
    by (auto simp: argv_joinArgs elevatedOutputFlag_def)
  have run': "control C' action ?o (s0\<lparr>clFS := fs1\<rparr>) = (code, t)"
    using control_carried[OF h(3) fresh(2), of C' "s0\<lparr>clFS := fs1\<rparr>"] run fresh by simp
  have t: "clFS t = fs1" using control_frame[OF act, of C' o' "s0\<lparr>clFS := fs1\<rparr>"] run by simp
  have "copyProcess C' (tl ?args) (s0\<lparr>clFS := fs1\<rparr>) = (code, [], t\<lparr>clFS := snd (osWriteString fs1 report ?text)\<rparr>)"
    using copyProcess_writes[OF _ h(1) rb(2), of C' "s0\<lparr>clFS := fs1\<rparr>" "tl ?args" fs1 report "[]" code t] rb(1) w(3)
      run' t by (simp add: runAction_copy_control[OF act])
  then have shell: "waShell (ceWin C) info fs1 = (ShellExited (word_of_int code), snd (osWriteString fs1 report ?text))"
    if "sxVerb info = ''runas''" "sxFile info = exe" "sxParams info = Some (joinArgs ?args)" for info
    using starts that exe(1) argv by (simp add: startsCopies_def copyShell_def)
  have code: "code \<in> {0, 1}" using control_code[OF h(3), of C' o' "s0\<lparr>clFS := fs1\<rparr>"] run by simp
  from osCreateTemp_ok[OF rep(1)] have fresh1: "nodes (clFS s) report = None" "fs1 = setNode (clFS s) report (FileNode [] perm0600)"
    by simp_all
  note written = report_written[OF fresh1 nofault]
  have "relaunchElevatedWindows (ceWin C) ?P (clFS s) (childArgs action o') = (Inr code, ?text, clFS s)"
    using relaunch_copy[OF exe(1) rep(1) exe(2) rep(3) shell code written(1)] unfolding written(2) .
  then have rl: "relaunchElevated (ceHost C) (ceWin C) (clFS s) (childArgs action o') = (Inr code, ?text, clFS s)"
    by (simp only: relaunchElevated_def w(1) if_True)
  have m: "maybeElevate C action o' False s = (Some code, tell (NReplay ?text) (tell NElevating s))"
  proof -
    have a: "\<not> (False \<or> \<not> requiresAdmin action \<or> elevated (ceHost C) (ceWin C))"
      using act w(1,2) by (auto simp: requiresAdmin_def elevated_def)
    have b: "\<not> (action \<noteq> ''install'' \<and> (case Query C (clHist s) (serviceName o') of Inr st \<Rightarrow> \<not> stInstalled st | Inl e \<Rightarrow> False))"
      using there unfolding notInstalled_def by blast
    show ?thesis
      unfolding maybeElevate_def Let_def if_not_P[OF a] if_not_P[OF b] by (simp add: fresh(1) rl tell_def)
  qed
  have "Command C (action # flags) s = runAction C action o' False [] s"
    by (rule Command_typed[OF hidden(1) h(1) parse])
  also have "\<dots> = (code, tell (NReplay ?text) (tell NElevating s))"
    unfolding runAction_def if_not_P[OF h(2)] if_P[OF h(4)] m by simp
  finally show ?thesis by (simp add: tell_def)
qed

text \<open>C2: Installing from an unprivileged Windows terminal is installing with administrator rights
  what the parent prepared and checked: the copy, reading the command line, the credential
  file and nothing else, installs the parent's paths, account and verified password without
  asking again; the parent shows its output and returns its exit code. Only the copy
  changes services; the file with the password and the one with the output are gone.\<close>
theorem elevated_install_end_to_end:
  fixes C C' :: "'sid cliEnv"
  assumes w: "onWindows (ceHost C)" "\<not> waElevated (ceWin C)"
    and pl: "path_laws (hPaths (ceHost C))" and dec: "readsOnlyItsFile (ceDecode C)"
    and C': "ceHost C' = ceHost C" "ceDecode C' = ceDecode C"
    and parse: "serviceOptions flags0 = Inr o0" and prep: "prepareInstall C [] o0 s = (Inr o1, s1)"
    and hidden: "set (''install'' # flags0) \<inter> {elevatedOutputFlag, credentialFlag} = {}"
      "set (childArgs ''install'' o1) \<inter> {elevatedOutputFlag, credentialFlag} = {}"
    and exe: "waExecutable (ceWin C) = Inr exe" "CHR 0x00 \<notin> set exe"
    and names: "report \<noteq> credentialFlag" "cred \<noteq> elevatedOutputFlag"
    and credFile: "if opNeedsCredential o1
       then cred \<noteq> [] \<and> writeCredentialFile (ceHost C) (ceWin C) (clFS s1) (opPassword o1) = (Inr cred, fs1)
       else cred = [] \<and> fs1 = clFS s1"
    and rep: "osCreateTemp (ceWin C) (hPaths (ceHost C)) fs1 ''termcp-relay-elevated-*.log'' = (Inr report, fs2)"
    and nul: "CHR 0x00 \<notin> set (joinArgs (childArgs ''install'' o1
       @ (if opNeedsCredential o1 then [credentialFlag, cred] else []) @ [elevatedOutputFlag, report]))"
    and nofault: "\<forall>op. faults (clFS s) op report = None" "\<forall>op. faults (clFS s) op cred = None"
    and starts: "startsCopies C C' s0"
    and o2: "o2 = o1\<lparr>opName := (if opName o1 = [] then relayName else opName o1), opNeedsCredential := False\<rparr>"
    and run: "install C' o2 (s0\<lparr>clFS := setNode (clFS s) report (FileNode [] perm0600)\<rparr>) = (code, t)"
  shows "Command C (''install'' # flags0) s =
     (code, s1\<lparr>clNotes := clNotes s1 @ [NElevating, NReplay (notesText C' (drop (length (clNotes s0)) (clNotes t)))]\<rparr>)
     \<and> clFS s1 = clFS s \<and> clHist s1 = clHist s"
proof -
  let ?P = "hPaths (ceHost C)" and ?fs3 = "setNode (clFS s) report (FileNode [] perm0600)"
  let ?cargs = "childArgs ''install'' o1 @ (if opNeedsCredential o1 then [credentialFlag, cred] else [])"
  let ?args = "?cargs @ [elevatedOutputFlag, report]"
  let ?text = "notesText C' (drop (length (clNotes s0)) (clNotes t))"
  have i: "''install'' \<notin> set [''help'', ''-h'', ''--help'']" by simp
  have argv: "commandLineToArgv (joinArgs ?args) = ''service'' # tl ?args"
    by (simp add: argv_joinArgs childArgs_def)
  have e: "childArgs ''install'' o1 @ (if opNeedsCredential o1 then [credentialFlag, cred] else []) @ [elevatedOutputFlag, report] = ?args"
    by simp
  from nofault have nf: "faults (clFS s) OpRead cred = None" "faults (clFS s) OpRemove cred = None"
      "faults (clFS s) OpWrite report = None" by simp_all
  from install_copy_agrees[OF w(1) pl dec C' parse prep hidden(2) names credFile rep nf refl _ refl, of "s0\<lparr>clFS := fs2\<rparr>"]
  obtain flags oc where rb: "openCommand ?P fs2 (tl ?args) = (True, fs2, Some report, ''install'' # flags, cred)"
      "serviceOptions flags = Inr oc" "prepareInstall C' cred oc (s0\<lparr>clFS := fs2\<rparr>) = (Inr o2, s0\<lparr>clFS := ?fs3\<rparr>)"
      and s1: "clFS s1 = clFS s" "clHist s1 = clHist s"
    unfolding o2 e argv_joinArgs by auto
  have t: "clFS t = ?fs3" and code: "code \<in> {0, 1}"
    using install_frame[of C' o2 "s0\<lparr>clFS := ?fs3\<rparr>"] run by simp_all
  have "copyProcess C' (tl ?args) (s0\<lparr>clFS := fs2\<rparr>) = (code, [], t\<lparr>clFS := snd (osWriteString ?fs3 report ?text)\<rparr>)"
    using copyProcess_writes[OF _ i rb(2), of C' "s0\<lparr>clFS := fs2\<rparr>" "tl ?args" fs2 report cred code t] rb(1) C'(1)
      run t by (simp add: runAction_copy_install[OF rb(3)])
  then have shell: "waShell (ceWin C) info fs2 = (ShellExited (word_of_int code), snd (osWriteString ?fs3 report ?text))"
    if "sxVerb info = ''runas''" "sxFile info = exe" "sxParams info = Some (joinArgs ?args)" for info
    using starts that exe(1) argv by (simp add: startsCopies_def copyShell_def)
  have fresh: "nodes (clFS s) report = None" and gone: "opNeedsCredential o1 \<Longrightarrow> nodes (clFS s) cred = None"
    using osCreateTemp_ok[OF rep] credFile w(1) s1(1) writeCredential_ok[of "ceWin C" ?P "clFS s" "opPassword o1" cred fs1]
    by (auto simp: writeCredentialFile_def split: if_splits)
  note written = report_written[OF fresh refl nofault(1)]
  have "relaunchElevatedWindows (ceWin C) ?P fs1 ?cargs = (Inr code, ?text, clFS s)"
    using relaunch_copy[OF exe(1) rep exe(2) _ shell code written(1)] nul unfolding written(2) e by blast
  then have rl: "relaunchElevated (ceHost C) (ceWin C) fs1 ?cargs = (Inr code, ?text, clFS s)"
    by (simp only: relaunchElevated_def w(1) if_True)
  have a: "\<not> (False \<or> \<not> requiresAdmin ''install'' \<or> elevated (ceHost C) (ceWin C))"
    using w by (simp add: requiresAdmin_def elevated_def)
  have "maybeElevate C ''install'' o1 False s1 = (Some code, tell (NReplay ?text) (tell NElevating s1))"
  proof (cases "opNeedsCredential o1")
    case True
    have "snd (osRemove (clFS s) cred) = clFS s"
      using gone[OF True] nofault(2) by (simp add: osRemove_def)
    with True credFile rl s1(1) show ?thesis
      unfolding maybeElevate_def Let_def if_not_P[OF a] by (simp add: tell_def)
  next
    case False
    with credFile rl s1(1) show ?thesis
      unfolding maybeElevate_def Let_def if_not_P[OF a] by (simp add: tell_def)
  qed
  then have "runAction C ''install'' o0 False [] s = (code, tell (NReplay ?text) (tell NElevating s1))"
    by (simp add: runAction_def prep)
  with Command_typed[OF hidden(1) i parse, of C s] s1 show ?thesis by (simp add: tell_def)
qed

text \<open>C18: A mistake costs no UAC prompt: when preparing an installation fails, for whatever reason (no
  configuration, one that does not load, a password refused three times, no console to
  ask on), the command reports that error and exits with 1, elevated or not, whatever the
  elevation would have done; it has not asked for it, changed a service or written a file.\<close>
theorem failed_preparation_costs_nothing:
  assumes "serviceOptions flags = Inr o0" and "prepareInstall C [] o0 s = (Inl err, s1)"
    and "set (''install'' # flags) \<inter> {elevatedOutputFlag, credentialFlag} = {}"
  shows "Command (withShell W C) (''install'' # flags) s = (1, s1\<lparr>clNotes := clNotes s1 @ [NError err]\<rparr>)
     \<and> clHist s1 = clHist s \<and> clFS s1 = clFS s
     \<and> (\<exists>asked. clNotes s1 = clNotes s @ asked \<and> NElevating \<notin> set asked)"
proof -
  have "Command (withShell W C) (''install'' # flags) s = runAction (withShell W C) ''install'' o0 False [] s"
    by (rule Command_typed[OF assms(3) _ assms(1)]) simp
  then show ?thesis
    using prepareInstall_typed[OF assms(2)] by (simp add: runAction_def prepareInstall_shell assms(2) failWith_def tell_def)
qed

definition copyingCli :: "string cliEnv" where
  "copyingCli = labCli\<lparr>ceWin := winDemo\<lparr>waShell := (\<lambda>info. copyShell labCli labState (the (sxParams info)))\<rparr>\<rparr>"

lemma copyingCli_starts: "startsCopies copyingCli labCli labState"
  by (auto simp: startsCopies_def copyingCli_def)

lemma copyingCli_simps [simp]:
  "ceHost copyingCli = winHost" "ceHost labCli = winHost" "ceSM copyingCli = ceSM labCli" "ceConsts copyingCli = ceConsts labCli"
  "waElevated (ceWin copyingCli) = False" "waExecutable (ceWin copyingCli) = Inr ''relay.exe''"
  "waTempName (ceWin copyingCli) = waTempName winDemo"
  "queryServiceWindows (ceWin copyingCli) H n = queryServiceWindows winDemo H n"
proof -
  show "queryServiceWindows (ceWin copyingCli) H n = queryServiceWindows winDemo H n"
    by (simp add: copyingCli_def queryServiceWindows_def Let_def cong: option.case_cong)
qed (simp_all add: copyingCli_def, simp_all add: labCli_def winDemo_def)

lemma lab_query:
  "Query labCli H ''lab'' = Inr \<lparr>stName = ''lab'', stInstalled = True, stRunning = True, stDetail = []\<rparr>"
proof -
  have "TrimSpace ''lab'' = ''lab''" by code_simp
  then show ?thesis
    by (simp add: Query_def queryService_def onWindows_def winHost_def queryServiceWindows_def labCli_def winDemo_def
        utf16Err_def Let_def)
qed

lemma copyingCli_query: "Query copyingCli H n = Query labCli H n"
proof -
  have "ceWin labCli = winDemo" by (simp add: labCli_def)
  then show ?thesis by (simp add: Query_def queryService_def onWindows_def winHost_def)
qed

lemma lab_uninstall:
  assumes "serviceName o' = ''lab''" and "opPassword o' = []"
  shows "control labCli ''uninstall'' o' s = (0, s\<lparr>clHist := clHist s @ [CallStop, CallUninstall],
    clNotes := clNotes s @ [NStopped ''lab'', NRemoved ''lab'']\<rparr>)"
proof -
  have c: "ceSM labCli = \<lparr>smNew = (\<lambda>c. None), smCall = (\<lambda>H c cfg. if c = CallStart \<and> H = [] then Some (Errno 1069) else None),
       smStatus = (\<lambda>H n. Inr True)\<rparr>" by (simp add: labCli_def)
  show ?thesis
    using assms by (simp add: control_def lab_query newService_def validateOptions_def doUninstall_def svcDo_eq tell_def c Let_def)
qed

theorem elevated_control_end_to_end_witness:
  "Command copyingCli [''uninstall'', ''--config'', ''c.toml'', ''--name'', ''lab''] labState =
     (0, labState\<lparr>clNotes := [NElevating, NReplay (line (''stopped service '' @ CHR 0x22 # ''lab'' @ [CHR 0x22])
        @ line (''removed service '' @ CHR 0x22 # ''lab'' @ [CHR 0x22]))]\<rparr>)"
proof -
  let ?flags = "[''--config'', ''c.toml'', ''--name'', ''lab'']" and ?o = "(labOptions ''c.toml'')\<lparr>opName := ''lab''\<rparr>"
  have "[''--name'', ''lab''] = optFlag ''name'' ''lab'' @ []" by (simp add: optFlag_def)
  then have parse: "serviceOptions ?flags = Inr ?o"
    unfolding serviceOptions_def read_service_config
    by (simp only: read_service) (simp add: serviceDefaults_def Let_def labOptions_def)
  have args: "childArgs ''uninstall'' ?o = [''service'', ''uninstall'', ''--config'', ''c.toml'', ''--name'', ''lab'']"
    by (simp add: childArgs_def labOptions_def relayName_def)
  have t: "TrimSpace ''lab'' = ''lab''" "unixDir ''t.tmp'' = ''.''"
      "CHR 0x00 \<notin> set (joinArgs ([''service'', ''uninstall'', ''--config'', ''c.toml'', ''--name'', ''lab'']
        @ [''--elevated-output'', ''t.tmp'']))"
    by code_simp+
  have name: "serviceName ?o = ''lab''" by (simp add: serviceName_def t)
  have there: "\<not> notInstalled copyingCli (clHist labState) (serviceName ?o)"
    unfolding name by (simp add: notInstalled_def copyingCli_query lab_query)
  let ?fs1 = "setNode plainFS ''t.tmp'' (FileNode [] perm0600)"
  have fs: "clFS labState = plainFS" by (simp add: labState_def)
  have rep: "osCreateTemp (ceWin copyingCli) (hPaths (ceHost copyingCli)) (clFS labState) ''termcp-relay-elevated-*.log''
      = (Inr ''t.tmp'', ?fs1)"
    by (simp add: fs osCreateTemp_def winDemo_def osOpenExcl_def plainFS_def parentOK_def winHost_def t)
  have run: "control labCli ''uninstall'' ?o (labState\<lparr>clFS := ?fs1\<rparr>) = (0, labState\<lparr>clFS := ?fs1,
      clHist := [CallStop, CallUninstall], clNotes := [NStopped ''lab'', NRemoved ''lab'']\<rparr>)"
    by (subst lab_uninstall[OF name]) (simp_all add: labOptions_def labState_def)
  have hidden: "set (''uninstall'' # ?flags) \<inter> {elevatedOutputFlag, credentialFlag} = {}"
      "set (childArgs ''uninstall'' ?o) \<inter> {elevatedOutputFlag, credentialFlag} = {}"
    unfolding args by (simp_all add: elevatedOutputFlag_def credentialFlag_def)
  have "Quote (\<lambda>r. False) ''lab'' = CHR 0x22 # ''lab'' @ [CHR 0x22]" by code_simp
  then have shown: "notesText labCli [NStopped ''lab'', NRemoved ''lab''] = line (''stopped service '' @ CHR 0x22 # ''lab'' @ [CHR 0x22])
        @ line (''removed service '' @ CHR 0x22 # ''lab'' @ [CHR 0x22])"
    by (simp add: notesText_def labCli_def)
  have "onWindows (ceHost copyingCli)" "CHR 0x00 \<notin> set ''relay.exe''" "''t.tmp'' \<noteq> credentialFlag"
      "\<forall>op. faults (clFS labState) op ''t.tmp'' = None"
    by (simp_all add: onWindows_def winHost_def credentialFlag_def fs plainFS_def)
  from elevated_control_end_to_end[OF this(1) _ _ _ parse hidden there _ this(2) rep this(3) _ this(4) copyingCli_starts run]
  have "Command copyingCli (''uninstall'' # ?flags) labState = (0, labState\<lparr>clNotes := clNotes labState @
      [NElevating, NReplay (notesText labCli (drop (length (clNotes labState)) [NStopped ''lab'', NRemoved ''lab'']))]\<rparr>)"
    using t(3) unfolding args by (simp add: elevatedOutputFlag_def)
  moreover have "clNotes labState = []" by (simp add: labState_def)
  ultimately show ?thesis by (simp only: list.size drop_0 shown append.simps)
qed

theorem elevated_install_end_to_end_witness:
  "\<exists>s1 note. Command setupCli [''install'', ''--config'', ''/c.toml'', ''--user'', ''bob''] setupState = (0, s1)
     \<and> clFS s1 = setupFS \<and> clHist s1 = [] \<and> clNotes s1 = [NElevating, NReplay note]"
proof -
  let ?flags = "[''--config'', ''/c.toml'', ''--user'', ''bob'']"
  let ?o1 = "setupResolved\<lparr>opPassword := ''pw'', opNeedsCredential := True\<rparr>" and ?o2 = "setupResolved\<lparr>opPassword := ''pw''\<rparr>"
  let ?f1 = "setNode setupFS ''t1'' (FileNode ''pw'' perm0600)"
  let ?f2 = "setNode (setNode setupFS ''t1'' (FileNode ''pw'' perm0600)) ''t2'' (FileNode [] perm0600)"
  let ?s1 = "setupState\<lparr>clIn := clIn labState\<rparr>"
  have w: "onWindows (ceHost setupCli)" "\<not> waElevated (ceWin setupCli)" "onWindows (ceHost setupCopy)"
    by (simp_all add: setupCli_def setupCopy_def setupHost_def winHost_def onWindows_def setupWin_def winDemo_def)
  have h: "ceHost setupCli = setupHost" "ceWin setupCli = setupWin" "ceHost setupCopy = setupHost"
      "ceDecode setupCopy = ceDecode setupCli" "hPaths setupHost = unixPaths (Some [])"
    by (simp_all add: setupCli_def setupCopy_def setupHost_def)
  have st: "clFS setupState = setupFS" "clNotes setupState = []" "clHist setupState = []"
    by (simp_all add: setupState_def labState_def)
  have prep: "prepareInstall setupCli [] setupOptions setupState = (Inr ?o1, ?s1)"
    by (rule prepareInstall_intro[OF _ setup_account]) (simp add: st setup_paths)
  have d: "unixDir ''t1'' = ''.''" "unixDir ''t2'' = ''.''" by code_simp+
  have args: "childArgs ''install'' ?o1 = [''service'', ''install'', ''--config'', ''/c.toml'', ''--log-file'',
      ''/termcp-relay.log'', ''--user'', ''bob'']"
    by (simp add: childArgs_def setupResolved_def setupOptions_def labOptions_def relayName_def)
  have wr: "writeCredentialFile (ceHost setupCli) (ceWin setupCli) (clFS ?s1) (opPassword ?o1) = (Inr ''t1'', ?f1)"
    using w(1) by (simp add: h writeCredentialFile_def st writeCredentialFileWindows_def osCreateTemp_def setupWin_def winDemo_def
        osOpenExcl_def setupFS_def plainFS_def parentOK_def d osChmod_def osWriteString_def setNode_def)
  have rep: "osCreateTemp (ceWin setupCli) (hPaths (ceHost setupCli)) ?f1 ''termcp-relay-elevated-*.log'' = (Inr ''t2'', ?f2)"
    by (simp add: osCreateTemp_def setupWin_def winDemo_def osOpenExcl_def setupFS_def plainFS_def parentOK_def d h)
  have hidden: "set (''install'' # ?flags) \<inter> {elevatedOutputFlag, credentialFlag} = {}"
      "set (childArgs ''install'' ?o1) \<inter> {elevatedOutputFlag, credentialFlag} = {}"
    unfolding args by (simp_all add: elevatedOutputFlag_def credentialFlag_def)
  have n: "''t2'' \<noteq> credentialFlag" "''t1'' \<noteq> elevatedOutputFlag" "CHR 0x00 \<notin> set ''relay.exe''"
    by (simp_all add: elevatedOutputFlag_def credentialFlag_def)
  have nf: "\<forall>op. faults (clFS setupState) op p = None" for p by (simp add: st setupFS_def plainFS_def)
  have cf: "if opNeedsCredential ?o1
       then ''t1'' \<noteq> [] \<and> writeCredentialFile (ceHost setupCli) (ceWin setupCli) (clFS ?s1) (opPassword ?o1) = (Inr ''t1'', ?f1)
       else ''t1'' = [] \<and> ?f1 = clFS ?s1" using wr by simp
  have "CHR 0x00 \<notin> set (joinArgs ([''service'', ''install'', ''--config'', ''/c.toml'', ''--log-file'',
      ''/termcp-relay.log'', ''--user'', ''bob'', ''--elevated-credential'', ''t1'', ''--elevated-output'', ''t2'']))"
    by code_simp
  then have nul: "CHR 0x00 \<notin> set (joinArgs (childArgs ''install'' ?o1
       @ (if opNeedsCredential ?o1 then [credentialFlag, ''t1''] else []) @ [elevatedOutputFlag, ''t2'']))"
    unfolding args by (simp add: elevatedOutputFlag_def credentialFlag_def)
  have exe: "waExecutable (ceWin setupCli) = Inr ''relay.exe''" by (simp add: h setupWin_def winDemo_def)
  have starts: "startsCopies setupCli setupCopy labState"
    by (simp add: startsCopies_def h setupWin_def)
  have o2: "?o2 = ?o1\<lparr>opName := (if opName ?o1 = [] then relayName else opName ?o1), opNeedsCredential := False\<rparr>"
    by (simp add: setupResolved_def setupOptions_def labOptions_def relayName_def)
  obtain code t where run: "install setupCopy ?o2 (labState\<lparr>clFS := setNode (clFS setupState) ''t2'' (FileNode [] perm0600)\<rparr>) = (code, t)"
    by fastforce
  have "newService setupCopy ?o2 = Inr (kserviceConfig (ceConsts setupCopy) setupHost ?o2)"
    by (simp add: newService_def setupCopy_def labCli_def validateOptions_def setupHost_def winHost_def Let_def)
  with install_history[OF run] have "code = 0"
    by (simp add: setupCopy_def labCli_def labState_def)
  with elevated_install_end_to_end[OF w(1,2) setup_laws pwDecoder_reads _ h(4) setup_parse prep hidden exe n(3,1,2) cf rep nul nf nf
      starts o2 run] st h
  show ?thesis by simp
qed

theorem failed_preparation_costs_nothing_witness:
  "\<exists>err. Command labCli [''install'', ''--config'', ''/none.toml''] labState = (1, labState\<lparr>clNotes := [NError err]\<rparr>)"
proof -
  let ?o = "(labOptions ''/none.toml'')\<lparr>opName := relayName\<rparr>"
  have parse: "serviceOptions [''--config'', ''/none.toml''] = Inr ?o"
    unfolding serviceOptions_def read_service_config by (simp add: serviceDefaults_def Let_def labOptions_def)
  have a: "unixAbs None ''/none.toml'' = Inr ''/none.toml''" "TrimSpace ''/none.toml'' \<noteq> []" by code_simp+
  have "installPaths labCli (clFS labState) ?o = Inl (Hinted (Wrapped [Txt ''config '', Quoted ''/none.toml''] ErrNotExist)
      [Txt (CHR 0x0A # ''hint: create one with: termcp-relay init /none.toml'')])"
    using a by (simp add: installPaths_def resolveConfigPath_def labOptions_def labState_def winHost_def osStat_def plainFS_def Let_def)
  then have prep: "prepareInstall labCli [] ?o labState = (Inl (Hinted (Wrapped [Txt ''config '', Quoted ''/none.toml''] ErrNotExist)
      [Txt (CHR 0x0A # ''hint: create one with: termcp-relay init /none.toml'')]), labState)"
    by (simp add: prepareInstall_def)
  have "set (''install'' # [''--config'', ''/none.toml'']) \<inter> {elevatedOutputFlag, credentialFlag} = {}"
    by (simp add: elevatedOutputFlag_def credentialFlag_def)
  from failed_preparation_costs_nothing[OF parse prep this, of "waShell (ceWin labCli)"] show ?thesis
    by (auto simp: labState_def)
qed

end
