(* ===== verification/Relay_Handles.thy ===== *)
theory Relay_Handles
  imports Relay_Windows_Facts Relay_Env "HOL-Library.State_Monad"
begin

text \<open>
  The Windows files once more, with what \<open>Relay_Windows\<close> leaves out: the handles the system
  gives out (tokens, the security policy, the service manager and its services, processes,
  registry keys, open files, the console) and when they are closed. The functions are programs of the state
  monad over the file system and the trace of the calls on handles; a \<open>defer\<close> that closes is
  \<open>withOpen\<close>. They compute what the functions of \<open>Relay_Windows\<close> compute, and a small calculus
  (\<open>safe_rules\<close>) shows what they do to the handles.
\<close>

section \<open>Handles\<close>

datatype resource =
    TokenH
  | PolicyH
  | ManagerH
  | ServiceH
  | ProcessH
  | RegKeyH
  | FileH string
  | LsaBuffer
  | ConsoleH

datatype kcall = Opened resource | Used resource | Closed resource

text \<open>
  Replaying a trace from the resources open at first: those open at the end, or nothing if
  something was used or closed that was not open.
\<close>

fun replay :: "kcall list \<Rightarrow> resource list \<Rightarrow> resource list option" where
  "replay [] os = Some os"
| "replay (Opened r # cs) os = replay cs (r # os)"
| "replay (Used r # cs) os = (if r \<in> set os then replay cs os else None)"
| "replay (Closed r # cs) os = (if r \<in> set os then replay cs (remove1 r os) else None)"

lemma replay_append:
  "replay (as @ bs) os = (case replay as os of None \<Rightarrow> None | Some os' \<Rightarrow> replay bs os')"
  by (induction as os rule: replay.induct) auto

record kernel =
  knFS :: fsys
  knTrace :: "kcall list"

type_synonym 'a kernelM = "(kernel, 'a) state"

definition openNow :: "kernel \<Rightarrow> resource list" where
  "openNow s = (case replay (knTrace s) [] of None \<Rightarrow> [] | Some os \<Rightarrow> os)"

abbreviation ret :: "'a \<Rightarrow> 'a kernelM" where
  "ret x \<equiv> State_Monad.return x"

definition kcall :: "kcall \<Rightarrow> unit kernelM" where
  "kcall c = State (\<lambda>s. ((), s\<lparr>knTrace := knTrace s @ [c]\<rparr>))"

definition withOpen :: "resource \<Rightarrow> 'a kernelM \<Rightarrow> 'a kernelM" where
  "withOpen r body = do { kcall (Opened r); x \<leftarrow> body; kcall (Closed r); ret x }"

text \<open>An operation on files; and the removal of a file, which an open handle to it prevents.\<close>

definition onFS :: "(fsys \<Rightarrow> 'a \<times> fsys) \<Rightarrow> 'a kernelM" where
  "onFS g = State (\<lambda>s. let (x, fs) = g (knFS s) in (x, s\<lparr>knFS := fs\<rparr>))"

definition removeFile :: "string \<Rightarrow> goerr option kernelM" where
  "removeFile f = State (\<lambda>s.
     let (x, fs) = (if FileH f \<in> set (openNow s) then osRemoveOpen (knFS s) f else osRemove (knFS s) f)
     in (x, s\<lparr>knFS := fs\<rparr>))"

section \<open>Accounts\<close>

text \<open>\<open>logon_windows.go\<close>: the token \<open>LogonUserW\<close> made is closed.\<close>

definition kVerifyLogon :: "'sid winAPI \<Rightarrow> string \<Rightarrow> string \<Rightarrow> goerr option kernelM" where
  "kVerifyLogon A user password =
     (let (domain, account) = splitAccount user in
      if account = [] then ret (Some (Msg [Txt ''empty account name'']))
      else case utf16Err account of Some e \<Rightarrow> ret (Some e) | None \<Rightarrow>
       (case (if domain \<noteq> [] then utf16Err domain else None) of Some e \<Rightarrow> ret (Some e) | None \<Rightarrow>
        (case utf16Err password of Some e \<Rightarrow> ret (Some e) | None \<Rightarrow>
         (case waLogonUser A (if domain \<noteq> [] then Some domain else None) account password
                 logon32LogonInteractive logon32ProviderDefault of
            None \<Rightarrow> withOpen TokenH (ret None)
          | Some code \<Rightarrow>
              ret (Some (Wrapped [Txt (''password rejected for '' @ user)]
                (Errno (if code = errSuccess then errLogonFailure else code))))))))"

text \<open>\<open>account_windows.go\<close>.\<close>

definition kCurrentUserToken :: "'sid winAPI \<Rightarrow> string res kernelM" where
  "kCurrentUserToken A =
     (case waOpenToken A of
        Some e \<Rightarrow> ret (Inl e)
      | None \<Rightarrow> withOpen TokenH (do {
          kcall (Used TokenH);
          case waTokenUser A of
            Inl e \<Rightarrow> ret (Inl e)
          | Inr sid \<Rightarrow> (case waAccountOf A sid of
              Inl e \<Rightarrow> ret (Inl e)
            | Inr (account, domain) \<Rightarrow>
                ret (Inr (if domain = [] then account else domain @ [CHR 0x5C] @ account)))}))"

text \<open>The deferred \<open>Close\<close> of the console runs when the function returns, also when the
  password is then read from standard input.\<close>

definition kPromptPassword :: "stdinState \<Rightarrow> (string res \<times> stdinState) kernelM" where
  "kPromptPassword s =
     (let fromStdin = (if \<not> siTerminal s
            then ret (Inl (Msg [Txt ''no console available to read the password; pipe it in or use --system'']), s)
            else ret (readTyped s))
      in if siPiped s then ret (promptPasswordWindows s)
         else case siConin s of
           None \<Rightarrow> fromStdin
         | Some terminal \<Rightarrow> withOpen ConsoleH (do {
             kcall (Used ConsoleH);
             if terminal then do { kcall (Used ConsoleH); ret (readTyped s) } else fromStdin}))"

section \<open>The security policy\<close>

text \<open>
  \<open>lsaright_windows.go\<close>. The caller of \<open>openLocalPolicy\<close> closes the handle. A successful
  \<open>LsaEnumerateAccountRights\<close> allocates the array it returns, which the documentation wants
  given back with \<open>LsaFreeMemory\<close>.
\<close>

definition kGrantLogonRight ::
    "'sid winAPI \<Rightarrow> svcHistory \<Rightarrow> string \<Rightarrow> (goerr option \<times> svcHistory) kernelM" where
  "kGrantLogonRight A hist accountName =
     (case lookupAccountSID A accountName of
        Inl e \<Rightarrow> ret (Some e, hist)
      | Inr sid \<Rightarrow>
       (case openLocalPolicy A (or (or policyCreateAccount policyCreatePrivilege) policyLookupNames) of
          Inl e \<Rightarrow> ret (Some e, hist)
        | Inr _ \<Rightarrow> withOpen PolicyH
           (case UTF16FromString seServiceLogonRight of
              Inl e \<Rightarrow> ret (Some e, hist)
            | Inr right \<Rightarrow> do {
                kcall (Used PolicyH);
                let status = waAddRights A hist sid (lsaString right);
                ret (if status \<noteq> 0
                  then Some (Msg [Txt (''grant '' @ seServiceLogonRight @ '' to '' @ accountName @ '': '' @ lsaStatus status)])
                  else None, hist @ [CallGrant accountName])})))"

definition kLogonRightHeld :: "'sid winAPI \<Rightarrow> svcHistory \<Rightarrow> string \<Rightarrow> bool res kernelM" where
  "kLogonRightHeld A hist accountName =
     (case lookupAccountSID A accountName of
        Inl e \<Rightarrow> ret (Inl e)
      | Inr sid \<Rightarrow>
       (case openLocalPolicy A policyLookupNames of
          Inl e \<Rightarrow> ret (Inl e)
        | Inr _ \<Rightarrow> withOpen PolicyH (do {
            kcall (Used PolicyH);
            case waEnumRights A hist sid of
              (status, rights) \<Rightarrow>
                if (ucast status :: 32 word) = 0 then do {
                  kcall (Opened LsaBuffer);
                  kcall (Used LsaBuffer);
                  ret (Inr (seServiceLogonRight \<in> set rights))}
                else if (ucast status :: 32 word) = 0xC0000034 then ret (Inr False)
                else ret (Inl (Msg [Txt (''enumerate rights for '' @ accountName @ '': '' @ lsaStatus status)]))})))"

section \<open>The service manager\<close>

text \<open>\<open>status_windows.go\<close>: the service is closed before the manager.\<close>

definition kQueryService :: "'sid winAPI \<Rightarrow> svcHistory \<Rightarrow> string \<Rightarrow> svcStatus res kernelM" where
  "kQueryService A hist name =
     (let st = \<lparr>stName = name, stInstalled = False, stRunning = False, stDetail = []\<rparr> in
      case waOpenSCM A of
        Some e \<Rightarrow> ret (Inl (Wrapped [Txt ''open service manager''] e))
      | None \<Rightarrow> withOpen ManagerH
         (case utf16Err name of
            Some e \<Rightarrow> ret (Inl e)
          | None \<Rightarrow> do {
              kcall (Used ManagerH);
              case waOpenService A hist name serviceQueryStatus of
                Some e \<Rightarrow> ret (if errors_Is e (Errno errServiceDoesNotExist) then Inr st
                              else Inl (Wrapped [Txt ''open service '', Quoted name] e))
              | None \<Rightarrow> withOpen ServiceH (do {
                  kcall (Used ServiceH);
                  case waServiceStatus A hist name of
                    Inl e \<Rightarrow> ret (Inl (Wrapped [Txt ''query service '', Quoted name] e))
                  | Inr (state, code) \<Rightarrow>
                      ret (Inr (st\<lparr>stInstalled := True, stRunning := (state \<in> {4, 2, 5}),
                        stDetail := (if state = 1 \<and> code \<noteq> 0 \<and> code \<noteq> errServiceNeverStarted
                          then ''last start failed with Win32 error '' @ decimal (unat code) @ ''; check the Event Log''
                          else [])\<rparr>))})}))"

definition kServiceAccountName :: "'sid winAPI \<Rightarrow> svcHistory \<Rightarrow> string \<Rightarrow> string res kernelM" where
  "kServiceAccountName A hist name =
     (case waOpenSCM A of
        Some e \<Rightarrow> ret (Inl e)
      | None \<Rightarrow> withOpen ManagerH
         (case utf16Err name of
            Some e \<Rightarrow> ret (Inl e)
          | None \<Rightarrow> do {
              kcall (Used ManagerH);
              case waOpenService A hist name serviceQueryConfig of
                Some e \<Rightarrow> ret (Inl e)
              | None \<Rightarrow> withOpen ServiceH (do {
                  kcall (Used ServiceH);
                  case waServiceConfig A hist name of
                    (needed, acct) \<Rightarrow>
                      if needed = 0 then ret (Inl (Msg [Txt ''QueryServiceConfig reported a zero-sized buffer'']))
                      else do { kcall (Used ServiceH); ret acct }})}))"

section \<open>The registry\<close>

text \<open>\<open>env_windows.go\<close>: the key stays open while its values are read.\<close>

definition kReadEnvKey :: "registry \<Rightarrow> regRoot \<Rightarrow> string \<Rightarrow> envValue list kernelM" where
  "kReadEnvKey R root subKey =
     (case R root subKey of
        Inl e \<Rightarrow> ret []
      | Inr k \<Rightarrow> withOpen RegKeyH (do {
          kcall (Used RegKeyH);
          case rkNames k of
            Inl e \<Rightarrow> ret []
          | Inr names \<Rightarrow> do { kcall (Used RegKeyH); ret (concat (map (readEnvValue k) names)) }}))"

section \<open>Processes and files\<close>

text \<open>\<open>account_windows.go\<close>: the removals come before the deferred \<open>Close\<close>.\<close>

definition kWriteCredentialFile :: "'sid winAPI \<Rightarrow> pathOps \<Rightarrow> string \<Rightarrow> string res kernelM" where
  "kWriteCredentialFile A P password = do {
     created \<leftarrow> onFS (\<lambda>fs. osCreateTemp A P fs ''termcp-relay-cred-*.tmp'');
     case created of
       Inl e \<Rightarrow> ret (Inl e)
     | Inr f \<Rightarrow> withOpen (FileH f) (do {
         chmod \<leftarrow> onFS (\<lambda>fs. osChmod fs f perm0600);
         case chmod of
           Some e \<Rightarrow> do { _ \<leftarrow> removeFile f; ret (Inl e) }
         | None \<Rightarrow> do {
             kcall (Used (FileH f));
             written \<leftarrow> onFS (\<lambda>fs. osWriteString fs f password);
             case written of
               Some e \<Rightarrow> do { _ \<leftarrow> removeFile f; ret (Inl e) }
             | None \<Rightarrow> ret (Inr f)}})}"

text \<open>\<open>elevate_windows.go\<close>: without a process handle there is nothing to wait for.\<close>

definition kShellExecuteEx :: "'sid winAPI \<Rightarrow> string \<Rightarrow> string \<Rightarrow> string list \<Rightarrow> int res kernelM" where
  "kShellExecuteEx A verb file args =
     (case utf16Err verb of Some e \<Rightarrow> ret (Inl e) | None \<Rightarrow>
      (case utf16Err file of Some e \<Rightarrow> ret (Inl e) | None \<Rightarrow>
       (case (if 0 < length args then utf16Err (joinArgs args) else None) of Some e \<Rightarrow> ret (Inl e) | None \<Rightarrow> do {
         out \<leftarrow> onFS (waShell A \<lparr>sxSize = word_of_nat (structSize (waPtrBytes A) shellExecuteInfoType),
                sxMask = seeMaskNoCloseProcess, sxVerb = verb, sxFile = file,
                sxParams = (if 0 < length args then Some (joinArgs args) else None), sxShow = swShowNormal\<rparr>);
         case out of
           ShellFailed e \<Rightarrow> ret (Inl e)
         | ShellNoProcess \<Rightarrow> ret (Inr 0)
         | ShellWaitFailed e \<Rightarrow> withOpen ProcessH (do { kcall (Used ProcessH); ret (Inl e) })
         | ShellExited code \<Rightarrow> withOpen ProcessH (do { kcall (Used ProcessH); kcall (Used ProcessH); ret (Inr (goInt (waPtrBytes A) code)) })})))"

definition kRelaunchElevated :: "'sid winAPI \<Rightarrow> pathOps \<Rightarrow> string list \<Rightarrow> (int res \<times> string) kernelM" where
  "kRelaunchElevated A P args =
     (case waExecutable A of
        Inl e \<Rightarrow> ret (Inl (Wrapped [Txt ''locate executable''] e), [])
      | Inr exe \<Rightarrow> do {
          created \<leftarrow> onFS (\<lambda>fs. osCreateTemp A P fs ''termcp-relay-elevated-*.log'');
          case created of
            Inl e \<Rightarrow> ret (Inl (Wrapped [Txt ''create elevation log''] e), [])
          | Inr reportPath \<Rightarrow> do {
              withOpen (FileH reportPath) (ret ());
              r \<leftarrow> kShellExecuteEx A ''runas'' exe (args @ [elevatedOutputFlag, reportPath]);
              replayed \<leftarrow> onFS (\<lambda>fs. (case osReadFile fs reportPath of Inr data \<Rightarrow> data | Inl e \<Rightarrow> [], fs));
              _ \<leftarrow> removeFile reportPath;
              ret (case r of
                  Inl e \<Rightarrow> (Inl (if errors_Is e (Errno errCancelled) then Msg [Txt ''elevation was declined''] else e), replayed)
                | Inr code \<Rightarrow> (Inr code, replayed))}})"

section \<open>Running\<close>

lemma run_simps [simp]:
  "run_state (kcall c) s = ((), s\<lparr>knTrace := knTrace s @ [c]\<rparr>)"
  "run_state (onFS g) s = (fst (g (knFS s)), s\<lparr>knFS := snd (g (knFS s))\<rparr>)"
  by (simp_all add: kcall_def onFS_def split: prod.split)

lemma run_withOpen:
  "run_state (withOpen r body) s =
     (let (x, s') = run_state body (s\<lparr>knTrace := knTrace s @ [Opened r]\<rparr>) in (x, s'\<lparr>knTrace := knTrace s' @ [Closed r]\<rparr>))"
  by (simp add: withOpen_def split: prod.split)

section \<open>The calculus\<close>

text \<open>
  A program that, given resources open, uses only what is open and leaves open what was
  open before it.
\<close>

definition safe :: "resource list \<Rightarrow> 'a kernelM \<Rightarrow> bool" where
  "safe rs m \<longleftrightarrow> (\<forall>s. \<exists>new. knTrace (snd (run_state m s)) = knTrace s @ new
     \<and> (\<forall>os. set rs \<subseteq> set os \<longrightarrow> replay new os = Some os))"

named_theorems safe_rules \<open>programs that give back what they open\<close>

lemma safe_ret [safe_rules]: "safe rs (ret x)"
  by (simp add: safe_def)

lemma safe_use [safe_rules]: "r \<in> set rs \<Longrightarrow> safe rs (kcall (Used r))"
  by (auto simp: safe_def)

lemma safe_onFS [safe_rules]: "safe rs (onFS g)"
  by (simp add: safe_def)

lemma safe_removeFile [safe_rules]: "safe rs (removeFile f)"
  by (simp add: safe_def removeFile_def split: prod.split)

lemma safe_bind [safe_rules]:
  assumes "safe rs m" and "\<And>x. safe rs (f x)"
  shows "safe rs (m \<bind> f)"
  unfolding safe_def
proof
  fix s
  obtain x s1 where r: "run_state m s = (x, s1)" by fastforce
  from assms(1) r obtain new1 where 1: "knTrace s1 = knTrace s @ new1"
      "\<forall>os. set rs \<subseteq> set os \<longrightarrow> replay new1 os = Some os"
    unfolding safe_def by (metis snd_conv)
  from assms(2)[of x] obtain new2 where 2: "knTrace (snd (run_state (f x) s1)) = knTrace s1 @ new2"
      "\<forall>os. set rs \<subseteq> set os \<longrightarrow> replay new2 os = Some os"
    unfolding safe_def by blast
  from 1 2 r show "\<exists>new. knTrace (snd (run_state (m \<bind> f) s)) = knTrace s @ new
      \<and> (\<forall>os. set rs \<subseteq> set os \<longrightarrow> replay new os = Some os)"
    by (intro exI[of _ "new1 @ new2"]) (simp add: replay_append)
qed

lemma safe_withOpen [safe_rules]:
  assumes "safe (r # rs) body"
  shows "safe rs (withOpen r body)"
  unfolding safe_def
proof
  fix s :: kernel
  let ?s = "s\<lparr>knTrace := knTrace s @ [Opened r]\<rparr>"
  from assms obtain new where 1: "knTrace (snd (run_state body ?s)) = knTrace ?s @ new"
      "\<forall>os. set (r # rs) \<subseteq> set os \<longrightarrow> replay new os = Some os"
    unfolding safe_def by blast
  then have "replay ([Opened r] @ new @ [Closed r]) os = Some os" if "set rs \<subseteq> set os" for os
  proof -
    have "replay new (r # os) = Some (r # os)" using 1(2)[rule_format, of "r # os"] that by auto
    then show ?thesis by (simp add: replay_append)
  qed
  with 1(1) show "\<exists>new. knTrace (snd (run_state (withOpen r body) s)) = knTrace s @ new
      \<and> (\<forall>os. set rs \<subseteq> set os \<longrightarrow> replay new os = Some os)"
    by (intro exI[of _ "[Opened r] @ new @ [Closed r]"]) (auto simp: run_withOpen Let_def split: prod.split)
qed

lemma safe_cases [safe_rules]:
  "(\<And>e. safe rs (f e)) \<Longrightarrow> (\<And>x. safe rs (g x)) \<Longrightarrow> safe rs (case r of Inl e \<Rightarrow> f e | Inr x \<Rightarrow> g x)"
  "safe rs m \<Longrightarrow> (\<And>x. safe rs (h x)) \<Longrightarrow> safe rs (case q of None \<Rightarrow> m | Some x \<Rightarrow> h x)"
  "(\<And>a b. safe rs (k a b)) \<Longrightarrow> safe rs (case p of (a, b) \<Rightarrow> k a b)"
  "safe rs m1 \<Longrightarrow> safe rs m2 \<Longrightarrow> safe rs (if c then m1 else m2)"
  by (simp_all split: sum.split option.split prod.split)

lemma safe_shellOut [safe_rules]:
  "(\<And>e. safe rs (a e)) \<Longrightarrow> safe rs b \<Longrightarrow> (\<And>e. safe rs (c e)) \<Longrightarrow> (\<And>w. safe rs (d w)) \<Longrightarrow>
   safe rs (case out of ShellFailed e \<Rightarrow> a e | ShellNoProcess \<Rightarrow> b | ShellWaitFailed e \<Rightarrow> c e | ShellExited w \<Rightarrow> d w)"
  by (cases out) simp_all

lemma safe_all:
  "safe [] (kVerifyLogon A user password)" "safe [] (kCurrentUserToken A)"
  "safe [] (kGrantLogonRight A hist acct)" "safe [] (kQueryService A hist name)"
  "safe [] (kServiceAccountName A hist name)" "safe [] (kReadEnvKey R root subKey)"
  "safe [] (kWriteCredentialFile A P password)" "safe [] (kShellExecuteEx A verb file args)"
  "safe [] (kPromptPassword stdin)"
  unfolding kVerifyLogon_def kCurrentUserToken_def kGrantLogonRight_def kQueryService_def kServiceAccountName_def
    kReadEnvKey_def kWriteCredentialFile_def kShellExecuteEx_def kPromptPassword_def Let_def
  by (intro safe_rules; simp)+

lemma safe_relaunch: "safe [] (kRelaunchElevated A P args)"
  unfolding kRelaunchElevated_def by (intro safe_rules safe_all)

section \<open>What the programs compute\<close>

text \<open>The value, the files and the handles open afterwards; nothing for the last if one was misused.\<close>

definition outcome :: "'a kernelM \<Rightarrow> kernel \<Rightarrow> 'a \<times> fsys \<times> resource list option" where
  "outcome m s = (case run_state m s of (x, s') \<Rightarrow> (x, knFS s', replay (knTrace s') []))"

lemma outcome_eq:
  assumes "fst (run_state m s) = x" and "knFS (snd (run_state m s)) = fs"
    and "safe [] m" and "replay (knTrace s) [] = Some os"
  shows "outcome m s = (x, fs, Some os)"
proof -
  from assms(3) obtain new where "knTrace (snd (run_state m s)) = knTrace s @ new" "replay new os = Some os"
    unfolding safe_def by fastforce
  with assms(1,2,4) show ?thesis by (auto simp: outcome_def replay_append split: prod.split)
qed

lemmas run_splits = option.split sum.split prod.split shellOut.split

lemma verifyLogon_run:
  "fst (run_state (kVerifyLogon A user password) s) = verifyLogonWindows A user password
   \<and> knFS (snd (run_state (kVerifyLogon A user password) s)) = knFS s"
  by (simp add: kVerifyLogon_def verifyLogonWindows_def run_withOpen Let_def split: run_splits)

lemma currentUserToken_run:
  "fst (run_state (kCurrentUserToken A) s) = currentUserTokenWindows A
   \<and> knFS (snd (run_state (kCurrentUserToken A) s)) = knFS s"
  by (simp add: kCurrentUserToken_def currentUserTokenWindows_def run_withOpen bindR_def Let_def split: run_splits)

lemma grantLogonRight_run:
  assumes "onWindows h"
  shows "fst (run_state (kGrantLogonRight A hist acct) s) = grantServiceLogonRight h A hist acct
   \<and> knFS (snd (run_state (kGrantLogonRight A hist acct) s)) = knFS s"
  using assms by (simp add: kGrantLogonRight_def grantServiceLogonRight_def run_withOpen bindR_def Let_def split: run_splits)

lemma queryService_run:
  "fst (run_state (kQueryService A hist name) s) = queryServiceWindows A hist name
   \<and> knFS (snd (run_state (kQueryService A hist name) s)) = knFS s"
  by (simp add: kQueryService_def queryServiceWindows_def run_withOpen Let_def split: run_splits)

lemma serviceAccountName_run:
  assumes "onWindows h"
  shows "fst (run_state (kServiceAccountName A hist name) s) = serviceAccountName h A hist name
   \<and> knFS (snd (run_state (kServiceAccountName A hist name) s)) = knFS s"
  using assms by (simp add: kServiceAccountName_def serviceAccountName_def run_withOpen Let_def split: run_splits)

lemma readEnvKey_run:
  "fst (run_state (kReadEnvKey R root subKey) s) = readEnvKey R root subKey
   \<and> knFS (snd (run_state (kReadEnvKey R root subKey) s)) = knFS s"
  by (simp add: kReadEnvKey_def readEnvKey_def run_withOpen Let_def split: run_splits)

lemma promptPassword_run:
  "fst (run_state (kPromptPassword stdin) s) = promptPasswordWindows stdin
   \<and> knFS (snd (run_state (kPromptPassword stdin) s)) = knFS s"
  by (simp add: kPromptPassword_def promptPasswordWindows_def run_withOpen Let_def split: option.split prod.split)

lemma logonRightHeld_run:
  assumes "onWindows h"
  shows "fst (run_state (kLogonRightHeld A hist acct) s) = serviceLogonRightHeld h A hist acct
   \<and> knFS (snd (run_state (kLogonRightHeld A hist acct) s)) = knFS s"
  using assms by (simp add: kLogonRightHeld_def serviceLogonRightHeld_def run_withOpen bindR_def Let_def split: run_splits)

lemma shellExecuteEx_run:
  "fst (run_state (kShellExecuteEx A verb file args) s) = fst (shellExecuteEx A verb file args (knFS s))
   \<and> knFS (snd (run_state (kShellExecuteEx A verb file args) s)) = snd (shellExecuteEx A verb file args (knFS s))"
  by (simp add: kShellExecuteEx_def shellExecuteEx_def run_withOpen Let_def split: run_splits)

text \<open>The removals of the credential file find it open; that of the elevation log does not.\<close>

lemma removeFile_run:
  assumes "replay (knTrace s) [] = Some os"
  shows "run_state (removeFile f) s =
     (fst ((if FileH f \<in> set os then osRemoveOpen else osRemove) (knFS s) f),
      s\<lparr>knFS := snd ((if FileH f \<in> set os then osRemoveOpen else osRemove) (knFS s) f)\<rparr>)"
  using assms by (simp add: removeFile_def openNow_def case_prod_unfold Let_def)

lemma writeCredential_run:
  assumes "replay (knTrace s) [] = Some os"
  shows "fst (run_state (kWriteCredentialFile A P pw) s) = fst (writeCredentialFileWindows A P (knFS s) pw)
   \<and> knFS (snd (run_state (kWriteCredentialFile A P pw) s)) = snd (writeCredentialFileWindows A P (knFS s) pw)"
  using assms
  by (simp add: kWriteCredentialFile_def writeCredentialFileWindows_def run_withOpen removeFile_def openNow_def
      replay_append case_prod_unfold Let_def split: option.split sum.split)

text \<open>A program with nothing left open leaves the question whether a file is open as it was.\<close>

lemma safe_replay:
  assumes "safe [] m" and "replay (knTrace s) [] = Some os"
  shows "replay (knTrace (snd (run_state m s))) [] = Some os"
proof -
  from assms(1) obtain new where "knTrace (snd (run_state m s)) = knTrace s @ new" "replay new os = Some os"
    unfolding safe_def by fastforce
  with assms(2) show ?thesis by (simp add: replay_append)
qed

lemma relaunch_run:
  assumes os: "replay (knTrace s) [] = Some os" and nf: "\<And>f. FileH f \<notin> set os"
  shows "fst (run_state (kRelaunchElevated A P args) s) =
      (case relaunchElevatedWindows A P (knFS s) args of (r, out, fs') \<Rightarrow> (r, out))
   \<and> knFS (snd (run_state (kRelaunchElevated A P args) s)) =
      (case relaunchElevatedWindows A P (knFS s) args of (r, out, fs') \<Rightarrow> fs')"
proof (cases "waExecutable A")
  case (Inl e)
  then show ?thesis by (simp add: kRelaunchElevated_def relaunchElevatedWindows_def)
next
  case exe: (Inr exe)
  obtain r fs1 where c: "osCreateTemp A P (knFS s) ''termcp-relay-elevated-*.log'' = (r, fs1)" by fastforce
  show ?thesis
  proof (cases r)
    case (Inl e)
    with exe c show ?thesis by (simp add: kRelaunchElevated_def relaunchElevatedWindows_def)
  next
    case (Inr f)
    let ?m = "kShellExecuteEx A ''runas'' exe (args @ [elevatedOutputFlag, f])"
    let ?s = "s\<lparr>knFS := fs1, knTrace := knTrace s @ [Opened (FileH f), Closed (FileH f)]\<rparr>"
    obtain x s2 where r2: "run_state ?m ?s = (x, s2)" by fastforce
    have "replay (knTrace ?s) [] = Some os" using os by (simp add: replay_append)
    from safe_replay[OF safe_all(8) this, of A "''runas''" exe "args @ [elevatedOutputFlag, f]"] r2
    have o2: "replay (knTrace s2) [] = Some os" by simp
    from shellExecuteEx_run[of A "''runas''" exe "args @ [elevatedOutputFlag, f]" ?s] r2
    have sh: "shellExecuteEx A ''runas'' exe (args @ [elevatedOutputFlag, f]) fs1 = (x, knFS s2)"
      by (simp add: prod_eq_iff)
    from o2 nf r2 show ?thesis
      by (simp add: kRelaunchElevated_def relaunchElevatedWindows_def exe c Inr sh run_withOpen removeFile_run
          Let_def case_prod_unfold split: sum.split)
  qed
qed

lemma logonRightHeld_outcome:
  assumes "onWindows h" and "replay (knTrace s) [] = Some os"
  shows "outcome (kLogonRightHeld A hist acct) s =
     (serviceLogonRightHeld h A hist acct, knFS s,
      Some (case (lookupAccountSID A acct, openLocalPolicy A policyLookupNames) of
              (Inr sid, Inr _) \<Rightarrow> if (ucast (fst (waEnumRights A hist sid)) :: 32 word) = 0 then LsaBuffer # os else os
            | _ \<Rightarrow> os))"
  using assms
  by (simp add: outcome_def kLogonRightHeld_def serviceLogonRightHeld_def run_withOpen bindR_def replay_append
      case_prod_unfold Let_def split: sum.split)

section \<open>Property\<close>

text \<open>C15: What the Windows functions open they close, on every path, and they use and close nothing that
  is not open: whatever was open before each of them is exactly what is open after it, beside
  the result and the files that the functions without handles give. There is one exception:
  the array of rights \<open>serviceLogonRightHeld\<close> reads is never given back.\<close>
theorem windows_handles_given_back:
  assumes w: "onWindows h" and os: "replay (knTrace s) [] = Some os" and nf: "\<And>f. FileH f \<notin> set os"
  shows "outcome (kVerifyLogon A user pw) s = (verifyLogon h A user pw, knFS s, Some os)
    \<and> outcome (kCurrentUserToken A) s = (currentUserToken h A, knFS s, Some os)
    \<and> outcome (kPromptPassword stdin) s = (promptPassword h stdin, knFS s, Some os)
    \<and> outcome (kGrantLogonRight A hist acct) s = (grantServiceLogonRight h A hist acct, knFS s, Some os)
    \<and> outcome (kQueryService A hist name) s = (queryServiceWindows A hist name, knFS s, Some os)
    \<and> outcome (kServiceAccountName A hist name) s = (serviceAccountName h A hist name, knFS s, Some os)
    \<and> outcome (kReadEnvKey R root subKey) s = (readEnvKey R root subKey, knFS s, Some os)
    \<and> outcome (kWriteCredentialFile A (hPaths h) pw) s =
        (case writeCredentialFile h A (knFS s) pw of (r, fs') \<Rightarrow> (r, fs', Some os))
    \<and> outcome (kRelaunchElevated A (hPaths h) args) s =
        (case relaunchElevated h A (knFS s) args of (r, out, fs') \<Rightarrow> ((r, out), fs', Some os))
    \<and> outcome (kLogonRightHeld A hist acct) s =
        (serviceLogonRightHeld h A hist acct, knFS s,
         Some (case (lookupAccountSID A acct, openLocalPolicy A policyLookupNames) of
              (Inr sid, Inr _) \<Rightarrow> if (ucast (fst (waEnumRights A hist sid)) :: 32 word) = 0 then LsaBuffer # os else os
            | _ \<Rightarrow> os))"
proof -
  note eq = outcome_eq[OF conjunct1 conjunct2 _ os]
  have re: "outcome (kRelaunchElevated A (hPaths h) args) s =
        (case relaunchElevated h A (knFS s) args of (r, out, fs') \<Rightarrow> ((r, out), fs', Some os))"
    using eq[OF relaunch_run relaunch_run safe_relaunch, OF os nf os nf] w by (simp add: relaunchElevated_def case_prod_unfold)
  have wr: "outcome (kWriteCredentialFile A (hPaths h) pw) s =
        (case writeCredentialFile h A (knFS s) pw of (r, fs') \<Rightarrow> (r, fs', Some os))"
    using eq[OF writeCredential_run writeCredential_run safe_all(7), OF os os] w
    by (simp add: writeCredentialFile_def case_prod_unfold)
  have ac: "verifyLogon h A user pw = verifyLogonWindows A user pw" "currentUserToken h A = currentUserTokenWindows A"
      "promptPassword h stdin = promptPasswordWindows stdin"
    using w by (simp_all add: verifyLogon_def currentUserToken_def promptPassword_def)
  show ?thesis unfolding ac
    by (intro conjI re wr logonRightHeld_outcome[OF w os]
        eq[OF verifyLogon_run verifyLogon_run safe_all(1)] eq[OF currentUserToken_run currentUserToken_run safe_all(2)]
        eq[OF promptPassword_run promptPassword_run safe_all(9)]
        eq[OF grantLogonRight_run grantLogonRight_run safe_all(3), OF w w] eq[OF queryService_run queryService_run safe_all(4)]
        eq[OF serviceAccountName_run serviceAccountName_run safe_all(5), OF w w] eq[OF readEnvKey_run readEnvKey_run safe_all(6)])
qed

theorem windows_handles_given_back_witness:
  "outcome (kWriteCredentialFile winDemo (hPaths winHost) ''s3cret'') \<lparr>knFS = plainFS, knTrace = [Opened ManagerH]\<rparr>
     = (case writeCredentialFile winHost winDemo plainFS ''s3cret'' of (r, fs') \<Rightarrow> (r, fs', Some [ManagerH]))
   \<and> snd (snd (outcome (kLogonRightHeld winDemo [] ''bob'') \<lparr>knFS = plainFS, knTrace = [Opened ManagerH]\<rparr>))
     = Some [LsaBuffer, ManagerH]"
proof -
  let ?s = "\<lparr>knFS = plainFS, knTrace = [Opened ManagerH]\<rparr>"
  have w: "onWindows winHost" by (simp add: onWindows_def winHost_def)
  have os: "replay (knTrace ?s) [] = Some [ManagerH]" by simp
  have nf: "\<And>f. FileH f \<notin> set [ManagerH]" by simp
  have a: "lookupAccountSID winDemo ''bob'' = Inr (sidQueryName ''PC'' ''bob'')" by code_simp
  have b: "openLocalPolicy winDemo policyLookupNames = Inr ()" by (simp add: openLocalPolicy_def winDemo_def Let_def)
  note t = windows_handles_given_back[OF w os nf, where A = winDemo and hist = "[]"]
  from t[where pw = "''s3cret''"] t[where acct = "''bob''"] a b show ?thesis
    by (simp add: winDemo_def)
qed

end
