(* ===== verification/Relay_Text_Facts.thy ===== *)
theory Relay_Text_Facts
  imports Relay_Text Relay_Options_Facts
begin

text \<open>
  What the printed texts are good for: the commands they suggest, read back by the program,
  and the flags the usage texts name.
\<close>

section \<open>Commands the program suggests\<close>

text \<open>The flag that names a service, and what follows it on a command line.\<close>

lemma serviceOptions_name:
  assumes "rest = [] \<or> (hd rest \<noteq> [] \<and> hd (hd rest) \<noteq> CHR ''-'')"
  shows "\<exists>r. serviceOptions (''--name'' # a # rest) = Inr r \<and> opName r = a"
proof -
  have stop: "parseFlags F v rest = Inr (v, rest)" for F v
    using assms by (cases rest) (auto simp: parseFlags.simps(2))
  have "parseFlags serviceFormal serviceDefaults (''--name'' # a # rest) = Inr (serviceDefaults(''name'' := a), rest)"
    using parseFlags_string[OF plain_flags(6) service_flags(6), of serviceDefaults a rest] stop by simp
  then show ?thesis by (simp add: serviceOptions_def Let_def serviceDefaults_def)
qed

text \<open>The words of a suggested command.\<close>

lemma followUp_words:
  assumes "ws_free action" and "action \<noteq> []"
  shows "Fields (followUp action o') = ''termcp-relay'' # ''service'' # action #
     (if opName o' = [] \<or> opName o' = relayName then [] else ''--name'' # Fields (opName o'))"
proof -
  have w: "ws_free ''termcp-relay''" "ws_free ''service''" "ws_free ''--name''" by code_simp+
  have s: "''termcp-relay service '' @ t = ''termcp-relay'' @ CHR 0x20 # ''service'' @ CHR 0x20 # t"
      "action @ '' --name '' @ t = action @ CHR 0x20 # ''--name'' @ CHR 0x20 # t" for t
    by simp_all
  note b = Fields_blank[OF w(1)] Fields_blank[OF w(2)] Fields_blank[OF w(3)] Fields_blank[OF assms]
  show ?thesis
  proof (cases "opName o' = [] \<or> opName o' = relayName")
    case True
    then show ?thesis
      unfolding followUp_def nameFlag_def if_P[OF True] append_Nil2 s
      by (subst b, simp, subst b, simp) (simp add: Fields_ws_free assms)
  next
    case False
    show ?thesis
      unfolding followUp_def nameFlag_def if_not_P[OF False] s
      by (subst b, simp, subst b, simp, subst b, subst b, simp) simp
  qed
qed

section \<open>Looking for text in lines\<close>

lemma Contains_append_newline:
  assumes "CHR 0x0A \<notin> set sub"
  shows "Contains (l @ CHR 0x0A # t) sub \<longleftrightarrow> Contains l sub \<or> Contains t sub"
proof
  assume "Contains (l @ CHR 0x0A # t) sub"
  then obtain a b where ab: "l @ CHR 0x0A # t = a @ sub @ b" unfolding Contains_iff by blast
  from ab consider u where "l = a @ u" "u @ CHR 0x0A # t = sub @ b" | u where "CHR 0x0A # t = u @ sub @ b" "a = l @ u"
    unfolding append_eq_append_conv2 by metis
  then show "Contains l sub \<or> Contains t sub"
  proof cases
    case 1
    from 1(2) assms obtain v where "u = sub @ v" unfolding append_eq_append_conv2 by (auto simp: append_eq_Cons_conv Cons_eq_append_conv)
    with 1(1) show ?thesis unfolding Contains_iff by blast
  next
    case 2
    show ?thesis
    proof (cases u)
      case Nil
      with 2(1) assms have "sub = []" by (cases sub) auto
      then show ?thesis unfolding Contains_iff by blast
    next
      case (Cons x u')
      with 2(1) have "t = u' @ sub @ b" by simp
      then show ?thesis unfolding Contains_iff by blast
    qed
  qed
next
  assume "Contains l sub \<or> Contains t sub"
  then show "Contains (l @ CHR 0x0A # t) sub"
  proof
    assume "Contains l sub"
    then obtain a b where "l = a @ sub @ b" unfolding Contains_iff by blast
    then have "l @ CHR 0x0A # t = a @ sub @ (b @ CHR 0x0A # t)" by simp
    then show ?thesis unfolding Contains_iff by blast
  next
    assume "Contains t sub"
    then obtain a b where "t = a @ sub @ b" unfolding Contains_iff by blast
    then have "l @ CHR 0x0A # t = (l @ CHR 0x0A # a) @ sub @ b" by simp
    then show ?thesis unfolding Contains_iff by blast
  qed
qed

lemma Contains_unlines:
  "sub \<noteq> [] \<Longrightarrow> CHR 0x0A \<notin> set sub \<Longrightarrow> Contains (unlines ls) sub \<longleftrightarrow> (\<exists>l \<in> set ls. Contains l sub)"
  by (induction ls) (simp_all add: unlines_def Contains_append_newline)

lemma Contains_line:
  assumes "CHR 0x0A \<notin> set sub" and "sub \<noteq> []" and "l \<in> set ls" and "prefix sub l"
  shows "Contains (unlines ls) sub"
proof -
  from assms(4) obtain b where "l = [] @ sub @ b" by (auto simp: prefix_def)
  then have "Contains l sub" unfolding Contains_iff by blast
  with assms(3) Contains_unlines[OF assms(2,1)] show ?thesis by blast
qed

section \<open>Properties\<close>

text \<open>C21: The commands the program suggests after an installation reach the service it installed:
  split at blanks and parsed again, they name the same service. With a blank in the name
  they name the service called by its first word, because the name is printed bare.\<close>
theorem follow_up_commands:
  assumes "action \<in> {''start'', ''status''}" and "ws_free a" and "a \<noteq> []"
    and "opName o' = a \<or> (\<exists>b. ws_free b \<and> b \<noteq> [] \<and> hd b \<noteq> CHR ''-'' \<and> opName o' = a @ CHR 0x20 # b)"
  shows "\<exists>flags r. Fields (followUp action o') = [''termcp-relay'', ''service'', action] @ flags
     \<and> serviceOptions flags = Inr r \<and> serviceName r = a"
proof -
  have act: "ws_free action" "action \<noteq> []" "ws_free relayName"
  proof -
    have "ws_free ''start''" "ws_free ''status''" "ws_free relayName" by code_simp+
    with assms(1) show "ws_free action" "action \<noteq> []" "ws_free relayName" by auto
  qed
  have name: "serviceName r = a" if "opName r = a" for r using that assms(2,3) by (simp add: serviceName_def)
  show ?thesis
  proof (cases "opName o' = [] \<or> opName o' = relayName")
    case True
    with assms(3,4) have n: "opName o' = relayName" by auto
    have "a = relayName"
    proof (rule ccontr)
      assume "a \<noteq> relayName"
      with assms(4) n obtain b where "relayName = a @ CHR 0x20 # b" by auto
      then have "CHR 0x20 \<in> set relayName" by (metis in_set_conv_decomp)
      then show False by (simp add: relayName_def)
    qed
    moreover have "\<exists>r. serviceOptions [] = Inr r \<and> opName r = relayName"
      by (simp add: serviceOptions_def Let_def serviceDefaults_def)
    ultimately show ?thesis using followUp_words[OF act(1,2), of o'] True name by auto
  next
    case False
    from assms(4) obtain rest where rest: "Fields (opName o') = a # rest" "rest = [] \<or> (hd rest \<noteq> [] \<and> hd (hd rest) \<noteq> CHR ''-'')"
      using Fields_blank[OF assms(2,3)] Fields_ws_free assms(2,3) by auto
    from serviceOptions_name[OF rest(2), of a] followUp_words[OF act(1,2), of o'] False rest(1) name
    show ?thesis by auto
  qed
qed

theorem follow_up_commands_witness:
  "\<exists>flags r. Fields (followUp ''start'' demoInstall) = [''termcp-relay'', ''service'', ''start''] @ flags
     \<and> serviceOptions flags = Inr r \<and> serviceName r = ''lab''"
proof -
  have "ws_free ''lab''" by code_simp
  then show ?thesis by (intro follow_up_commands) (simp_all add: demoInstall_def)
qed

section \<open>Usage texts\<close>

text \<open>The usage texts and the flag sets: \<open>service help\<close> names every flag the service commands
  accept, while the help of the daemon leaves out \<open>--work-dir\<close>, which the daemon accepts and
  every installed service is started with.\<close>
lemma usage_names_flags:
  "(\<forall>(n, k) \<in> set serviceFormal. Contains serviceUsage (''  --'' @ n @ '' ''))
   \<and> (\<forall>(n, k) \<in> set mainFormal. Contains mainUsage (''  --'' @ n @ '' '') \<longleftrightarrow> n \<noteq> ''work-dir'')"
proof
  have line: "list_ex (prefix (''  --'' @ n @ '' '')) usageLines \<Longrightarrow> CHR 0x0A \<notin> set n
      \<Longrightarrow> Contains (unlines usageLines) (''  --'' @ n @ '' '')" for n usageLines
    using Contains_line[of "''  --'' @ n @ '' ''"] by (auto simp: list_ex_iff)
  show "\<forall>(n, k) \<in> set serviceFormal. Contains serviceUsage (''  --'' @ n @ '' '')"
    unfolding serviceUsage_def serviceFormal_def list.set ball_simps prod.case
    by (intro conjI line TrueI) simp_all
  show "\<forall>(n, k) \<in> set mainFormal. Contains mainUsage (''  --'' @ n @ '' '') \<longleftrightarrow> n \<noteq> ''work-dir''"
    unfolding mainUsage_def by (simp add: mainFormal_def Contains_unlines)
qed

end
