(* ===== verification/Relay_Running.thy ===== *)
theory Relay_Running
  imports Relay_Program_Facts Relay_Session_Facts
begin

text \<open>
  A relay that has started, as a whole: what it says it runs is what it runs, and the sessions
  of its clients get their shell and their directory from its configuration.
\<close>

section \<open>Sessions of a server\<close>

text \<open>
  A session handler is a method of the server: it takes the shell and the working directory
  from it, everything else from the host and the client's request.
\<close>

definition serverSession :: "('k, 's) relayServer \<Rightarrow> sessParams \<Rightarrow> sessParams" where
  "serverSession s p = p\<lparr>spShell := rsShell s, spWorkDir := rsWorkDir s\<rparr>"

lemma started_command:
  assumes "sess_reach p s" and "Started c \<in> set (sEvents s)"
  shows "cArgs c = sessionArgs p \<and> cDir c = spWorkDir p"
proof -
  have a: "cArgs (attachCmd p b) = cArgs b \<and> cDir (attachCmd p b) = cDir b" for b
    by (simp add: attachCmd_def setPtySysProcAttr_def Let_def split: option.split)
  from sess_reach_OK[OF assms(1)] have "pcOK p s (sPc s)" by (simp add: sessOK_def)
  with assms(2) obtain b where "buildCmd p = Some b" "c = attachCmd p b"
    by (cases "sPc s") (auto split: option.splits)
  with a show ?thesis by (auto simp: buildCmd_eq)
qed

lemma session_starts:
  assumes "\<And>c. spStart p c = None"
  shows "\<exists>s c. sess_reach p s \<and> Started c \<in> set (sEvents s)"
proof -
  obtain b where "buildCmd p = Some b" by (simp add: buildCmd_eq)
  then have "sess_reach p (sessInit b)" by (rule sess_reach.init)
  moreover have "sess_step p (sessInit b) (startProcess p b (sessInit b))"
    by (rule sess_step.own, rule own_step.start) (simp add: sessInit_def)
  ultimately have "sess_reach p (startProcess p b (sessInit b))" by (rule sess_reach.step)
  moreover have "Started (attachCmd p b) \<in> set (sEvents (startProcess p b (sessInit b)))"
    by (simp add: startProcess_def assms)
  ultimately show ?thesis by blast
qed

lemma New_settings:
  assumes "New marshal pty (configSSH cfg a d) = Inr srv"
  shows "rsShell srv = TrimSpace (scShell (cServer cfg))" "rsWorkDir srv = TrimSpace d"
    "rsAuth srv = a" "oAddr (rsOpts srv) = scAddr (cServer cfg)" "oHostKeyPath (rsOpts srv) = scHostKey (cServer cfg)"
    "fst (svLocalFwd (rsServer srv) u h q) = scAllowLocalFwd (cServer cfg)"
    "fst (svReverseFwd (rsServer srv) u h q) = scAllowRemoteFwd (cServer cfg)"
  using assms
  by (auto simp: New_eq configSSH_def optsAuth_def newSSHServer_def localForwardCallback_def reverseForwardCallback_def Let_def)


section \<open>Properties\<close>



text \<open>C12: A session never starts in the service manager's own directory: every process a client of
  a started relay gets runs in a directory that is named by the configuration first, then
  by the \<open>--work-dir\<close> option, then is the home of the account, when that is a directory and
  no service profile, and the directory of the configuration file otherwise (the home is
  looked at when the log has been opened). It runs the
  client's command, or the configured shell, or the one found on the host; and SFTP starts
  in the same directory.\<close>
theorem started_relay_sessions:
  assumes "path_laws (hPaths (peHost E))" and "fpToSlash (hPaths (peHost E)) [] = []"
    and "fpAbs (hPaths (peHost E)) (opConfigPath (pgOpts p)) = Inr cfgPath"
    and "programStart E w p = Some (None, w', p')" and "pgSrv p' = Some srv"
    and "sess_reach (serverSession srv req) s" and "Started c \<in> set (sEvents s)"
  shows "\<exists>cfg d. Load (hPaths (peHost E)) (peDecode E) (nwFS (wNet w)) (opConfigPath (pgOpts p)) = Inr cfg
     \<and> cDir c = TrimSpace d \<and> cDir c \<noteq> []
     \<and> (if \<not> blank (scWorkDir (cServer cfg)) then d = scWorkDir (cServer cfg)
        else if \<not> blank (opWorkDir (pgOpts p)) then d = opWorkDir (pgOpts p)
        else if (\<exists>home m. osUserHomeDir (peHost E) = Inr home \<and> \<not> isServiceProfile (peHost E) home 
              \<and> osStat (logOpened (hPaths (peHost E)) (nwFS (wNet w)) (opLogFile (pgOpts p))) home = Inr (DirNode m))
        then osUserHomeDir (peHost E) = Inr d else d = fpDir (hPaths (peHost E)) cfgPath)
     \<and> cArgs c = (if spCommand req \<noteq> [] then spCommand req
         else if \<not> blank (scShell (cServer cfg)) then Fields (TrimSpace (scShell (cServer cfg)))
         else defaultShellArgs (spHost req) (spFS req) [])
     \<and> handleSftpSubsystem (rsWorkDir srv) (\<lambda>opts. None) None = [SftpServe [cDir c], SftpClose, SftpExit 0]"
  using assms(4)
proof (cases rule: programStart_ok)
  case (1 cfg fs' a srv0 srv' n1 n2)
  let ?h = "peHost E" let ?d = "resolveWorkDir ?h fs' (pgOpts p) cfg"
  note set = New_settings[OF 1(5)] serverStart_keeps_settings[OF 1(6)]
  have srv: "srv' = srv" using 1(2) assms(5) by simp
  note run = started_command[OF assms(6,7)]
  have dir: "cDir c = TrimSpace ?d" using run set srv by (simp add: serverSession_def)
  have sh: "rsShell srv = TrimSpace (scShell (cServer cfg))" using set srv by simp
  have args: "cArgs c = (if spCommand req \<noteq> [] then spCommand req
         else if \<not> blank (scShell (cServer cfg)) then Fields (TrimSpace (scShell (cServer cfg)))
         else defaultShellArgs (spHost req) (spFS req) [])"
    using run by (simp add: serverSession_def sessionArgs_def sh) (simp add: defaultShellArgs_def blank_def)
  note spec = path_laws.resolveWorkDir_spec[OF assms(1) refl assms(2,3), of fs' cfg]
  have sftp: "handleSftpSubsystem (rsWorkDir srv) (\<lambda>opts. None) None = [SftpServe [cDir c], SftpClose, SftpExit 0]"
    using set srv dir spec by (simp add: handleSftpSubsystem_def)
  have d: "TrimSpace ?d \<noteq> []" using spec by blast
  show ?thesis
  proof (cases "\<not> blank (scWorkDir (cServer cfg)) \<or> \<not> blank (opWorkDir (pgOpts p))")
    case True
    then have "cDir c = TrimSpace (if \<not> blank (scWorkDir (cServer cfg)) then scWorkDir (cServer cfg) else opWorkDir (pgOpts p))"
      using spec dir by (simp split: if_splits)
    with True d dir sftp args 1(3) show ?thesis
      by (intro exI[of _ cfg] exI[of _ "if \<not> blank (scWorkDir (cServer cfg)) then scWorkDir (cServer cfg) else opWorkDir (pgOpts p)"])
        simp
  next
    case False
    with spec d dir sftp args 1(3) show ?thesis
      by (intro exI[of _ cfg] exI[of _ ?d]) (simp add: 1(12)[symmetric])
  qed
qed

theorem started_relay_sessions_witness:
  "\<exists>w' p' srv s c. programStart labEnv labWorld (freshProgram labOpts) = Some (None, w', p') \<and> pgSrv p' = Some srv
     \<and> sess_reach (serverSession srv demoSession) s \<and> Started c \<in> set (sEvents s) \<and> cArgs c = [''ls''] \<and> cDir c = ''/''"
proof -
  obtain w' p' where st: "programStart labEnv labWorld (freshProgram labOpts) = Some (None, w', p')" using lab_start by blast
  then obtain srv where srv: "pgSrv p' = Some srv" by (cases rule: programStart_ok) simp
  obtain s c where s: "sess_reach (serverSession srv demoSession) s" "Started c \<in> set (sEvents s)"
    using session_starts[of "serverSession srv demoSession"] by (auto simp: serverSession_def demoSession_def)
  have a: "fpAbs (hPaths (peHost labEnv)) (opConfigPath (pgOpts (freshProgram labOpts :: (string, string) program))) = Inr ''/c.toml''"
      "unixDir ''/c.toml'' = ''/''" "TrimSpace ''/'' = ''/''"
    unfolding labEnv_def labHost_def labOpts_def by code_simp+
  have pl: "path_laws (hPaths (peHost labEnv))" "fpToSlash (hPaths (peHost labEnv)) [] = []"
    by (simp_all add: labEnv_def labHost_def unix.path_laws_axioms)
  have ld: "Load (hPaths (peHost labEnv)) (peDecode labEnv) (nwFS (wNet labWorld)) (opConfigPath labOpts) =
      Inr (Defaults\<lparr>cConfigDir := ''/'', cServer := (cServer Defaults)\<lparr>scHostKey := ''/host_key.pem''\<rparr>,
                   cAuth := (cAuth Defaults)\<lparr>acPassword := ''pw''\<rparr>\<rparr>)"
    using Load_example by (simp add: labEnv_def labHost_def labWorld_def labOpts_def)
  have b: "blank []" by (simp add: blank_def)
  have "cArgs c = [''ls'']" "cDir c = ''/''"
    using started_relay_sessions[OF pl a(1) st srv s] ld
    by (auto simp: b Defaults_def labOpts_def labEnv_def labHost_def osUserHomeDir_def a demoSession_def)
  with st srv s show ?thesis by blast
qed

end
