(* ===== verification/Go_Mutex.thy ===== *)
theory Go_Mutex
  imports Relay_Prelude
begin

text \<open>
  \<open>sync.Mutex\<close>: any number of goroutines call operations that lock one mutex, run action by
  action, and unlock when they return (\<open>defer mu.Unlock()\<close>), while other goroutines act on the
  shared state without the mutex. The locale \<open>serialisable\<close> says when such operations are as
  good as atomic.
\<close>

section \<open>Goroutines around a mutex\<close>

text \<open>
  Where a goroutine is: not calling, before \<open>Lock\<close>, inside the operation, about to unlock,
  back with a result. An action of a body ends in a new position or a result; \<open>None\<close> is an
  action that never ends.
\<close>

datatype ('op, 'loc, 'res) goroutine =
    Away
  | Locking 'op
  | Inside 'op 'loc
  | Unlocking 'op 'res
  | Back 'res

type_synonym ('loc, 'sh, 'res) body = "'loc \<Rightarrow> 'sh \<Rightarrow> (('loc + 'res) \<times> 'sh) option"

text \<open>\<open>lkHistory\<close> records the calls that have let go of the mutex, in that order.\<close>

record ('op, 'loc, 'res, 'sh) locked =
  lkShared :: 'sh
  lkHolder :: "nat option"
  lkThreads :: "nat \<Rightarrow> ('op, 'loc, 'res) goroutine"
  lkHistory :: "(nat \<times> 'op \<times> 'res) list"

definition unlocked :: "'sh \<Rightarrow> ('op, 'loc, 'res, 'sh) locked" where
  "unlocked sh = \<lparr>lkShared = sh, lkHolder = None, lkThreads = (\<lambda>i. Away), lkHistory = []\<rparr>"

abbreviation moveTo :: "nat \<Rightarrow> ('op, 'loc, 'res) goroutine \<Rightarrow> ('op, 'loc, 'res, 'sh) locked \<Rightarrow> ('op, 'loc, 'res, 'sh) locked" where
  "moveTo i t g \<equiv> g\<lparr>lkThreads := (lkThreads g)(i := t)\<rparr>"

text \<open>The steps of calls that are under way.\<close>

inductive call_step ::
    "('op \<Rightarrow> 'loc) \<Rightarrow> ('loc, 'sh, 'res) body \<Rightarrow> ('op, 'loc, 'res, 'sh) locked \<Rightarrow> ('op, 'loc, 'res, 'sh) locked \<Rightarrow> bool"
  for enter body where
  lock: "lkThreads g i = Locking op' \<Longrightarrow> lkHolder g = None
     \<Longrightarrow> call_step enter body g (moveTo i (Inside op' (enter op')) (g\<lparr>lkHolder := Some i\<rparr>))"
| act: "lkThreads g i = Inside op' l \<Longrightarrow> body l (lkShared g) = Some (Inl l', sh)
     \<Longrightarrow> call_step enter body g (moveTo i (Inside op' l') (g\<lparr>lkShared := sh\<rparr>))"
| result: "lkThreads g i = Inside op' l \<Longrightarrow> body l (lkShared g) = Some (Inr r, sh)
     \<Longrightarrow> call_step enter body g (moveTo i (Unlocking op' r) (g\<lparr>lkShared := sh\<rparr>))"
| unlock: "lkThreads g i = Unlocking op' r
     \<Longrightarrow> call_step enter body g (moveTo i (Back r) (g\<lparr>lkHolder := None, lkHistory := lkHistory g @ [(i, op', r)]\<rparr>))"

text \<open>All the interleavings: calls that begin and calls under way, and the other goroutines' \<open>noise\<close>.\<close>

inductive mutex_reach ::
    "('op \<Rightarrow> 'loc) \<Rightarrow> ('loc, 'sh, 'res) body \<Rightarrow> ('sh \<Rightarrow> 'sh) set \<Rightarrow> 'op set \<Rightarrow> 'sh \<Rightarrow> ('op, 'loc, 'res, 'sh) locked \<Rightarrow> bool"
  for enter body noise calls sh0 where
  fresh: "mutex_reach enter body noise calls sh0 (unlocked sh0)"
| call: "mutex_reach enter body noise calls sh0 g \<Longrightarrow> lkThreads g i = Away \<or> lkThreads g i = Back r \<Longrightarrow> op' \<in> calls
     \<Longrightarrow> mutex_reach enter body noise calls sh0 (moveTo i (Locking op') g)"
| step: "mutex_reach enter body noise calls sh0 g \<Longrightarrow> call_step enter body g g'
     \<Longrightarrow> mutex_reach enter body noise calls sh0 g'"
| other: "mutex_reach enter body noise calls sh0 g \<Longrightarrow> f \<in> noise
     \<Longrightarrow> mutex_reach enter body noise calls sh0 (g\<lparr>lkShared := f (lkShared g)\<rparr>)"

text \<open>Only the calls that are made are under way or over.\<close>

fun callOf :: "('op, 'loc, 'res) goroutine \<Rightarrow> 'op set" where
  "callOf (Locking op') = {op'}"
| "callOf (Inside op' l) = {op'}"
| "callOf (Unlocking op' r) = {op'}"
| "callOf t = {}"

lemma reach_calls:
  assumes "mutex_reach enter body noise calls sh0 g"
  shows "(\<forall>i. callOf (lkThreads g i) \<subseteq> calls) \<and> (fst \<circ> snd) ` set (lkHistory g) \<subseteq> calls"
  using assms
proof induction
  case (step g g')
  then have c: "callOf (lkThreads g i) \<subseteq> calls" for i by blast
  from step.hyps(2) show ?case
  proof cases
    case (lock i op')
    with c[of i] step.IH show ?thesis by auto
  next
    case (act i op' l l' sh)
    with c[of i] step.IH show ?thesis by auto
  next
    case (result i op' l r sh)
    with c[of i] step.IH show ?thesis by auto
  next
    case (unlock i op' r)
    with c[of i] step.IH show ?thesis by auto
  qed
qed (auto simp: unlocked_def)

section \<open>Bodies and atomic operations\<close>

text \<open>A body that runs alone.\<close>

inductive finishes :: "('loc, 'sh, 'res) body \<Rightarrow> 'loc \<Rightarrow> 'sh \<Rightarrow> 'res \<Rightarrow> 'sh \<Rightarrow> bool" for body where
  last: "body l sh = Some (Inr r, sh') \<Longrightarrow> finishes body l sh r sh'"
| more: "body l sh = Some (Inl l', sh1) \<Longrightarrow> finishes body l' sh1 r sh' \<Longrightarrow> finishes body l sh r sh'"

lemma finishes_unfold:
  "finishes body l sh r sh' \<longleftrightarrow>
     (case body l sh of
        None \<Rightarrow> False
      | Some (Inl l', sh1) \<Rightarrow> finishes body l' sh1 r sh'
      | Some (Inr r', sh1) \<Rightarrow> r = r' \<and> sh' = sh1)"
  by (subst finishes.simps) (auto split: option.split sum.split)

text \<open>Atomic operations one after the other.\<close>

inductive serial :: "('op \<Rightarrow> 'sh \<Rightarrow> ('res \<times> 'sh) option) \<Rightarrow> 'sh \<Rightarrow> (nat \<times> 'op \<times> 'res) list \<Rightarrow> 'sh \<Rightarrow> bool"
  for atomic sh0 where
  none: "serial atomic sh0 [] sh0"
| one_more: "serial atomic sh0 h sh \<Longrightarrow> atomic op' sh = Some (r, sh') \<Longrightarrow> serial atomic sh0 (h @ [(i, op', r)]) sh'"

fun busy :: "('op, 'loc, 'res) goroutine \<Rightarrow> bool" where
  "busy (Inside op' l) = True"
| "busy (Unlocking op' r) = True"
| "busy t = False"

text \<open>
  What is observed of the shared state is its \<open>view\<close>. The laws: the noise does not touch it, a
  body sees no more of the state and, alone, computes what the atomic operation computes,
  hanging when that has no result.
\<close>

locale serialisable =
  fixes enter :: "'op \<Rightarrow> 'loc" and body :: "('loc, 'sh, 'res) body" and noise :: "('sh \<Rightarrow> 'sh) set"
    and atomic :: "'op \<Rightarrow> 'sh \<Rightarrow> ('res \<times> 'sh) option" and view :: "'sh \<Rightarrow> 'v"
  assumes noise_unseen: "f \<in> noise \<Longrightarrow> view (f sh) = view sh"
    and body_sees: "body l a = Some (c, a') \<Longrightarrow> view a = view b \<Longrightarrow> \<exists>b'. body l b = Some (c, b') \<and> view b' = view a'"
    and body_atomic: "finishes body (enter op') sh r sh' \<longleftrightarrow> atomic op' sh = Some (r, sh')"
begin

text \<open>
  The invariant: the goroutine inside is the holder; and there is a serial run of the calls
  that are over whose state looks like the shared one, or like the one the holder began with,
  so that what it still has to do completes its atomic operation.
\<close>

definition holderOK :: "('op, 'loc, 'res, 'sh) locked \<Rightarrow> 'sh \<Rightarrow> bool" where
  "holderOK g sh \<longleftrightarrow>
     (case lkHolder g of
        None \<Rightarrow> view (lkShared g) = view sh
      | Some i \<Rightarrow> (\<exists>op' l sh1. lkThreads g i = Inside op' l \<and> view (lkShared g) = view sh1
              \<and> (\<forall>r sh'. finishes body l sh1 r sh' \<longleftrightarrow> atomic op' sh = Some (r, sh')))
          \<or> (\<exists>op' r sh1. lkThreads g i = Unlocking op' r \<and> view (lkShared g) = view sh1 \<and> atomic op' sh = Some (r, sh1)))"

lemma holderOK_inside:
  "lkHolder g = Some i \<Longrightarrow> lkThreads g i = Inside op' l \<Longrightarrow> holderOK g sh \<longleftrightarrow>
     (\<exists>sh1. view (lkShared g) = view sh1 \<and> (\<forall>r sh'. finishes body l sh1 r sh' \<longleftrightarrow> atomic op' sh = Some (r, sh')))"
  "lkHolder g = Some i \<Longrightarrow> lkThreads g i = Unlocking op' r \<Longrightarrow> holderOK g sh \<longleftrightarrow>
     (\<exists>sh1. view (lkShared g) = view sh1 \<and> atomic op' sh = Some (r, sh1))"
  by (auto simp: holderOK_def)

definition lockOK :: "'sh \<Rightarrow> ('op, 'loc, 'res, 'sh) locked \<Rightarrow> bool" where
  "lockOK sh0 g \<longleftrightarrow> (\<forall>i. busy (lkThreads g i) \<longleftrightarrow> lkHolder g = Some i)
     \<and> (\<forall>i r. lkThreads g i = Back r \<longrightarrow> (\<exists>op'. (i, op', r) \<in> set (lkHistory g)))
     \<and> (\<exists>sh. serial atomic sh0 (lkHistory g) sh \<and> holderOK g sh)"

lemma lockOK_fresh: "lockOK sh0 (unlocked sh0)"
  by (auto simp: lockOK_def unlocked_def holderOK_def intro: serial.none)

lemma lockOK_call:
  assumes "lockOK sh0 g" and "lkThreads g i = Away \<or> lkThreads g i = Back r"
  shows "lockOK sh0 (moveTo i (Locking op') g)"
proof -
  have "lkHolder g \<noteq> Some i" using assms by (auto simp: lockOK_def) (metis busy.simps(3,5))+
  then have "holderOK (moveTo i (Locking op') g) sh = holderOK g sh" for sh
    by (auto simp: holderOK_def split: option.split)
  with assms \<open>lkHolder g \<noteq> Some i\<close> show ?thesis by (auto simp: lockOK_def)
qed

lemma lockOK_other:
  assumes "lockOK sh0 g" and "f \<in> noise"
  shows "lockOK sh0 (g\<lparr>lkShared := f (lkShared g)\<rparr>)"
proof -
  have "holderOK (g\<lparr>lkShared := f (lkShared g)\<rparr>) sh = holderOK g sh" for sh
    by (simp add: holderOK_def noise_unseen[OF assms(2)] split: option.split)
  with assms(1) show ?thesis by (simp add: lockOK_def)
qed

lemma lockOK_holder:
  assumes "lockOK sh0 g" and "lkThreads g i = t" and "busy t"
  obtains sh where "lkHolder g = Some i" "serial atomic sh0 (lkHistory g) sh" "holderOK g sh"
  using assms by (auto simp: lockOK_def)

lemma lockOK_moved:
  assumes "lockOK sh0 g" and "lkHolder g = Some i" and "busy t"
    and "serial atomic sh0 (lkHistory g) sh" and "holderOK (moveTo i t (g\<lparr>lkShared := s\<rparr>)) sh"
  shows "lockOK sh0 (moveTo i t (g\<lparr>lkShared := s\<rparr>))"
  using assms by (auto simp: lockOK_def)

lemma lockOK_step:
  assumes "call_step enter body g g'" and ok: "lockOK sh0 g"
  shows "lockOK sh0 g'"
  using assms(1)
proof cases
  case (lock i op')
  from ok lock(3) obtain sh where "serial atomic sh0 (lkHistory g) sh" "view (lkShared g) = view sh"
    by (auto simp: lockOK_def holderOK_def)
  then have "\<exists>sh. serial atomic sh0 (lkHistory g) sh \<and> holderOK g' sh"
    by (auto simp: lock(1) holderOK_def body_atomic)
  with ok lock show ?thesis by (auto simp: lockOK_def)
next
  case (act i op' l l' s)
  obtain sh where h: "lkHolder g = Some i" "serial atomic sh0 (lkHistory g) sh" "holderOK g sh"
    using lockOK_holder[OF ok act(2)] by auto
  then obtain sh1 where 1: "view (lkShared g) = view sh1" "\<And>r sh'. finishes body l sh1 r sh' \<longleftrightarrow> atomic op' sh = Some (r, sh')"
    using act(2) by (auto simp: holderOK_def)
  obtain sh2 where 2: "body l sh1 = Some (Inl l', sh2)" "view sh2 = view s" using body_sees[OF act(3) 1(1)] by blast
  have "holderOK g' sh" using h(1) 2(2) 1(2) finishes_unfold[of body l sh1] 2(1)
    by (subst holderOK_inside(1)[of _ i op' l']) (auto simp: act(1) intro!: exI[of _ sh2])
  with lockOK_moved[OF ok h(1) _ h(2)] show ?thesis unfolding act(1) by simp
next
  case (result i op' l r s)
  obtain sh where h: "lkHolder g = Some i" "serial atomic sh0 (lkHistory g) sh" "holderOK g sh"
    using lockOK_holder[OF ok result(2)] by auto
  then obtain sh1 where 1: "view (lkShared g) = view sh1" "\<And>r sh'. finishes body l sh1 r sh' \<longleftrightarrow> atomic op' sh = Some (r, sh')"
    using result(2) by (auto simp: holderOK_def)
  obtain sh2 where 2: "body l sh1 = Some (Inr r, sh2)" "view sh2 = view s" using body_sees[OF result(3) 1(1)] by blast
  have "holderOK g' sh" using h(1) 2(2) 1(2)[of r sh2] finishes_unfold[of body l sh1] 2(1)
    by (subst holderOK_inside(2)[of _ i op' r]) (auto simp: result(1) intro!: exI[of _ sh2])
  with lockOK_moved[OF ok h(1) _ h(2)] show ?thesis unfolding result(1) by simp
next
  case (unlock i op' r)
  obtain sh where h: "lkHolder g = Some i" "serial atomic sh0 (lkHistory g) sh" "holderOK g sh"
    using lockOK_holder[OF ok unlock(2)] by auto
  then obtain sh1 where 1: "view (lkShared g) = view sh1" "atomic op' sh = Some (r, sh1)"
    using unlock(2) by (auto simp: holderOK_def)
  have "serial atomic sh0 (lkHistory g') sh1" unfolding unlock(1) using serial.one_more[OF h(2) 1(2)] by simp
  moreover have "holderOK g' sh1" by (simp add: unlock(1) holderOK_def 1(1))
  ultimately show ?thesis using ok h(1) by (fastforce simp: lockOK_def unlock(1))
qed

lemma reach_lockOK: "mutex_reach enter body noise calls sh0 g \<Longrightarrow> lockOK sh0 g"
  by (induction rule: mutex_reach.induct) (auto intro: lockOK_fresh lockOK_call lockOK_step lockOK_other)

text \<open>What the invariant says: one goroutine inside at most, and a serial explanation.\<close>

lemma one_inside:
  "mutex_reach enter body noise calls sh0 g \<Longrightarrow> busy (lkThreads g i) \<Longrightarrow> busy (lkThreads g j) \<Longrightarrow> i = j"
  using reach_lockOK by (fastforce simp: lockOK_def)

lemma serial_when_free:
  assumes "mutex_reach enter body noise calls sh0 g" and "lkHolder g = None"
  obtains sh where "serial atomic sh0 (lkHistory g) sh" "view (lkShared g) = view sh"
  using reach_lockOK[OF assms(1)] assms(2) by (auto simp: lockOK_def holderOK_def)

lemma result_in_history:
  "mutex_reach enter body noise calls sh0 g \<Longrightarrow> lkThreads g i = Back r \<Longrightarrow> \<exists>op'. (i, op', r) \<in> set (lkHistory g)"
  using reach_lockOK by (fastforce simp: lockOK_def)

text \<open>If no operation hangs, the goroutine inside gets out, by its own steps.\<close>

lemma finishes_sees:
  assumes "finishes body l a r a'" and "view a = view b"
  shows "\<exists>b'. finishes body l b r b'"
  using assms
proof (induction arbitrary: b)
  case (last l sh r sh')
  with body_sees[OF last(1,2)] show ?case by (blast intro: finishes.last)
next
  case (more l sh l' sh1 r sh')
  obtain b1 where "body l b = Some (Inl l', b1)" "view sh1 = view b1"
    using body_sees[OF more.hyps(1) more.prems] by force
  with more.IH[of b1] show ?case by (auto intro: finishes.more)
qed

lemma inside_gets_out:
  assumes "finishes body l sh r sh'" and "lkThreads g i = Inside op' l" and "lkShared g = sh"
  shows "\<exists>g'. (call_step enter body)\<^sup>*\<^sup>* g g' \<and> lkHolder g' = None \<and> lkThreads g' = (lkThreads g)(i := Back r)
     \<and> lkShared g' = sh' \<and> lkHistory g' = lkHistory g @ [(i, op', r)]"
  using assms
proof (induction arbitrary: g)
  case (last l sh r sh')
  let ?g = "moveTo i (Unlocking op' r) (g\<lparr>lkShared := sh'\<rparr>)"
  let ?h = "moveTo i (Back r) (?g\<lparr>lkHolder := None, lkHistory := lkHistory ?g @ [(i, op', r)]\<rparr>)"
  have "call_step enter body g ?g" using last by (intro call_step.result) auto
  moreover have "call_step enter body ?g ?h" by (rule call_step.unlock) simp
  ultimately show ?case by (intro exI[of _ ?h]) auto
next
  case (more l sh l' sh1 r sh')
  let ?g = "moveTo i (Inside op' l') (g\<lparr>lkShared := sh1\<rparr>)"
  have "call_step enter body g ?g" using more by (intro call_step.act) auto
  moreover obtain g' where "(call_step enter body)\<^sup>*\<^sup>* ?g g'" "lkHolder g' = None" "lkThreads g' = (lkThreads g)(i := Back r)"
      "lkShared g' = sh'" "lkHistory g' = lkHistory g @ [(i, op', r)]"
    using more.IH[of ?g] by (auto simp: fun_upd_same fun_upd_upd simp del: fun_upd_apply)
  ultimately show ?case by (intro exI[of _ g']) (auto intro: converse_rtranclp_into_rtranclp)
qed

lemma runs_alone:
  assumes r: "mutex_reach enter body noise calls sh0 g" and "lkHolder g = None" and "op' \<in> calls"
    and "lkThreads g i = Away \<or> lkThreads g i = Back r0" and "atomic op' (lkShared g) = Some (r, sh')"
  obtains g' where "mutex_reach enter body noise calls sh0 g'" "lkHolder g' = None" "lkThreads g' = (lkThreads g)(i := Back r)"
    "lkShared g' = sh'" "lkHistory g' = lkHistory g @ [(i, op', r)]"
proof -
  let ?g = "moveTo i (Locking op') g"
  let ?h = "moveTo i (Inside op' (enter op')) (?g\<lparr>lkHolder := Some i\<rparr>)"
  have "mutex_reach enter body noise calls sh0 ?g" by (rule mutex_reach.call[OF r assms(4,3)])
  moreover have "call_step enter body ?g ?h" using assms(2) by (intro call_step.lock) auto
  ultimately have 1: "mutex_reach enter body noise calls sh0 ?h" by (rule mutex_reach.step)
  have fin: "finishes body (enter op') (lkShared g) r sh'" using assms(5) by (simp add: body_atomic)
  obtain g' where 2: "(call_step enter body)\<^sup>*\<^sup>* ?h g'" and g': "lkHolder g' = None"
      "lkThreads g' = (lkThreads ?h)(i := Back r)" "lkShared g' = sh'" "lkHistory g' = lkHistory ?h @ [(i, op', r)]"
    using inside_gets_out[OF fin, of ?h i op'] by (auto simp: fun_upd_same simp del: fun_upd_apply)
  from 2 1 have "mutex_reach enter body noise calls sh0 g'"
    by (induction rule: rtranclp_induct) (auto intro: mutex_reach.step)
  with g' show ?thesis by (intro that) auto
qed

lemma mutex_becomes_free:
  assumes r: "mutex_reach enter body noise calls sh0 g" and ends: "\<And>op' sh. op' \<in> calls \<Longrightarrow> atomic op' sh \<noteq> None"
  shows "\<exists>g'. (call_step enter body)\<^sup>*\<^sup>* g g' \<and> lkHolder g' = None"
proof (cases "lkHolder g")
  case (Some i)
  from reach_lockOK[OF r] obtain sh where sh: "holderOK g sh" by (auto simp: lockOK_def)
  from reach_lockOK[OF r] Some have "busy (lkThreads g i)" by (simp add: lockOK_def)
  then show ?thesis
  proof (cases "lkThreads g i")
    case (Inside op' l)
    with sh Some obtain sh1 where 1: "view (lkShared g) = view sh1"
        "\<And>r sh'. finishes body l sh1 r sh' \<longleftrightarrow> atomic op' sh = Some (r, sh')"
      by (auto simp: holderOK_inside(1)[OF Some Inside])
    have "op' \<in> calls" using reach_calls[OF r] Inside by (metis callOf.simps(2) insert_subset)
    from ends[OF this, of sh] 1(2) obtain r sh' where "finishes body l sh1 r sh'" by fastforce
    with finishes_sees 1(1) obtain b' where "finishes body l (lkShared g) r b'" by metis
    from inside_gets_out[OF this Inside refl] show ?thesis by blast
  next
    case (Unlocking op' r)
    then show ?thesis by (intro exI conjI r_into_rtranclp, rule call_step.unlock) simp_all
  qed simp_all
qed blast

end

end
