(* ===== verification/Relay_Concurrency.thy ===== *)
theory Relay_Concurrency
  imports Go_Mutex Relay_Program_Facts Relay_Server_Facts
begin

text \<open>
  The operations that lock, action by action: \<open>Start\<close> and \<open>Stop\<close> of the SSH server
  (\<open>sshserver/server.go\<close>, \<open>s.mu\<close>) and of the program (\<open>service/service.go\<close>, \<open>p.mu\<close>), called by
  any number of goroutines while others log. That they are as good as the atomic functions of
  \<open>Relay_Server\<close> and \<open>Relay_Program\<close> is shown by interpreting \<open>serialisable\<close>. The program
  takes the server's mutex only inside its own, so the server's operations are single actions
  of its own.
\<close>

section \<open>The server's mutex\<close>

datatype ('key, 's) serverCall = CallServerStart "('key, 's) sshEnv" | CallServerStop "('key, 's) sshEnv"

text \<open>The positions in \<open>Start\<close> and \<open>Stop\<close>, named by what comes next.\<close>

datatype ('key, 's) serverLoc =
    CheckStarted "('key, 's) sshEnv"
  | ReadKey "('key, 's) sshEnv"
  | AddKey "('key, 's) sshEnv" 's
  | LogKey "('key, 's) sshEnv"
  | ListenOn "('key, 's) sshEnv"
  | SetListener string
  | SetStarted string
  | LogListening string
  | CheckRunning "('key, 's) sshEnv"
  | ClearStarted "('key, 's) sshEnv"
  | CloseListener "('key, 's) sshEnv"
  | CloseServer "('key, 's) sshEnv"

fun serverEnter :: "('key, 's) serverCall \<Rightarrow> ('key, 's) serverLoc" where
  "serverEnter (CallServerStart E) = CheckStarted E"
| "serverEnter (CallServerStop E) = CheckRunning E"

fun serverAct ::
    "('key, 's) serverLoc \<Rightarrow> netw \<times> ('k, 's) relayServer
       \<Rightarrow> (('key, 's) serverLoc + goerr option) \<times> netw \<times> ('k, 's) relayServer" where
  "serverAct (CheckStarted E) (w, s) =
     (if rsStarted s then (Inr (Some (Msg [Txt ''sshserver: already started''])), w, s) else (Inl (ReadKey E), w, s))"
| "serverAct (ReadKey E) (w, s) =
     (case hostKeyOf E (nwFS w) (oHostKeyPath (rsOpts s)) of
        (Inl err, fs) \<Rightarrow> (Inr (Some err), w\<lparr>nwFS := fs\<rparr>, s)
      | (Inr signer, fs) \<Rightarrow> (Inl (AddKey E signer), w\<lparr>nwFS := fs\<rparr>, s))"
| "serverAct (AddKey E signer) (w, s) =
     (Inl (LogKey E), w, s\<lparr>rsServer := (rsServer s)\<lparr>svHostKeys := svHostKeys (rsServer s) @ [signer]\<rparr>\<rparr>)"
| "serverAct (LogKey E) (w, s) =
     (Inl (ListenOn E), logTo (logInfo ''host key ready'' [(''path'', LStr (oHostKeyPath (rsOpts s)))]) w, s)"
| "serverAct (ListenOn E) (w, s) =
     (case seListen E (nwOpen w) (oAddr (rsOpts s)) of
        Inl err \<Rightarrow> (Inr (Some (Wrapped [Txt (''listen '' @ oAddr (rsOpts s))] err)), w, s)
      | Inr ln \<Rightarrow> (Inl (SetListener ln), w\<lparr>nwOpen := nwOpen w @ [ln]\<rparr>, s))"
| "serverAct (SetListener ln) (w, s) = (Inl (SetStarted ln), w, s\<lparr>rsListener := Some ln\<rparr>)"
| "serverAct (SetStarted ln) (w, s) = (Inl (LogListening ln), w, s\<lparr>rsStarted := True\<rparr>)"
| "serverAct (LogListening ln) (w, s) = (Inr None, logTo (logInfo ''ssh server listening'' [(''addr'', LStr ln)]) w, s)"
| "serverAct (CheckRunning E) (w, s) =
     (if \<not> rsStarted s then (Inr None, w, s) else (Inl (ClearStarted E), w, s))"
| "serverAct (ClearStarted E) (w, s) = (Inl (CloseListener E), w, s\<lparr>rsStarted := False\<rparr>)"
| "serverAct (CloseListener E) (w, s) =
     (Inl (CloseServer E), case rsListener s of None \<Rightarrow> w | Some ln \<Rightarrow> w\<lparr>nwOpen := remove1 ln (nwOpen w)\<rparr>, s)"
| "serverAct (CloseServer E) (w, s) = (Inr (seClose E), w, s)"

definition serverBody :: "(('key, 's) serverLoc, netw \<times> ('k, 's) relayServer, goerr option) body" where
  "serverBody l sh = Some (serverAct l sh)"

fun serverAtomic ::
    "('key, 's) serverCall \<Rightarrow> netw \<times> ('k, 's) relayServer \<Rightarrow> (goerr option \<times> netw \<times> ('k, 's) relayServer) option" where
  "serverAtomic (CallServerStart E) (w, s) = Some (serverStart E w s)"
| "serverAtomic (CallServerStop E) (w, s) = Some (serverStop E w s)"

text \<open>The other goroutines, of sessions and of the accept loop, log; all but the log is observed.\<close>

definition serverNoise :: "(netw \<times> ('k, 's) relayServer \<Rightarrow> netw \<times> ('k, 's) relayServer) set" where
  "serverNoise = range (\<lambda>rs (w, s). (fold logTo rs w, s))"

definition serverView :: "netw \<times> ('k, 's) relayServer \<Rightarrow> fsys \<times> string list \<times> ('k, 's) relayServer" where
  "serverView = (\<lambda>(w, s). (nwFS w, nwOpen w, s))"

lemma serverBody_finishes:
  "finishes serverBody l sh r sh' \<longleftrightarrow>
     (case serverAct l sh of
        (Inl l', sh1) \<Rightarrow> finishes serverBody l' sh1 r sh'
      | (Inr r', sh1) \<Rightarrow> r = r' \<and> sh' = sh1)"
  by (subst finishes_unfold) (simp add: serverBody_def split: prod.split)

lemmas server_runs =
  serverBody_finishes[of "CheckStarted E" "(w, s)" for E w s] serverBody_finishes[of "ReadKey E" "(w, s)" for E w s]
  serverBody_finishes[of "AddKey E k" "(w, s)" for E k w s] serverBody_finishes[of "LogKey E" "(w, s)" for E w s]
  serverBody_finishes[of "ListenOn E" "(w, s)" for E w s] serverBody_finishes[of "SetListener ln" "(w, s)" for ln w s]
  serverBody_finishes[of "SetStarted ln" "(w, s)" for ln w s] serverBody_finishes[of "LogListening ln" "(w, s)" for ln w s]
  serverBody_finishes[of "CheckRunning E" "(w, s)" for E w s] serverBody_finishes[of "ClearStarted E" "(w, s)" for E w s]
  serverBody_finishes[of "CloseListener E" "(w, s)" for E w s] serverBody_finishes[of "CloseServer E" "(w, s)" for E w s]

lemma server_finishes_start:
  "finishes serverBody (CheckStarted E) (w, s) r sh' \<longleftrightarrow> serverStart E w s = (r, sh')"
  by (auto simp: server_runs serverStart_def Let_def split: sum.split prod.split)

lemma server_finishes_stop:
  "finishes serverBody (CheckRunning E) (w, s) r sh' \<longleftrightarrow> serverStop E w s = (r, sh')"
  by (auto simp: server_runs serverStop_def Let_def split: option.split)

lemma serverAct_sees:
  assumes "serverAct l (w, s) = (c, w', s')" and "nwFS w = nwFS w2" and "nwOpen w = nwOpen w2"
  shows "\<exists>w2'. serverAct l (w2, s) = (c, w2', s') \<and> nwFS w2' = nwFS w' \<and> nwOpen w2' = nwOpen w'"
  using assms by (cases l) (auto split: if_splits sum.splits prod.splits option.splits)

lemma server_laws:
  "f \<in> serverNoise \<Longrightarrow> serverView (f sh) = serverView sh"
  "serverBody l a = Some (c, a') \<Longrightarrow> serverView a = serverView b \<Longrightarrow> \<exists>b'. serverBody l b = Some (c, b') \<and> serverView b' = serverView a'"
  "finishes serverBody (serverEnter op') sh r sh' \<longleftrightarrow> serverAtomic op' sh = Some (r, sh')"
proof -
  show "f \<in> serverNoise \<Longrightarrow> serverView (f sh) = serverView sh"
    by (cases sh) (auto simp: serverNoise_def serverView_def)
  show "serverBody l a = Some (c, a') \<Longrightarrow> serverView a = serverView b \<Longrightarrow> \<exists>b'. serverBody l b = Some (c, b') \<and> serverView b' = serverView a'"
    by (cases a; cases a'; cases b) (auto simp: serverBody_def serverView_def dest: serverAct_sees)
  show "finishes serverBody (serverEnter op') sh r sh' \<longleftrightarrow> serverAtomic op' sh = Some (r, sh')"
    by (cases op'; cases sh) (simp_all add: server_finishes_start server_finishes_stop)
qed

interpretation smu: serialisable serverEnter serverBody serverNoise serverAtomic serverView
  by unfold_locales (fact server_laws)+

section \<open>The program's mutex\<close>

datatype ('key, 'k, 's) progCall = CallStart "('key, 'k, 's) progEnv" | CallStop "('key, 'k, 's) progEnv"

datatype ('key, 'k, 's) progLoc =
    CheckSrv "('key, 'k, 's) progEnv"
  | LoadConfig "('key, 'k, 's) progEnv"
  | OpenLog "('key, 'k, 's) progEnv" config
  | SetLogger "('key, 'k, 's) progEnv" config logHandler "string option"
  | KeepCloser "('key, 'k, 's) progEnv" config "string option"
  | PickDir "('key, 'k, 's) progEnv" config
  | LogSettings "('key, 'k, 's) progEnv" config string
  | LoadKeys "('key, 'k, 's) progEnv" config string
  | BuildServer "('key, 'k, 's) progEnv" config string auth
  | StartServer "('key, 'k, 's) progEnv" config "('k, 's) relayServer"
  | KeepServer "('key, 'k, 's) progEnv" config "('k, 's) relayServer"
  | Announce "('key, 'k, 's) progEnv" config string
  | LogShutdown "('key, 'k, 's) progEnv"
  | StopServer "('key, 'k, 's) progEnv" "('k, 's) relayServer"
  | DropServer "('key, 'k, 's) progEnv" "goerr option"
  | CloseLog "goerr option"
  | DropCloser "goerr option"

fun progEnter :: "('key, 'k, 's) progCall \<Rightarrow> ('key, 'k, 's) progLoc" where
  "progEnter (CallStart E) = CheckSrv E"
| "progEnter (CallStop E) = LogShutdown E"

fun progBody :: "(('key, 'k, 's) progLoc, world \<times> ('k, 's) program, goerr option) body" where
  "progBody (CheckSrv E) (w, p) = Some
     (if pgSrv p \<noteq> None then (Inr (Some (Msg [Txt ''termcp-relay: service already started''])), w, p)
      else (Inl (LoadConfig E), w, p))"
| "progBody (LoadConfig E) (w, p) = Some
     (case Load (hPaths (peHost E)) (peDecode E) (nwFS (wNet w)) (opConfigPath (pgOpts p)) of
        Inl err \<Rightarrow> (Inr (Some (Wrapped [Txt ''load config '', Quoted (opConfigPath (pgOpts p))] err)), w, p)
      | Inr cfg \<Rightarrow> (Inl (OpenLog E cfg), w, p))"
| "progBody (OpenLog E cfg) (w, p) = Some
     (let level = (if TrimSpace (opLogLevel (pgOpts p)) \<noteq> [] then TrimSpace (opLogLevel (pgOpts p))
                   else scLogLevel (cServer cfg)) in
      case newLogHandler (hPaths (peHost E)) (nwFS (wNet w)) level (opLogFile (pgOpts p)) of
        (Inl err, fs) \<Rightarrow> (Inr (Some err), w\<lparr>wNet := (wNet w)\<lparr>nwFS := fs\<rparr>\<rparr>, p)
      | (Inr (handler, closer), fs) \<Rightarrow>
          (Inl (SetLogger E cfg handler closer),
           w\<lparr>wNet := (wNet w)\<lparr>nwFS := fs\<rparr>, wLogs := wLogs w @ (case closer of None \<Rightarrow> [] | Some f \<Rightarrow> [f])\<rparr>, p))"
| "progBody (SetLogger E cfg handler closer) (w, p) = Some
     (Inl (KeepCloser E cfg closer), w\<lparr>wNet := (wNet w)\<lparr>nwSlog := slogSetDefault handler (nwSlog (wNet w))\<rparr>\<rparr>, p)"
| "progBody (KeepCloser E cfg closer) (w, p) = Some (Inl (PickDir E cfg), w, p\<lparr>pgLogCloser := closer\<rparr>)"
| "progBody (PickDir E cfg) (w, p) = Some
     (Inl (LogSettings E cfg (resolveWorkDir (peHost E) (nwFS (wNet w)) (pgOpts p) cfg)), w, p)"
| "progBody (LogSettings E cfg workDir) (w, p) = Some
     (Inl (LoadKeys E cfg workDir), logW (startRecord (startSummaryOf (hPaths (peHost E)) (pgOpts p) cfg workDir)) w, p)"
| "progBody (LoadKeys E cfg workDir) (w, p) =
     (case LoadAuthorizedKeys (peParseKey E) (peMarshal E) (nwFS (wNet w)) (configAuth cfg)
             (acAuthorizedKeys (cAuth cfg)) of
        None \<Rightarrow> None
      | Some (Some err, a) \<Rightarrow>
          Some (Inr (Some (Wrapped [Txt ''load authorized_keys '', Quoted (acAuthorizedKeys (cAuth cfg))] err)), w, p)
      | Some (None, a) \<Rightarrow> Some (Inl (BuildServer E cfg workDir a), w, p))"
| "progBody (BuildServer E cfg workDir a) (w, p) = Some
     (case New (peMarshal E) (peAllocPty E) (configSSH cfg a workDir) of
        Inl err \<Rightarrow> (Inr (Some (Wrapped [Txt ''build ssh server''] err)), w, p)
      | Inr srv \<Rightarrow> (Inl (StartServer E cfg srv), w, p))"
| "progBody (StartServer E cfg srv) (w, p) = Some
     (case serverStart (peSSH E) (wNet w) srv of
        (Some err, n, srv') \<Rightarrow> (Inr (Some err), w\<lparr>wNet := n\<rparr>, p)
      | (None, n, srv') \<Rightarrow> (Inl (KeepServer E cfg srv'), w\<lparr>wNet := n\<rparr>, p))"
| "progBody (KeepServer E cfg srv) (w, p) = Some (Inl (Announce E cfg (serverAddr srv)), w, p\<lparr>pgSrv := Some srv\<rparr>)"
| "progBody (Announce E cfg bound) (w, p) = Some (Inr None, announce E cfg bound w, p)"
| "progBody (LogShutdown E) (w, p) = Some
     (case pgSrv p of
        None \<Rightarrow> (Inl (CloseLog None), w, p)
      | Some srv \<Rightarrow> (Inl (StopServer E srv), logW (logInfo ''shutting down'' []) w, p))"
| "progBody (StopServer E srv) (w, p) = Some
     (case serverStop (peSSH E) (wNet w) srv of
        (err, n, srv') \<Rightarrow>
          (Inl (DropServer E (case err of None \<Rightarrow> None | Some e \<Rightarrow> if errors_Is e ErrClosed then None else Some e)),
           w\<lparr>wNet := n\<rparr>, p))"
| "progBody (DropServer E stopErr) (w, p) = Some (Inl (CloseLog stopErr), w, p\<lparr>pgSrv := None\<rparr>)"
| "progBody (CloseLog stopErr) (w, p) = Some
     (case pgLogCloser p of
        None \<Rightarrow> (Inr stopErr, w, p)
      | Some f \<Rightarrow> (Inl (DropCloser stopErr), w\<lparr>wLogs := remove1 f (wLogs w)\<rparr>, p))"
| "progBody (DropCloser stopErr) (w, p) = Some (Inr stopErr, w, p\<lparr>pgLogCloser := None\<rparr>)"

fun progAtomic ::
    "('key, 'k, 's) progCall \<Rightarrow> world \<times> ('k, 's) program \<Rightarrow> (goerr option \<times> world \<times> ('k, 's) program) option" where
  "progAtomic (CallStart E) (w, p) = programStart E w p"
| "progAtomic (CallStop E) (w, p) = Some (programStop E w p)"

definition progNoise :: "(world \<times> ('k, 's) program \<Rightarrow> world \<times> ('k, 's) program) set" where
  "progNoise = range (\<lambda>rs (w, p). (fold logW rs w, p))"

definition worldView :: "world \<Rightarrow> fsys \<times> string list \<times> logHandler \<times> string list" where
  "worldView w = (nwFS (wNet w), nwOpen (wNet w), slHandler (nwSlog (wNet w)), wLogs w)"

definition progView :: "world \<times> ('k, 's) program \<Rightarrow> (fsys \<times> string list \<times> logHandler \<times> string list) \<times> ('k, 's) program" where
  "progView = (\<lambda>(w, p). (worldView w, p))"

lemma fold_logW_view [simp]: "worldView (fold logW rs w) = worldView w"
  by (induction rs arbitrary: w) (simp_all add: worldView_def logW_def)

lemma progBody_finishes:
  "finishes progBody l sh r sh' \<longleftrightarrow>
     (case progBody l sh of
        None \<Rightarrow> False
      | Some (Inl l', sh1) \<Rightarrow> finishes progBody l' sh1 r sh'
      | Some (Inr r', sh1) \<Rightarrow> r = r' \<and> sh' = sh1)"
  by (rule finishes_unfold)

lemmas boot_runs =
  progBody_finishes[of "LoadKeys E cfg d" "(w, p)" for E cfg d w p]
  progBody_finishes[of "BuildServer E cfg d a" "(w, p)" for E cfg d a w p]
  progBody_finishes[of "StartServer E cfg srv" "(w, p)" for E cfg srv w p]
  progBody_finishes[of "KeepServer E cfg srv" "(w, p)" for E cfg srv w p]
  progBody_finishes[of "Announce E cfg bound" "(w, p)" for E cfg bound w p]

lemma boot_finishes:
  "finishes progBody (LoadKeys E cfg d) (w, p) r sh' \<longleftrightarrow> bootServer E cfg d w p = Some (r, sh')"
  by (auto simp: boot_runs bootServer_def split: option.split sum.split prod.split)

lemmas start_runs =
  progBody_finishes[of "CheckSrv E" "(w, p)" for E w p] progBody_finishes[of "LoadConfig E" "(w, p)" for E w p]
  progBody_finishes[of "OpenLog E cfg" "(w, p)" for E cfg w p]
  progBody_finishes[of "SetLogger E cfg h c" "(w, p)" for E cfg h c w p]
  progBody_finishes[of "KeepCloser E cfg c" "(w, p)" for E cfg c w p]
  progBody_finishes[of "PickDir E cfg" "(w, p)" for E cfg w p]
  progBody_finishes[of "LogSettings E cfg d" "(w, p)" for E cfg d w p]

lemma world_updates: "w\<lparr>wLogs := a, wNet := b\<rparr> = w\<lparr>wNet := b, wLogs := a\<rparr>" for w :: world
  by simp

lemma prog_finishes_start:
  "finishes progBody (CheckSrv E) (w, p) r sh' \<longleftrightarrow> programStart E w p = Some (r, sh')"
  by (auto simp: start_runs boot_finishes programStart_def world_updates Let_def split: option.split sum.split prod.split)

lemmas stop_runs =
  progBody_finishes[of "LogShutdown E" "(w, p)" for E w p] progBody_finishes[of "StopServer E s" "(w, p)" for E s w p]
  progBody_finishes[of "DropServer E e" "(w, p)" for E e w p] progBody_finishes[of "CloseLog e" "(w, p)" for e w p]
  progBody_finishes[of "DropCloser e" "(w, p)" for e w p]

lemma prog_finishes_stop:
  "finishes progBody (LogShutdown E) (w, p) r sh' \<longleftrightarrow> programStop E w p = (r, sh')"
  by (auto simp: stop_runs programStop_def Let_def split: option.split prod.split)

text \<open>No action looks at what has been logged.\<close>

lemma serverStart_sees:
  assumes "serverStart E n s = (e, n', s')" and "nwFS n = nwFS n2" and "nwOpen n = nwOpen n2"
  shows "\<exists>n2'. serverStart E n2 s = (e, n2', s') \<and> nwFS n2' = nwFS n' \<and> nwOpen n2' = nwOpen n'
     \<and> slHandler (nwSlog n2') = slHandler (nwSlog n2)"
  using assms by (auto simp: serverStart_def Let_def split: if_splits sum.splits prod.splits)

lemma serverStart_handler: "serverStart E n s = (e, n', s') \<Longrightarrow> slHandler (nwSlog n') = slHandler (nwSlog n)"
  by (auto simp: serverStart_def Let_def split: if_splits sum.splits prod.splits)

lemma serverStop_sees:
  assumes "serverStop E n s = (e, n', s')" and "nwFS n = nwFS n2" and "nwOpen n = nwOpen n2"
  shows "\<exists>n2'. serverStop E n2 s = (e, n2', s') \<and> nwFS n2' = nwFS n' \<and> nwOpen n2' = nwOpen n'
     \<and> slHandler (nwSlog n2') = slHandler (nwSlog n2)"
  using assms by (auto simp: serverStop_def Let_def split: if_splits option.splits)

lemma serverStop_handler: "serverStop E n s = (e, n', s') \<Longrightarrow> slHandler (nwSlog n') = slHandler (nwSlog n)"
  by (auto simp: serverStop_def Let_def split: if_splits option.splits)

lemma announce_view: "worldView (announce E cfg bound w) = worldView w"
  by (simp add: worldView_def)

lemma progBody_sees:
  assumes "progBody l (w, p) = Some (c, w', p')" and "worldView w = worldView w2"
  shows "\<exists>w2'. progBody l (w2, p) = Some (c, w2', p') \<and> worldView w2' = worldView w'"
proof (cases "\<exists>E cfg srv. l = StartServer E cfg srv \<or> l = StopServer E srv")
  case True
  then consider (1) E cfg srv where "l = StartServer E cfg srv" | (2) E srv where "l = StopServer E srv" by blast
  then show ?thesis
  proof cases
    case 1
    obtain e n s where st: "serverStart (peSSH E) (wNet w) srv = (e, n, s)" by (metis prod_cases3)
    with serverStart_sees[OF st] assms(2) obtain n2 where "serverStart (peSSH E) (wNet w2) srv = (e, n2, s)"
        "nwFS n2 = nwFS n" "nwOpen n2 = nwOpen n" "slHandler (nwSlog n2) = slHandler (nwSlog (wNet w2))"
      by (auto simp: worldView_def)
    with 1 st serverStart_handler[OF st] assms show ?thesis by (cases e) (auto simp: worldView_def)
  next
    case 2
    obtain e n s where st: "serverStop (peSSH E) (wNet w) srv = (e, n, s)" by (metis prod_cases3)
    with serverStop_sees[OF st] assms(2) obtain n2 where "serverStop (peSSH E) (wNet w2) srv = (e, n2, s)"
        "nwFS n2 = nwFS n" "nwOpen n2 = nwOpen n" "slHandler (nwSlog n2) = slHandler (nwSlog (wNet w2))"
      by (auto simp: worldView_def)
    with 2 st serverStop_handler[OF st] assms show ?thesis by (auto simp: worldView_def)
  qed
next
  case False
  with assms show ?thesis
    by (cases l) (auto simp: worldView_def Let_def split: if_splits option.splits sum.splits prod.splits)
qed

lemma prog_laws:
  "f \<in> progNoise \<Longrightarrow> progView (f sh) = progView sh"
  "progBody l a = Some (c, a') \<Longrightarrow> progView a = progView b \<Longrightarrow> \<exists>b'. progBody l b = Some (c, b') \<and> progView b' = progView a'"
  "finishes progBody (progEnter op') sh r sh' \<longleftrightarrow> progAtomic op' sh = Some (r, sh')"
proof -
  show "f \<in> progNoise \<Longrightarrow> progView (f sh) = progView sh"
    by (cases sh) (auto simp: progNoise_def progView_def)
  show "progBody l a = Some (c, a') \<Longrightarrow> progView a = progView b \<Longrightarrow> \<exists>b'. progBody l b = Some (c, b') \<and> progView b' = progView a'"
    by (cases a; cases a'; cases b) (auto simp: progView_def dest: progBody_sees)
  show "finishes progBody (progEnter op') sh r sh' \<longleftrightarrow> progAtomic op' sh = Some (r, sh')"
    by (cases op'; cases sh) (simp_all add: prog_finishes_start prog_finishes_stop)
qed

interpretation pmu: serialisable progEnter progBody progNoise progAtomic progView
  by unfold_locales (fact prog_laws)+

section \<open>Serial calls\<close>

definition serverCalls :: "('key, 's) sshEnv \<Rightarrow> ('key, 's) serverCall set" where
  "serverCalls E = {CallServerStart (E\<lparr>seGen := g, sePem := pem, seListen := l\<rparr>) | g pem l. True}
     \<union> {CallServerStop (E\<lparr>seClose := c\<rparr>) | c. True}"

definition progCalls :: "('key, 'k, 's) progEnv set \<Rightarrow> ('key, 'k, 's) progCall set" where
  "progCalls Es = CallStart ` Es \<union> CallStop ` Es"

abbreviation calledIn :: "(nat \<times> 'op \<times> 'res) list \<Rightarrow> 'op set" where
  "calledIn h \<equiv> (fst \<circ> snd) ` set h"

lemma serial_srv_reach:
  assumes "serial serverAtomic sh0 h sh" and "calledIn h \<subseteq> serverCalls E"
  shows "srv_reach E (fst sh0) (snd sh0) (fst sh) (snd sh)"
  using assms
proof induction
  case none
  show ?case by (rule srv_reach.built)
next
  case (one_more h sh op' r sh' i)
  then have r: "srv_reach E (fst sh0) (snd sh0) (fst sh) (snd sh)" and o: "op' \<in> serverCalls E" by auto
  obtain w s w' s' where sh: "sh = (w, s)" "sh' = (w', s')" by fastforce
  from o consider g pem l where "op' = CallServerStart (E\<lparr>seGen := g, sePem := pem, seListen := l\<rparr>)"
    | c where "op' = CallServerStop (E\<lparr>seClose := c\<rparr>)" by (auto simp: serverCalls_def)
  then show ?case
  proof cases
    case 1
    with one_more.hyps(2) sh have "serverStart (E\<lparr>seGen := g, sePem := pem, seListen := l\<rparr>) w s = (r, w', s')" by simp
    from srv_reach.start[OF _ this] r show ?thesis by (simp add: sh)
  next
    case 2
    with one_more.hyps(2) sh have "serverStop (E\<lparr>seClose := c\<rparr>) w s = (r, w', s')" by simp
    from srv_reach.stop[OF _ this] r show ?thesis by (simp add: sh)
  qed
qed

lemma serial_prog_reach:
  assumes "serial progAtomic sh0 h sh" and "calledIn h \<subseteq> progCalls Es"
  shows "prog_reach Es (fst sh0) (snd sh0) (fst sh) (snd sh)"
  using assms
proof induction
  case none
  show ?case by (rule prog_reach.fresh)
next
  case (one_more h sh op' r sh' i)
  then have r: "prog_reach Es (fst sh0) (snd sh0) (fst sh) (snd sh)" and o: "op' \<in> progCalls Es" by auto
  obtain w p w' p' where sh: "sh = (w, p)" "sh' = (w', p')" by fastforce
  from o consider E where "op' = CallStart E" "E \<in> Es" | E where "op' = CallStop E" "E \<in> Es" by (auto simp: progCalls_def)
  then show ?case
  proof cases
    case 1
    with one_more.hyps(2) sh have "programStart E w p = Some (r, w', p')" by simp
    from prog_reach.start[OF _ 1(2) this] r show ?thesis by (simp add: sh)
  next
    case 2
    with one_more.hyps(2) sh have "programStop E w p = (r, w', p')" by simp
    from prog_reach.stop[OF _ 2(2) this] r show ?thesis by (simp add: sh)
  qed
qed

text \<open>Whether the relay runs after a series of calls, by their results alone.\<close>

fun runsAfter :: "bool \<Rightarrow> (nat \<times> ('key, 'k, 's) progCall \<times> goerr option) list \<Rightarrow> bool" where
  "runsAfter b [] = b"
| "runsAfter b ((i, CallStart E, r) # h) = runsAfter (b \<or> r = None) h"
| "runsAfter b ((i, CallStop E, r) # h) = runsAfter False h"

lemma runsAfter_append [simp]: "runsAfter b (h1 @ h2) = runsAfter (runsAfter b h1) h2"
  by (induction b h1 rule: runsAfter.induct) simp_all

lemma programStart_srv:
  assumes "programStart E w p = Some (err, w', p')"
  shows "if err = None then pgSrv p = None \<and> pgSrv p' \<noteq> None else pgSrv p' = pgSrv p"
proof (cases err)
  case None
  from programStart_ok[OF assms[unfolded None]] None show ?thesis by (metis option.distinct(1))
next
  case (Some e)
  from assms show ?thesis
  proof (cases rule: programStart_cases)
    case (boot cfg fs' closer handler)
    from boot(5) Some show ?thesis by (cases rule: bootServer_cases) auto
  qed (use Some in auto)
qed

lemma serial_runsAfter:
  assumes "serial progAtomic (w0, freshProgram o') h sh"
  shows "(pgSrv (snd sh) \<noteq> None \<longleftrightarrow> runsAfter False h)
    \<and> (\<forall>h1 i E h2. h = h1 @ (i, CallStart E, None) # h2 \<longrightarrow> \<not> runsAfter False h1)"
  using assms
proof induction
  case none
  show ?case by simp
next
  case (one_more h sh op' r sh' i)
  obtain w p w' p' where sh: "sh = (w, p)" "sh' = (w', p')" by fastforce
  show ?case
  proof (cases op')
    case (CallStart E)
    with one_more.hyps(2) sh have st: "programStart E w p = Some (r, w', p')" by simp
    from programStart_srv[OF this] one_more.IH show ?thesis
      by (auto simp: sh CallStart append_eq_append_conv2 append_eq_Cons_conv Cons_eq_append_conv split: if_splits)
  next
    case (CallStop E)
    with one_more.hyps(2) sh have "programStop E w p = (r, w', p')" by simp
    from programStop_parts[OF this] one_more.IH show ?thesis
      by (auto simp: sh CallStop append_eq_append_conv2 append_eq_Cons_conv Cons_eq_append_conv)
  qed
qed

lemma serverAtomic_total: "serverAtomic c sh \<noteq> None"
  by (cases c; cases sh) simp_all

lemma prog_history:
  assumes "mutex_reach progEnter progBody progNoise (progCalls Es) (w0, freshProgram o') g"
  obtains sh where "serial progAtomic (w0, freshProgram o') (lkHistory g) sh" "pmu.holderOK g sh"
    "calledIn (lkHistory g) \<subseteq> progCalls Es"
  using pmu.reach_lockOK[OF assms] reach_calls[OF assms] by (auto simp: pmu.lockOK_def)

section \<open>Properties\<close>

text \<open>C16: Any number of goroutines may call \<open>Start\<close> and \<open>Stop\<close> of one program while others log, the
  actions of all of them interleaved at will: one at most is inside, every call returns
  what the atomic \<open>Start\<close> or \<open>Stop\<close> returns when the calls are made one after the other in the
  order in which they let go, so that no two starts succeed without a stop in between; and
  whenever nobody is inside, the relay is in a state that such calls reach, runs exactly if
  the results say so, and then holds the one listener. No call is stuck inside for good, if
  the key parser consumes its input.\<close>
theorem relay_calls_serialise:
  assumes "mutex_reach progEnter progBody progNoise (progCalls Es) (w0, freshProgram o') g"
  shows "(busy (lkThreads g i) \<and> busy (lkThreads g j) \<longrightarrow> i = j)
    \<and> (\<exists>sh. serial progAtomic (w0, freshProgram o') (lkHistory g) sh)
    \<and> (lkThreads g i = Back r \<longrightarrow> (\<exists>c. (i, c, r) \<in> set (lkHistory g)))
    \<and> (lkHistory g = h1 @ (k, CallStart E, None) # h2 \<longrightarrow> \<not> runsAfter False h1)
    \<and> (lkHolder g = None \<longrightarrow> (let (w, p) = lkShared g in
         (pgSrv p \<noteq> None \<longleftrightarrow> runsAfter False (lkHistory g))
         \<and> mset (nwOpen (wNet w)) = mset (nwOpen (wNet w0)) + (case pgSrv p of None \<Rightarrow> {#} | Some s \<Rightarrow> {#serverAddr s#})
         \<and> (\<exists>w1. prog_reach Es w0 (freshProgram o') w1 p \<and> worldView w1 = worldView w)))
    \<and> ((\<forall>E \<in> Es. consumes (peParseKey E)) \<longrightarrow> (\<exists>g'. (call_step progEnter progBody)\<^sup>*\<^sup>* g g' \<and> lkHolder g' = None))"
proof (intro conjI impI)
  obtain sh where sh: "serial progAtomic (w0, freshProgram o') (lkHistory g) sh" "pmu.holderOK g sh"
      "calledIn (lkHistory g) \<subseteq> progCalls Es" using prog_history[OF assms] .
  then show "\<exists>sh. serial progAtomic (w0, freshProgram o') (lkHistory g) sh" by blast
  show "busy (lkThreads g i) \<and> busy (lkThreads g j) \<Longrightarrow> i = j" using pmu.one_inside[OF assms] by blast
  show "lkThreads g i = Back r \<Longrightarrow> \<exists>c. (i, c, r) \<in> set (lkHistory g)" by (rule pmu.result_in_history[OF assms])
  note runs = serial_runsAfter[OF sh(1)]
  then show "lkHistory g = h1 @ (k, CallStart E, None) # h2 \<Longrightarrow> \<not> runsAfter False h1" by blast
  obtain w1 p1 where s1: "sh = (w1, p1)" by fastforce
  have reach: "prog_reach Es w0 (freshProgram o') w1 p1" using serial_prog_reach[OF sh(1,3)] by (simp add: s1)
  have held: "progOK w0 w1 p1" by (rule prog_reach_OK[OF reach]) simp
  show "let (w, p) = lkShared g in (pgSrv p \<noteq> None \<longleftrightarrow> runsAfter False (lkHistory g))
         \<and> mset (nwOpen (wNet w)) = mset (nwOpen (wNet w0)) + (case pgSrv p of None \<Rightarrow> {#} | Some s \<Rightarrow> {#serverAddr s#})
         \<and> (\<exists>w1. prog_reach Es w0 (freshProgram o') w1 p \<and> worldView w1 = worldView w)" if "lkHolder g = None"
  proof -
    obtain w p where w: "lkShared g = (w, p)" by fastforce
    have "progView (lkShared g) = progView sh" using sh(2) that by (simp add: pmu.holderOK_def)
    then have v: "p = p1" "worldView w = worldView w1" by (simp_all add: progView_def s1 w)
    with held runs reach show ?thesis
      by (auto simp: w s1 progOK_def heldListener_def worldView_def)
  qed
  assume "\<forall>E \<in> Es. consumes (peParseKey E)"
  then have "progAtomic c sh \<noteq> None" if "c \<in> progCalls Es" for c sh
    using that by (cases sh; cases c) (simp_all add: progCalls_def image_iff programStart_total del: not_None_eq)
  then show "\<exists>g'. (call_step progEnter progBody)\<^sup>*\<^sup>* g g' \<and> lkHolder g' = None"
    by (rule pmu.mutex_becomes_free[OF assms])
qed

text \<open>Two goroutines start the same relay: one of them gets it.\<close>

theorem relay_calls_serialise_witness:
  "\<exists>g r. mutex_reach progEnter progBody progNoise (progCalls {labEnv}) (labWorld, freshProgram labOpts) g
     \<and> lkThreads g 0 = Back None \<and> lkThreads g 1 = Back (Some r) \<and> lkHolder g = None
     \<and> (let (w, p) = lkShared g in pgSrv p \<noteq> None \<and> size (mset (nwOpen (wNet w))) = 1)"
proof -
  obtain w p where st: "programStart labEnv labWorld (freshProgram labOpts) = Some (None, w, p)" using lab_start by blast
  have c: "CallStart labEnv \<in> progCalls {labEnv}" by (simp add: progCalls_def)
  have a: "progAtomic (CallStart labEnv) (lkShared (unlocked (labWorld, freshProgram labOpts))) = Some (None, w, p)"
    using st by (simp add: unlocked_def)
  obtain g1 where g1: "mutex_reach progEnter progBody progNoise (progCalls {labEnv}) (labWorld, freshProgram labOpts) g1"
      "lkHolder g1 = None" "lkThreads g1 = (\<lambda>i. Away)(0 := Back None)" "lkShared g1 = (w, p)"
      "lkHistory g1 = [(0, CallStart labEnv, None)]"
    using pmu.runs_alone[OF mutex_reach.fresh _ c _ a, of 0] by (auto simp: unlocked_def)
  from programStart_srv[OF st] have "pgSrv p \<noteq> None" by simp
  then have "progAtomic (CallStart labEnv) (lkShared g1) = Some (Some (Msg [Txt ''termcp-relay: service already started'']), w, p)"
    by (simp add: g1(4) programStart_def)
  from pmu.runs_alone[OF g1(1,2) c _ this, of 1] g1(3) obtain g2
    where g2: "mutex_reach progEnter progBody progNoise (progCalls {labEnv}) (labWorld, freshProgram labOpts) g2"
      "lkHolder g2 = None" "lkThreads g2 = (lkThreads g1)(1 := Back (Some (Msg [Txt ''termcp-relay: service already started''])))"
      "lkShared g2 = (w, p)" by auto
  have "mset (nwOpen (wNet w)) = (case pgSrv p of None \<Rightarrow> {#} | Some s \<Rightarrow> {#serverAddr s#})"
    using relay_calls_serialise[OF g2(1)] g2(2,4) by (simp add: labWorld_def)
  then have "size (mset (nwOpen (wNet w))) = 1" using \<open>pgSrv p \<noteq> None\<close> by (auto simp del: size_mset)
  with g1(3) g2 \<open>pgSrv p \<noteq> None\<close> show ?thesis by (intro exI[of _ g2] exI) auto
qed

text \<open>C17: The same for the server and its own mutex: whatever goroutines call \<open>Start\<close> and \<open>Stop\<close>,
  whatever a key generation, the network and the library make of each call, and whatever
  the sessions and the accept loop log meanwhile, one goroutine at most is inside, each call
  has the result of the atomic operation in the order in which they let go, and whenever
  nobody is inside the server is in a state such operations reach, with its listener open
  exactly while it is started. Nobody stays inside for good.\<close>
theorem server_calls_serialise:
  assumes "New marshal pty opts = Inr s0"
    and "mutex_reach serverEnter serverBody serverNoise (serverCalls E) (w0, s0) g"
  shows "(busy (lkThreads g i) \<and> busy (lkThreads g j) \<longrightarrow> i = j)
    \<and> (\<exists>sh. serial serverAtomic (w0, s0) (lkHistory g) sh)
    \<and> (lkThreads g i = Back r \<longrightarrow> (\<exists>c. (i, c, r) \<in> set (lkHistory g)))
    \<and> (lkHolder g = None \<longrightarrow> (let (w, s) = lkShared g in
         mset (nwOpen w) = mset (nwOpen w0) + (if rsStarted s then {#serverAddr s#} else {#})
         \<and> (\<exists>w1. srv_reach E w0 s0 w1 s \<and> nwFS w1 = nwFS w \<and> nwOpen w1 = nwOpen w)))
    \<and> (\<exists>g'. (call_step serverEnter serverBody)\<^sup>*\<^sup>* g g' \<and> lkHolder g' = None)"
proof (intro conjI impI)
  obtain sh where sh: "serial serverAtomic (w0, s0) (lkHistory g) sh" "smu.holderOK g sh"
    using smu.reach_lockOK[OF assms(2)] by (auto simp: smu.lockOK_def)
  then show "\<exists>sh. serial serverAtomic (w0, s0) (lkHistory g) sh" by blast
  show "busy (lkThreads g i) \<and> busy (lkThreads g j) \<Longrightarrow> i = j" using smu.one_inside[OF assms(2)] by blast
  show "lkThreads g i = Back r \<Longrightarrow> \<exists>c. (i, c, r) \<in> set (lkHistory g)" by (rule smu.result_in_history[OF assms(2)])
  obtain w1 s1 where s1: "sh = (w1, s1)" by fastforce
  have reach: "srv_reach E w0 s0 w1 s1"
    using serial_srv_reach[OF sh(1)] reach_calls[OF assms(2)] by (simp add: s1)
  show "let (w, s) = lkShared g in
         mset (nwOpen w) = mset (nwOpen w0) + (if rsStarted s then {#serverAddr s#} else {#})
         \<and> (\<exists>w1. srv_reach E w0 s0 w1 s \<and> nwFS w1 = nwFS w \<and> nwOpen w1 = nwOpen w)" if "lkHolder g = None"
  proof -
    obtain w s where w: "lkShared g = (w, s)" by fastforce
    have "serverView (lkShared g) = serverView sh" using sh(2) that by (simp add: smu.holderOK_def)
    then have "nwFS w = nwFS w1" "nwOpen w = nwOpen w1" "s = s1" by (simp_all add: serverView_def s1 w)
    with conjunct1[OF server_listener_invariant[OF assms(1) reach]] reach show ?thesis by (auto simp: w)
  qed
  show "\<exists>g'. (call_step serverEnter serverBody)\<^sup>*\<^sup>* g g' \<and> lkHolder g' = None"
    by (rule smu.mutex_becomes_free[OF assms(2) serverAtomic_total])
qed

theorem server_calls_serialise_witness:
  "\<exists>(s0 :: (string, string) relayServer) g. mutex_reach serverEnter serverBody serverNoise (serverCalls demoEnv) (demoWorld, s0) g
     \<and> lkThreads g 0 = Back None \<and> lkHolder g = None \<and> rsStarted (snd (lkShared g))
     \<and> mset (nwOpen (fst (lkShared g))) = {#''[::1]:631'', ''[::]:40000''#}"
proof -
  have "TrimSpace '':0'' \<noteq> []" by code_simp
  then obtain s0 :: "(string, string) relayServer" where s0: "New (\<lambda>k. k) None demoOpts = Inr s0"
    by (simp add: New_eq demoOpts_def)
  then have i: "\<not> rsStarted s0" "oHostKeyPath (rsOpts s0) = ''k''" "oAddr (rsOpts s0) = '':0''"
    by (auto simp: New_eq demoOpts_def)
  have k: "hostKeyOf demoEnv (nwFS demoWorld) ''k'' = (Inr ''pem'', nwFS demoWorld)"
    by (simp add: hostKeyOf_def demoEnv_def loadOrCreateHostKey_def osReadFile_def bareFS_def)
  have l: "seListen demoEnv a b = Inr ''[::]:40000''" for a b by (simp add: demoEnv_def)
  obtain w s where st: "serverStart demoEnv demoWorld s0 = (None, w, s)" "rsStarted s" "serverAddr s = ''[::]:40000''"
    using i k by (simp add: serverStart_def l Let_def serverAddr_def)
  have c: "CallServerStart demoEnv \<in> serverCalls demoEnv"
  proof -
    have "demoEnv = demoEnv\<lparr>seGen := seGen demoEnv, sePem := sePem demoEnv, seListen := seListen demoEnv\<rparr>" by simp
    then show ?thesis unfolding serverCalls_def by blast
  qed
  have a: "serverAtomic (CallServerStart demoEnv) (lkShared (unlocked (demoWorld, s0))) = Some (None, w, s)"
    using st by (simp add: unlocked_def)
  let ?u = "unlocked (demoWorld, s0) :: ((nat, string) serverCall, (nat, string) serverLoc, goerr option, _) locked"
  have u: "lkHolder ?u = None" "lkThreads ?u 0 = Away \<or> lkThreads ?u 0 = Back None" by (simp_all add: unlocked_def)
  obtain g where g': "mutex_reach serverEnter serverBody serverNoise (serverCalls demoEnv) (demoWorld, s0) g"
      "lkHolder g = None" "lkThreads g = (lkThreads ?u)(0 := Back None)" "lkShared g = (w, s)"
    by (rule smu.runs_alone[OF mutex_reach.fresh u(1) c u(2) a])
  then have g: "mutex_reach serverEnter serverBody serverNoise (serverCalls demoEnv) (demoWorld, s0) g"
      "lkHolder g = None" "lkThreads g 0 = Back None" "lkShared g = (w, s)" by simp_all
  have "let (w, s) = lkShared g in mset (nwOpen w) = mset (nwOpen demoWorld) + (if rsStarted s then {#serverAddr s#} else {#})
      \<and> (\<exists>w1. srv_reach demoEnv demoWorld s0 w1 s \<and> nwFS w1 = nwFS w \<and> nwOpen w1 = nwOpen w)"
    using server_calls_serialise[OF s0 g(1)] g(2) by blast
  then have "mset (nwOpen w) = {#''[::1]:631'', ''[::]:40000''#}" by (simp add: g(4) st(2,3))
  with g st(2) show ?thesis by (intro exI[of _ s0] exI[of _ g]) simp
qed

end
