(* ===== verification/Relay_Main.thy ===== *)
theory Relay_Main
  imports Relay_Cli_Facts Relay_Program_Facts Relay_Options_Facts Relay_Text
begin

text \<open>
  \<open>main.go\<close>: the subcommands, \<open>init\<close>, and the daemon. A run ends with an exit code, or not
  at all (\<open>None\<close>). The service manager's \<open>Run\<close>, which calls \<open>Start\<close> and \<open>Stop\<close> of the program
  it is given, belongs to the library \<open>kardianos/service\<close> and is a parameter.
\<close>

section \<open>The process\<close>

datatype mainMsg =
    MUsage
  | MFlagsRefused "string list"
  | MVersion
  | MInitExists string
  | MInitError goerr
  | MWrote string
  | MServiceError goerr
  | MRunError goerr

record mainState =
  maWorld :: world
  maIn :: stdinState
  maHist :: svcHistory
  maNotes :: "message list"
  maOut :: "mainMsg list"

record ('key, 'k, 's, 'sid) mainEnv =
  meProg :: "('key, 'k, 's) progEnv"
  meCli :: "'sid cliEnv"
  meRun :: "kConfig \<Rightarrow> options \<Rightarrow> world \<Rightarrow> (goerr option \<times> world) option"

text \<open>The texts; \<open>version\<close> is set when the program is linked.\<close>

fun mainText :: "'sid cliEnv \<Rightarrow> string \<Rightarrow> mainMsg \<Rightarrow> string" where
  "mainText C version MUsage = mainUsage"
| "mainText C version (MFlagsRefused args) = ceFlagText C args"
| "mainText C version MVersion = line (''termcp-relay '' @ version)"
| "mainText C version (MInitExists path) = line (''init: '' @ path @ '' already exists (remove it first to regenerate)'')"
| "mainText C version (MInitError err) = line (''init: '' @ errText C err)"
| "mainText C version (MWrote path) =
     line (''wrote '' @ path) @ line (''edit it, then run: termcp-relay --config '' @ path)
     @ line (''or install it as a service: termcp-relay service install --config '' @ path)"
| "mainText C version (MServiceError err) = line (''service: '' @ errText C err)"
| "mainText C version (MRunError err) = line (errText C err)"

definition maFS :: "mainState \<Rightarrow> fsys" where
  "maFS s = nwFS (wNet (maWorld s))"

definition setFS :: "fsys \<Rightarrow> mainState \<Rightarrow> mainState" where
  "setFS fs s = s\<lparr>maWorld := (maWorld s)\<lparr>wNet := (wNet (maWorld s))\<lparr>nwFS := fs\<rparr>\<rparr>\<rparr>"

definition say :: "mainMsg \<Rightarrow> mainState \<Rightarrow> mainState" where
  "say m s = s\<lparr>maOut := maOut s @ [m]\<rparr>"

lemma main_state_simps [simp]:
  "maFS (setFS fs s) = fs" "maFS (say m s) = maFS s"
  "maOut (setFS fs s) = maOut s" "maOut (say m s) = maOut s @ [m]"
  "maHist (setFS fs s) = maHist s" "maHist (say m s) = maHist s"
  "setFS (maFS s) s = s"
  by (simp_all add: maFS_def setFS_def say_def)

section \<open>\<open>init\<close>\<close>

definition initFormal :: formal where
  "initFormal = [(''config'', StringFlag)]"

definition initDefaults :: flagValues where
  "initDefaults = (\<lambda>n. [])(''config'' := ''config.toml'')"

text \<open>The path \<open>init\<close> writes to: the positional argument, else the flag, else the default.\<close>

definition initPath :: "string list \<Rightarrow> nat + string" where
  "initPath args =
     (case parseFlags initFormal initDefaults args of
        Inl code \<Rightarrow> Inl code
      | Inr (v, rest) \<Rightarrow> Inr (if rest \<noteq> [] then hd rest else v ''config''))"

definition runInit :: "pathOps \<Rightarrow> string list \<Rightarrow> mainState \<Rightarrow> int \<times> mainState" where
  "runInit P args s =
     (case initPath args of
        Inl code \<Rightarrow> (int code, say (MFlagsRefused args) s)
      | Inr path \<Rightarrow>
          (case WriteTemplate P (maFS s) path of
             (Some err, fs) \<Rightarrow>
               (1, say (if errors_Is err ErrExist then MInitExists path else MInitError err) (setFS fs s))
           | (None, fs) \<Rightarrow> (0, say (MWrote path) (setFS fs s))))"

section \<open>The service commands and the daemon\<close>

definition runService :: "'sid cliEnv \<Rightarrow> string list \<Rightarrow> mainState \<Rightarrow> int \<times> mainState" where
  "runService C args s =
     (case Command C args \<lparr>clFS = maFS s, clIn = maIn s, clHist = maHist s, clNotes = maNotes s\<rparr> of
        (code, c) \<Rightarrow> (code, setFS (clFS c) s\<lparr>maIn := clIn c, maHist := clHist c, maNotes := clNotes c\<rparr>))"

definition runDaemon ::
    "('key, 'k, 's, 'sid) mainEnv \<Rightarrow> options \<Rightarrow> mainState \<Rightarrow> (int \<times> mainState) option" where
  "runDaemon M opts s =
     (let finish = (\<lambda>r. case r of
            None \<Rightarrow> None
          | Some (None, w) \<Rightarrow> Some (0, s\<lparr>maWorld := w\<rparr>)
          | Some (Some err, w) \<Rightarrow> Some (1, say (MRunError err) (s\<lparr>maWorld := w\<rparr>)))
      in case newService (meCli M) opts of
           Inl err \<Rightarrow> if errors_Is err ErrNoServiceSystem
                      then finish (RunForeground (meProg M) (maWorld s) opts)
                      else Some (1, say (MServiceError err) s)
         | Inr cfg \<Rightarrow> finish (meRun M cfg opts (maWorld s)))"

definition relayMain ::
    "('key, 'k, 's, 'sid) mainEnv \<Rightarrow> string list \<Rightarrow> mainState \<Rightarrow> (int \<times> mainState) option" where
  "relayMain M args s =
     (let daemon = (case mainOptions args of
            Inl code \<Rightarrow> Some (int code, say (MFlagsRefused args) s)
          | Inr opts \<Rightarrow> runDaemon M opts s)
      in case args of
           [] \<Rightarrow> daemon
         | a # rest \<Rightarrow>
             if a \<in> set [''help'', ''-h'', ''--help''] then Some (0, say MUsage s)
             else if a \<in> set [''version'', ''--version''] then Some (0, say MVersion s)
             else if a = ''init'' then Some (runInit (hPaths (peHost (meProg M))) rest s)
             else if a = ''service'' then Some (runService (meCli M) rest s)
             else daemon)"

end
