(* ===== verification/Relay_Main_Facts.thy ===== *)
theory Relay_Main_Facts
  imports Relay_Main Relay_Handoff
begin

text \<open>
  The whole program: \<open>init\<close> writes once, the daemon lets go of everything it opened, and a
  service that was installed starts as the daemon with the configuration that was checked.
\<close>

section \<open>\<open>init\<close>\<close>






lemma relayMain_init [simp]:
  "relayMain M (''init'' # args) s = Some (runInit (hPaths (peHost (meProg M))) args s)"
  by (simp add: relayMain_def)

section \<open>The daemon\<close>

text \<open>
  What \<open>kardianos/service\<close> documents of \<open>Run\<close>: it calls \<open>Start\<close>, waits for the signal or the
  manager's order, calls \<open>Stop\<close>, and returns the error of either.
\<close>

definition runsProgram :: "('key, 'k, 's, 'sid) mainEnv \<Rightarrow> bool" where
  "runsProgram M \<longleftrightarrow> (\<forall>cfg opts w. meRun M cfg opts w = RunForeground (meProg M) w opts)"

lemma RunForeground_total:
  assumes "consumes (peParseKey E)"
  shows "\<exists>r w'. RunForeground E w opts = Some (r, w')"
  using programStart_total[OF assms, of w "freshProgram opts"]
  by (auto simp: RunForeground_def split: option.splits prod.splits)

lemma RunForeground_listeners:
  assumes "RunForeground E w opts = Some (r, w')"
  shows "mset (nwOpen (wNet w')) = mset (nwOpen (wNet w))"
proof -
  have ok: "progOK w w (freshProgram opts)" by (simp add: progOK_def heldListener_def)
  obtain err w1 p1 where st: "programStart E w (freshProgram opts) = Some (err, w1, p1)"
    using assms by (auto simp: RunForeground_def split: option.splits)
  note ok1 = progOK_start[OF st ok]
  show ?thesis
  proof (cases err)
    case None
    obtain e2 w2 p2 where sp: "programStop E w1 p1 = (e2, w2, p2)" by (metis prod_cases3)
    with assms st None have "w' = w2" by (simp add: RunForeground_def)
    with progOK_stop[OF sp ok1] programStop_parts[OF sp] show ?thesis by (simp add: progOK_def heldListener_def)
  next
    case (Some e)
    from st have "pgSrv p1 = None"
    proof (cases rule: programStart_cases)
      case (boot cfg fs' closer handler)
      from boot(5) Some show ?thesis by (cases rule: bootServer_cases) auto
    qed (use Some in auto)
    with assms st Some ok1 show ?thesis by (simp add: RunForeground_def progOK_def heldListener_def)
  qed
qed

lemma RunForeground_ok:
  assumes "RunForeground E w opts = Some (None, w')"
  shows "\<exists>w1 p1. programStart E w (freshProgram opts) = Some (None, w1, p1)"
  using assms by (auto simp: RunForeground_def split: option.splits prod.splits)

lemma runDaemon_cases:
  assumes "runsProgram M" and "consumes (peParseKey (meProg M))"
  obtains (refused) e where "runDaemon M opts s = Some (1, say (MServiceError e) s)"
  | (ran) r w where "RunForeground (meProg M) (maWorld s) opts = Some (r, w)"
      "runDaemon M opts s = Some (case r of None \<Rightarrow> (0, s\<lparr>maWorld := w\<rparr>)
         | Some err \<Rightarrow> (1, say (MRunError err) (s\<lparr>maWorld := w\<rparr>)))"
proof -
  obtain r w where r: "RunForeground (meProg M) (maWorld s) opts = Some (r, w)"
    using RunForeground_total[OF assms(2)] by blast
  show thesis
  proof (cases "newService (meCli M) opts")
    case (Inl err)
    then show thesis
      using r refused[of err] ran[OF r]
      by (cases "errors_Is err ErrNoServiceSystem") (simp_all add: runDaemon_def split: option.split)
  next
    case (Inr cfg)
    then show thesis
      using r assms(1) ran[OF r] by (simp add: runDaemon_def runsProgram_def split: option.split)
  qed
qed

definition subcommands :: "string list" where
  "subcommands = [''help'', ''-h'', ''--help'', ''version'', ''--version'', ''init'', ''service'']"

lemma relayMain_daemon:
  assumes "args = [] \<or> hd args \<notin> set subcommands"
  shows "relayMain M args s =
     (case mainOptions args of Inl code \<Rightarrow> Some (int code, say (MFlagsRefused args) s) | Inr opts \<Rightarrow> runDaemon M opts s)"
proof (cases args)
  case (Cons a rest)
  have e: "set subcommands = set [''help'', ''-h'', ''--help''] \<union> set [''version'', ''--version''] \<union> {''init''} \<union> {''service''}"
    by (simp add: subcommands_def insert_commute)
  from assms Cons have "a \<notin> set subcommands" by simp
  then have "a \<notin> set [''help'', ''-h'', ''--help'']" "a \<notin> set [''version'', ''--version'']" "a \<noteq> ''init''" "a \<noteq> ''service''"
    unfolding e by simp_all
  then show ?thesis unfolding relayMain_def Cons Let_def list.case by (simp only: if_False)
next
  case Nil
  show ?thesis unfolding Nil by (simp add: relayMain_def)
qed

section \<open>From the installation to the daemon\<close>

text \<open>
  The path functions of the same host in a process with another working directory: it matters
  for relative paths only.
\<close>

definition elsewhere :: "pathOps \<Rightarrow> pathOps \<Rightarrow> bool" where
  "elsewhere P Q \<longleftrightarrow> fpIsAbs Q = fpIsAbs P \<and> fpJoin Q = fpJoin P \<and> fpDir Q = fpDir P
     \<and> (\<forall>p. fpIsAbs P p \<longrightarrow> fpAbs Q p = fpAbs P p)"

lemma unix_elsewhere: "elsewhere (unixPaths cwd) (unixPaths cwd')"
  by (simp add: elsewhere_def unixAbs_def)

lemma Load_elsewhere:
  assumes "path_laws P" and "elsewhere P Q" and "fpAbs P p = Inr a"
  shows "Load Q dec fs a = Load P dec fs a"
proof -
  have abs: "fpIsAbs P a" and b: "\<not> blank a"
    using path_laws.abs_isAbs[OF assms(1,3)] path_laws.abs_nonblank[OF assms(1,3)] by (simp_all add: blank_def)
  have r: "resolve Q = resolve P"
    using assms(2) by (intro ext) (simp add: resolve_def elsewhere_def)
  have n: "normalize Q c = normalize P c" for c unfolding normalize_def r ..
  from assms(2) abs have "fpAbs Q a = fpAbs P a" "fpDir Q = fpDir P" by (simp_all add: elsewhere_def)
  with n b show ?thesis by (simp add: Load_def Let_def)
qed

text \<open>What an installation that is prepared has resolved and checked, whatever the account.\<close>

lemma resolveAccount_paths:
  assumes "resolveAccount C cred o1 s = (e, o2, s1)"
  shows "opConfigPath o2 = opConfigPath o1 \<and> opLogFile o2 = opLogFile o1 \<and> opWorkDir o2 = opWorkDir o1
    \<and> opLogLevel o2 = opLogLevel o1"
  using assms by (auto simp: resolveAccount_def Let_def split: if_splits sum.splits prod.splits)

lemma prepared_paths:
  assumes "prepareInstall C cred o0 s = (Inr o1, s1)"
  shows "\<exists>a cfg l w. resolveConfigPath (hPaths (ceHost C)) (clFS s) (opConfigPath o0) = Inr a
     \<and> Load (hPaths (ceHost C)) (ceDecode C) (clFS s) a = Inr cfg
     \<and> installLogFile (ceHost C) a (opLogFile o0) = Inr l \<and> installWorkDir (ceHost C) (opWorkDir o0) = Inr w
     \<and> opConfigPath o1 = a \<and> opLogFile o1 = l \<and> opWorkDir o1 = w \<and> opLogLevel o1 = opLogLevel o0"
proof -
  from assms obtain o2 where "installPaths C (clFS s) o0 = Inr o2" "resolveAccount C cred o2 s = (None, o1, s1)"
    by (auto simp: prepareInstall_def split: sum.splits prod.splits option.splits)
  with resolveAccount_paths[OF this(2)] show ?thesis by (auto simp: installPaths_eq)
qed

context path_laws begin

lemma installed_isAbs:
  assumes "hPaths h = P" and "installLogFile h a lf = Inr l" and "installWorkDir h wd = Inr w"
  shows "(l \<noteq> [] \<longrightarrow> fpIsAbs P l) \<and> (\<not> blank w \<longrightarrow> fpIsAbs P w)"
  using assms abs_isAbs
  by (auto simp: installLogFile_def installWorkDir_def Let_def blank_def wrapR_eq_Inr split: if_splits sum.splits)

end

lemma installed_arguments:
  assumes "opConfigPath o1 \<noteq> []"
  shows "mainOptions (kcArguments (kserviceConfig K h o1)) =
      Inr \<lparr>opName = [], opConfigPath = opConfigPath o1, opLogLevel = opLogLevel o1, opLogFile = opLogFile o1,
           opWorkDir = opWorkDir o1, opSystem = False, opUserName = [], opPassword = [], opNeedsCredential = False\<rparr>"
    and "hd (kcArguments (kserviceConfig K h o1)) = ''--config''"
  by (simp_all only: mainOptions_def kserviceConfig_args read_main)
    (use assms in \<open>simp_all add: mainDefaults_def optFlag_def\<close>)

section \<open>A concrete program\<close>

definition labMain :: "(nat, string, string, string) mainEnv" where
  "labMain = \<lparr>meProg = labEnv, meCli = labCli, meRun = (\<lambda>cfg opts w. RunForeground labEnv w opts)\<rparr>"

definition labStart :: mainState where
  "labStart = \<lparr>maWorld = labWorld, maIn = clIn labState, maHist = [], maNotes = [], maOut = []\<rparr>"

definition unixCli :: "string cliEnv" where
  "unixCli = setupCli\<lparr>ceHost := setupHost\<lparr>hGOOS := Linux\<rparr>\<rparr>"

lemma lab_runs: "runsProgram labMain" "consumes (peParseKey (meProg labMain))"
  by (simp_all add: runsProgram_def labMain_def consumes_def labEnv_def)






section \<open>Properties\<close>



text \<open>C28: The daemon gives everything back: with a key parser that consumes its input, it ends with 0 or
  1; whatever went wrong, the listeners that are open afterwards are those that were open
  before; and it ends with 0 only if the relay had started.\<close>
theorem daemon_lets_go:
  assumes "runsProgram M" and "consumes (peParseKey (meProg M))"
    and "args = [] \<or> hd args \<notin> set subcommands" and "mainOptions args = Inr opts"
  shows "\<exists>code s'. relayMain M args s = Some (code, s') \<and> code \<in> {0, 1} \<and> maHist s' = maHist s
     \<and> mset (nwOpen (wNet (maWorld s'))) = mset (nwOpen (wNet (maWorld s)))
     \<and> (code = 0 \<longrightarrow> (\<exists>w1 p1. programStart (meProg M) (maWorld s) (freshProgram opts) = Some (None, w1, p1)))"
proof -
  have m: "relayMain M args s = runDaemon M opts s" using assms(4) by (simp add: relayMain_daemon[OF assms(3)])
  from assms(1,2) show ?thesis
  proof (cases rule: runDaemon_cases[where opts = opts and s = s])
    case (refused e)
    then show ?thesis using m by (simp add: say_def)
  next
    case (ran r w)
    from RunForeground_listeners[OF ran(1)] ran RunForeground_ok[of "meProg M" "maWorld s" opts w]
    show ?thesis using m by (cases r) (auto simp: say_def)
  qed
qed

theorem daemon_lets_go_witness:
  "\<exists>code s'. relayMain labMain [''--config'', ''/c.toml''] labStart = Some (code, s')
     \<and> nwOpen (wNet (maWorld s')) = []"
proof -
  have o': "[''--config'', ''/c.toml''] = optFlag ''config'' ''/c.toml'' @ []" by (simp add: optFlag_def)
  have m: "\<exists>opts. mainOptions [''--config'', ''/c.toml''] = Inr opts"
    unfolding mainOptions_def o' by (simp only: read_main) simp
  have h: "[''--config'', ''/c.toml''] = [] \<or> hd [''--config'', ''/c.toml''] \<notin> set subcommands"
    by (simp add: subcommands_def)
  from m obtain opts where "mainOptions [''--config'', ''/c.toml''] = Inr opts" by blast
  from daemon_lets_go[OF lab_runs h this, of labStart] show ?thesis
    by (auto simp: labStart_def labWorld_def)
qed

text \<open>C3: What was installed is what runs, on Unix and on Windows: the service manager, starting the
  program with the arguments of the definition (on Windows quoted into a command line and
  split again), gets the daemon, not a subcommand, with the absolute paths of the
  installation; and from whatever directory it is started the daemon loads the very
  configuration that was checked before installing, as long as the file is the same.\<close>
theorem installed_service_runs_checked_config:
  assumes "path_laws (hPaths (ceHost C))" and "elsewhere (hPaths (ceHost C)) Q"
    and "prepareInstall C cred o0 s = (Inr o1, s1)" and "newService C o1 = Inr k"
    and "argv = kcArguments k \<or> argv = commandLineToArgv (joinArgs (kcArguments k))"
  shows "\<exists>opts cfg. relayMain M argv t = runDaemon M opts t
     \<and> fpIsAbs Q (opConfigPath opts) \<and> opConfigPath opts = opConfigPath o1
     \<and> opLogFile opts = opLogFile o1 \<and> (opLogFile opts \<noteq> [] \<longrightarrow> fpIsAbs Q (opLogFile opts))
     \<and> opWorkDir opts = opWorkDir o1 \<and> (\<not> blank (opWorkDir opts) \<longrightarrow> fpIsAbs Q (opWorkDir opts))
     \<and> opLogLevel opts = opLogLevel o0
     \<and> Load (hPaths (ceHost C)) (ceDecode C) (clFS s) (opConfigPath o1) = Inr cfg
     \<and> Load Q (ceDecode C) (clFS s) (opConfigPath opts) = Inr cfg"
proof -
  let ?P = "hPaths (ceHost C)"
  obtain a cfg l w where i: "resolveConfigPath ?P (clFS s) (opConfigPath o0) = Inr a"
      "Load ?P (ceDecode C) (clFS s) a = Inr cfg"
      "installLogFile (ceHost C) a (opLogFile o0) = Inr l" "installWorkDir (ceHost C) (opWorkDir o0) = Inr w"
      "opConfigPath o1 = a" "opLogFile o1 = l" "opWorkDir o1 = w" "opLogLevel o1 = opLogLevel o0"
    using prepared_paths[OF assms(3)] by blast
  obtain p where a: "fpAbs ?P p = Inr a" using resolveConfigPath_ok[OF i(1)] by auto
  have abs: "fpIsAbs ?P a" by (rule path_laws.abs_isAbs[OF assms(1) a])
  note lw = path_laws.installed_isAbs[OF assms(1) refl, OF i(3,4)]
  from path_laws.isAbs_nonempty[OF assms(1) abs] have ne: "opConfigPath o1 \<noteq> []" using i(5) by simp
  have k: "k = kserviceConfig (ceConsts C) (ceHost C) o1"
    using assms(4) by (auto simp: newService_def Let_def split: option.splits)
  have argv: "argv = kcArguments k" using assms(5) by (auto simp: argv_joinArgs)
  note args = installed_arguments[OF ne, of "ceConsts C" "ceHost C", folded k]
  have "hd (kcArguments k) \<notin> set subcommands" by (simp add: args(2) subcommands_def)
  then have "relayMain M argv t = runDaemon M \<lparr>opName = [], opConfigPath = opConfigPath o1,
      opLogLevel = opLogLevel o1, opLogFile = opLogFile o1, opWorkDir = opWorkDir o1, opSystem = False,
      opUserName = [], opPassword = [], opNeedsCredential = False\<rparr> t"
    using args(1) by (simp add: argv relayMain_daemon)
  moreover have "fpIsAbs Q = fpIsAbs ?P" using assms(2) by (simp add: elsewhere_def)
  ultimately show ?thesis
    using abs i lw Load_elsewhere[OF assms(1,2) a] by (intro exI conjI) (assumption | simp)+
qed

theorem installed_service_runs_checked_config_witness:
  "\<exists>k opts. newService unixCli (labOptions ''/c.toml'') = Inr k
     \<and> relayMain labMain (kcArguments k) labStart = runDaemon labMain opts labStart
     \<and> opConfigPath opts = ''/c.toml''
     \<and> (\<exists>cfg. Load (unixPaths None) pwDecoder setupFS (opConfigPath opts) = Inr cfg)"
proof -
  have p: "unixAbs (Some []) ''c.toml'' = Inr ''/c.toml''" "TrimSpace ''c.toml'' \<noteq> []" by code_simp+
  have h: "hPaths (ceHost unixCli) = unixPaths (Some [])" "\<not> onWindows (ceHost unixCli)" "ceDecode unixCli = pwDecoder"
      "osUserHomeDir (ceHost unixCli) = Inl (LibErr ''home directory is not defined'')" "clFS setupState = setupFS"
    by (simp_all add: unixCli_def setupCli_def setupHost_def winHost_def onWindows_def labCli_def osUserHomeDir_def setupState_def)
  have 1: "resolveConfigPath (unixPaths (Some [])) setupFS ''c.toml'' = Inr ''/c.toml''"
    by (simp add: resolveConfigPath_def p osStat_def setupFS_def plainFS_def)
  have 2: "installLogFile (ceHost unixCli) ''/c.toml'' [] = Inr []" "installWorkDir (ceHost unixCli) [] = Inr []"
    by (simp_all add: installLogFile_def installWorkDir_def h)
  have "installPaths unixCli setupFS (labOptions ''c.toml'') = Inr (labOptions ''/c.toml'')"
    unfolding installPaths_eq h using 1 2 Load_example[of setupFS] by (simp add: labOptions_def)
  then have prep: "prepareInstall unixCli [] (labOptions ''c.toml'') setupState = (Inr (labOptions ''/c.toml''), setupState)"
    by (simp add: prepareInstall_def resolveAccount_def h)
  have new: "\<exists>k. newService unixCli (labOptions ''/c.toml'') = Inr k"
    by (simp add: newService_def validateOptions_def labOptions_def unixCli_def setupCli_def labCli_def Let_def)
  then obtain k where k: "newService unixCli (labOptions ''/c.toml'') = Inr k" by blast
  have pl: "path_laws (hPaths (ceHost unixCli))" "elsewhere (hPaths (ceHost unixCli)) (unixPaths None)"
    by (simp_all add: h unix.path_laws_axioms unix_elsewhere)
  from installed_service_runs_checked_config[OF pl prep k disjI2[OF refl], of labMain labStart] k
  show ?thesis unfolding h argv_joinArgs by - (rule exI[of _ k], auto simp: labOptions_def)
qed

end
