(* ===== verification/Spec2Isabelle.thy ===== *)
theory Spec2Isabelle
  imports
    Relay_Env_Facts
    Relay_Config_Facts
    Relay_Auth
    Relay_HostKey
    Relay_Session_Facts
    Relay_Server_Facts
    Relay_Options_Facts
    Relay_Program_Facts
    Relay_Windows_Facts
    Relay_Cli_Facts
    Relay_Elevation
    Relay_Handles
    Relay_Text_Facts
    Relay_Running
    Relay_Concurrency
    Relay_Main_Facts
begin

text \<open>
  A verification library for termcp-relay, a standalone SSH daemon written in Go.

  \<^bold>\<open>The program.\<close> \<open>main.go\<close> dispatches: \<open>init\<close> writes a template configuration, \<open>service\<close>
  runs the service commands, everything else is the daemon. The daemon loads a TOML file
  (\<open>internal/config\<close>), opens the log, resolves the directory sessions start in, loads the
  authorized keys and builds and starts the SSH server (\<open>internal/service/service.go\<close>,
  \<open>internal/sshserver\<close>). The server loads or creates its host key, listens, lets clients
  in by password or key, and runs a process for each session, with an environment that on
  Windows is rebuilt from the registry. The service commands (\<open>internal/service/cli.go\<close> and
  the platform files beside it) install, remove, control and query the system service; on
  Windows they check the service account's password, relaunch themselves elevated, and hand
  the password over in a file.

  \<^bold>\<open>How code becomes theory.\<close> A Go string is a \<open>string\<close>, a list of bytes; UTF-8 is decoded
  explicitly where the library does so. A struct is a record, an error value a \<open>goerr\<close> (the
  sentinels the code compares with \<open>errors.Is\<close>, a Windows error number, an error of a library,
  the program's own error with its text, and \<open>%w\<close> wrapping with the text around it;
  \<open>errorText\<close> puts the whole text together), a function with a value and an error returns \<open>'a res = goerr + 'a\<close>, one with an
  error alone a \<open>goerr option\<close>. A function with effects takes the state and returns it
  changed, also beside an error, so that what a failed operation leaves behind is visible. A
  Go map is a function to an option, with a list of keys where the code keeps an order. A
  loop is structural recursion, recursion with a measure, or, where it need not end,
  \<open>partial_function (option)\<close>, whose \<open>None\<close> is a loop that never ends. The build tags are
  the field \<open>hGOOS\<close> of the host: each pair of platform files is one definition with a case
  distinction.

  \<^bold>\<open>What is a parameter.\<close> Nothing is assumed of code outside the repository beyond its
  documented behaviour, and that as named hypotheses: the TOML decoder (\<open>tomlDecoder\<close>;
  \<open>readsOnlyItsFile\<close>: its result depends on the file alone), \<open>ParseAuthorizedKey\<close> (\<open>consumes\<close>:
  a key takes up input), key generation, encoding and parsing (\<open>sshEnv\<close>), the SSH library
  (\<open>challengesBy\<close>: without handlers everybody is let in, with some only whom one of them
  accepts), \<open>net.Listen\<close>, starting and waiting for a process, the Windows calls (\<open>winAPI\<close>),
  the service manager \<open>kardianos/service\<close> (\<open>smAPI\<close>; \<open>runsProgram\<close>: \<open>Run\<close> starts the program,
  waits, stops it), the Unicode case tables (\<open>caseTable\<close>) and the Windows path functions
  (\<open>path_laws\<close>; on Unix they are defined and the laws proved; \<open>elsewhere\<close>: in a process with
  another working directory only relative paths mean something else). Each hypothesis is met by the
  concrete instance in the witness of the property that uses it.

  \<^bold>\<open>The theories\<close>, in the order of the imports:

  \<^item> \<open>Relay_Prelude\<close>: error values, results, the collections of hints, shared list lemmas.
  \<^item> \<open>Go_Strings\<close>, \<open>Go_Unicode\<close>, \<open>Go_Path\<close>, \<open>Go_OS\<close>, \<open>Go_Host\<close>, \<open>Go_Flag\<close>, \<open>Go_Argv\<close>, \<open>Go_Net\<close>,
    \<open>Go_Fmt\<close>, \<open>Go_Layout\<close>, \<open>Go_Slog\<close>, \<open>Go_Mutex\<close>: what the program uses of Go and its standard library: byte strings
    and white space, case mapping over UTF-8, paths, the file system with its faults (a
    write that fails leaves as much behind as the oracle \<open>shortWrite\<close> says), the
    host, flag parsing, Windows' quoting and splitting of command lines, addresses, \<open>%q\<close>,
    the sizes and offsets of struct fields, and the default logger with its level, and goroutines
    around a mutex (locale \<open>serialisable\<close>: when locked operations are as good as atomic). Locales \<open>name_fold\<close> and \<open>path_laws\<close>.
  \<^item> \<open>Relay_Env\<close>, \<open>Relay_Env_Facts\<close> (\<open>sshserver/env*.go\<close>): PATH merging, replacing a variable,
    the one-pass expansion of \<open>%NAME%\<close>, the layered composition of the session's environment.
    The composition refines a table on upper-cased names, in which the last write wins
    (\<open>composeSpec\<close>; locales \<open>name_store\<close>, \<open>name_table\<close>).
  \<^item> \<open>Relay_Config\<close>, \<open>Relay_Config_Facts\<close> (\<open>config/config.go\<close>): the record, defaults, \<open>Load\<close> with
    normalisation and validation, the template.
  \<^item> \<open>Relay_Auth\<close> (\<open>sshserver/auth.go\<close>): authorized keys, password and key checks, with the
    constant-time comparison on bytes as words.
  \<^item> \<open>Relay_HostKey\<close> (\<open>sshserver/hostkey.go\<close>): load, or generate and persist.
  \<^item> \<open>Relay_Session\<close>, \<open>Relay_Session_Facts\<close> (\<open>sshserver/session.go\<close>, \<open>pty_*.go\<close>): the shell, the
    command with its environment and directory, and the life of a session as a step
    relation: the session's own steps (\<open>own_step\<close>: the handler's, and the forwarding
    goroutine's, for which receiving, checking and delivering are steps of their own)
    interleave with those of its environment (\<open>env_step\<close>: a signal into the channel of eight,
    the end of the process, the end of a stream). \<open>cmd.Wait\<close> waits for the process and then
    for the streams \<open>os/exec\<close> copies, without a PTY all three.
  \<^item> \<open>Relay_Server\<close>, \<open>Relay_Server_Facts\<close> (\<open>sshserver/server.go\<close>): \<open>New\<close>, \<open>Start\<close>, \<open>Stop\<close>, \<open>Addr\<close>, the
    callbacks and what they log, and the reachable states of a server under any sequence of
    starts, stops, requests of clients and ending accept loops.
  \<^item> \<open>Relay_Options\<close>, \<open>Relay_Options_Facts\<close>: the options and their three spellings, namely the
    service definition (\<open>kserviceConfig\<close>, \<open>platform_*.go\<close>), the daemon's command line and the
    elevated copy's command line, with the round trips between them.
  \<^item> \<open>Relay_Program\<close>, \<open>Relay_Program_Facts\<close> (\<open>service/service.go\<close>): \<open>Program.Start\<close> and \<open>Stop\<close>,
    \<open>RunForeground\<close>, the log handler, the session directory, the connection hints, what is
    logged; one listener exactly while a server runs, every start ends, who is let in.
  \<^item> \<open>Relay_Running\<close>: a relay that has started as a whole: its log tells what it runs, and the
    sessions of its clients take their shell and directory from its configuration.
  \<^item> \<open>Relay_Concurrency\<close>: \<open>Start\<close> and \<open>Stop\<close> of the program and of the server action by action
    under their mutexes, called by any number of goroutines (\<open>progBody\<close>, \<open>serverAct\<close>); by
    interpretation of \<open>serialisable\<close> they are as good as the atomic functions used elsewhere.
  \<^item> \<open>Relay_Windows\<close>, \<open>Relay_Windows_Facts\<close> (\<open>account_windows.go\<close>, \<open>logon_windows.go\<close>,
    \<open>lsaright_windows.go\<close>, \<open>status_windows.go\<close>, \<open>elevate_windows.go\<close>, \<open>stubs_other.go\<close>): account
    names, prompts, the credential file, the right to log on as a service, elevation, and
    the structures filled for Windows: their layout and the counted UTF-16 string.
  \<^item> \<open>Relay_Handles\<close>: the Windows functions once more as programs of a state monad over the files
    and the trace of the calls on handles; they refine those of \<open>Relay_Windows\<close> and give back
    what they open (\<open>safe\<close>, \<open>outcome\<close>).
  \<^item> \<open>Relay_Cli\<close>, \<open>Relay_Cli_Facts\<close> (\<open>service/cli.go\<close>, \<open>status_other.go\<close>): the commands, over the
    history of the calls that change the host's services; what each action calls, in which
    order, and which exit code it gives.
  \<^item> \<open>Relay_Text\<close>, \<open>Relay_Text_Facts\<close>: the usage texts and the text of every message of the
    service commands; the commands an installation suggests are read back.
  \<^item> \<open>Relay_Handoff\<close>: an installation from the command line over the elevation to the elevated
    copy: the same paths, account and verified password on both sides.
  \<^item> \<open>Relay_Elevation\<close>: parent and elevated copy run together. \<open>startsCopies\<close> says that
    \<open>ShellExecuteExW\<close> runs this very program on the command line it is given (\<open>copyProcess\<close>,
    \<open>copyShell\<close>); then an installation and a controlling command typed without rights have the
    outcome, output and exit code of the same command with rights, and a failed preparation
    never gets as far as asking for them.
  \<^item> \<open>Relay_Main\<close>, \<open>Relay_Main_Facts\<close> (\<open>main.go\<close>): dispatch, \<open>init\<close>, the daemon; from the
    installation to the daemon the service manager starts.

  \<^bold>\<open>Bounds.\<close> No definition runs on fuel. The recursions with a measure are those on the bytes
  that are left (trimming, decoding, expansion, argument splitting), on the length of a path
  (\<open>osMkdirAll\<close>) and on the attempts that are left at the password prompt (three).

  \<^bold>\<open>Not modelled.\<close> What a library says in an error of its own
  (\<open>ceLeafText\<close>; the program's texts around it are modelled), what the \<open>flag\<close> package says of
  arguments it refuses (\<open>ceFlagText\<close>), the text a log handler makes of a record, time (the
  half second before the retried start), what others do to files and ports between two
  actions of one locked operation, the accept loop and the forwarding of TCP connections
  inside the SSH library, that library's closing of the listener when \<open>Serve\<close> returns, the
  SFTP server, the panic of \<open>lookupAccountSID\<close> should Windows ever ask for an empty domain
  buffer, symbolic links and other aliases of a path, and what stays open in a process that
  exits. What the PTY library has \<open>os/exec\<close> copy is the parameter \<open>spPtyCopies\<close>.
\<close>

end
